(* ===== verification/Prelude.thy ===== *)
theory Prelude
  imports Main "HOL-Library.Word" "HOL-Library.Sublist" "HOL-Library.Multiset"
begin

text \<open>
  Shared vocabulary of the development. Go's strings and byte slices are lists of \<^typ>\<open>char\<close>,
  one \<^typ>\<open>char\<close> per byte. Go's \<open>int64\<close> and \<open>uint64\<close> are both 64-bit words: a conversion
  between them keeps the bits, comparisons of \<open>int64\<close> values are the signed ones
  (\<open><s\<close>, \<open>\<le>s\<close>), and arithmetic wraps around as in Go. The functions of the packages \<open>strings\<close> and
  \<open>strconv\<close> that the program calls are defined here, and so are the lemma collections:
  \<open>int64_simps\<close> reads signed comparisons as integer comparisons, \<open>gostr_simps\<close> unfolds
  string functions.
\<close>

named_theorems int64_simps \<open>signed 64-bit comparisons read through sint\<close>
named_theorems gostr_simps \<open>unfolding of Go string functions\<close>

type_synonym bytes = "char list"
type_synonym int64 = "64 word"
type_synonym uint64 = "64 word"

subsection \<open>Package strings\<close>

text \<open>\<open>strings.Split\<close> with a one-byte separator (all the separators of the program are).\<close>

fun Split :: "char \<Rightarrow> string \<Rightarrow> string list" where
  "Split sep [] = [[]]"
| "Split sep (c # cs) =
     (if c = sep then [] # Split sep cs
      else case Split sep cs of [] \<Rightarrow> [[c]] | p # ps \<Rightarrow> (c # p) # ps)"

text \<open>\<open>strings.SplitN (s, sep, 2)\<close>: cut at the first separator only.\<close>

fun SplitN2 :: "char \<Rightarrow> string \<Rightarrow> string list" where
  "SplitN2 sep [] = [[]]"
| "SplitN2 sep (c # cs) =
     (if c = sep then [[], cs]
      else case SplitN2 sep cs of [] \<Rightarrow> [[c]] | p # ps \<Rightarrow> (c # p) # ps)"

definition HasPrefix :: "string \<Rightarrow> string \<Rightarrow> bool" where
  "HasPrefix s p \<longleftrightarrow> prefix p s"

definition TrimPrefix :: "string \<Rightarrow> string \<Rightarrow> string" where
  "TrimPrefix s p = (if prefix p s then drop (length p) s else s)"

fun Contains :: "string \<Rightarrow> string \<Rightarrow> bool" where
  "Contains [] sub \<longleftrightarrow> sub = []"
| "Contains (c # cs) sub \<longleftrightarrow> prefix sub (c # cs) \<or> Contains cs sub"

text \<open>\<open>strings.Replace (s, old, new, 1)\<close> for a nonempty \<open>old\<close>.\<close>

fun Replace1 :: "string \<Rightarrow> string \<Rightarrow> string \<Rightarrow> string" where
  "Replace1 [] old new = []"
| "Replace1 (c # cs) old new =
     (if prefix old (c # cs) then new @ drop (length old) (c # cs) else c # Replace1 cs old new)"

text \<open>\<open>strings.ReplaceAll (s, old, new)\<close> for one-byte \<open>old\<close> and \<open>new\<close>.\<close>

definition ReplaceAll1 :: "string \<Rightarrow> char \<Rightarrow> char \<Rightarrow> string" where
  "ReplaceAll1 s old new = map (\<lambda>c. if c = old then new else c) s"

text \<open>
  \<open>strings.TrimSpace\<close> removes leading and trailing Unicode white space. A byte string starts
  (ends) with a white-space rune exactly when it starts (ends) with that rune's UTF-8 encoding;
  the encodings of all runes with \<open>unicode.IsSpace\<close> are listed.
\<close>

definition space_runes :: "bytes list" where
  "space_runes = map (map char_of)
     ([[9], [10], [11], [12], [13], [32], [0xC2, 0x85], [0xC2, 0xA0], [0xE1, 0x9A, 0x80],
       [0xE2, 0x80, 0xA8], [0xE2, 0x80, 0xA9], [0xE2, 0x80, 0xAF], [0xE2, 0x81, 0x9F],
       [0xE3, 0x80, 0x80]] @ map (\<lambda>n. [0xE2, 0x80, 0x80 + n]) [0..<11] :: nat list list)"

fun trim_left :: "bytes list \<Rightarrow> string \<Rightarrow> string" where
  "trim_left ws [] = []"
| "trim_left ws (c # cs) =
     (case find (\<lambda>w. w \<noteq> [] \<and> prefix w (c # cs)) ws of
        None \<Rightarrow> c # cs
      | Some w \<Rightarrow> trim_left ws (drop (length w - 1) cs))"

definition TrimSpace :: "string \<Rightarrow> string" where
  "TrimSpace s =
     rev (trim_left (map rev space_runes) (rev (trim_left space_runes s)))"

subsection \<open>Package strconv\<close>

datatype num_error = ErrSyntax | ErrRange

definition digit_char :: "nat \<Rightarrow> char" where
  "digit_char d = char_of (48 + d)"

definition digit_val :: "char \<Rightarrow> nat option" where
  "digit_val c = (let n = of_char c in if 48 \<le> n \<and> n \<le> 57 then Some (n - 48) else None)"

fun FormatNat :: "nat \<Rightarrow> string" where
  "FormatNat n = (if n < 10 then [digit_char n] else FormatNat (n div 10) @ [digit_char (n mod 10)])"

declare FormatNat.simps [simp del]

definition FormatUint :: "uint64 \<Rightarrow> string" where
  "FormatUint w = FormatNat (unat w)"

definition FormatInt :: "int64 \<Rightarrow> string" where
  "FormatInt w = (if sint w < 0 then ''-'' @ FormatNat (nat (- sint w)) else FormatNat (nat (sint w)))"

definition maxUint64 :: nat where
  "maxUint64 = 18446744073709551615"

text \<open>
  The digit loop of \<open>strconv.ParseUint\<close> at base 10 and 64 bits; the first bad byte or the first
  overflow ends it.
\<close>

fun parse_digits :: "nat \<Rightarrow> string \<Rightarrow> num_error + nat" where
  "parse_digits n [] = Inr n"
| "parse_digits n (c # cs) =
     (case digit_val c of
        None \<Rightarrow> Inl ErrSyntax
      | Some d \<Rightarrow>
          if maxUint64 div 10 + 1 \<le> n then Inl ErrRange
          else if maxUint64 < n * 10 + d then Inl ErrRange
          else parse_digits (n * 10 + d) cs)"

definition ParseUint :: "string \<Rightarrow> num_error + uint64" where
  "ParseUint s = (if s = [] then Inl ErrSyntax
     else case parse_digits 0 s of Inl e \<Rightarrow> Inl e | Inr n \<Rightarrow> Inr (of_nat n))"

text \<open>\<open>strconv.ParseInt (s, 10, 64)\<close>: an optional sign, then \<open>ParseUint\<close> and the range check.\<close>

definition ParseInt :: "string \<Rightarrow> num_error + int64" where
  "ParseInt s =
     (case s of
        [] \<Rightarrow> Inl ErrSyntax
      | c # cs \<Rightarrow>
          (let neg = (c = CHR ''-''); s' = (if c = CHR ''+'' \<or> c = CHR ''-'' then cs else s)
           in case ParseUint s' of
                Inl e \<Rightarrow> Inl e
              | Inr un \<Rightarrow>
                  if \<not> neg \<and> 2 ^ 63 \<le> unat un then Inl ErrRange
                  else if neg \<and> 2 ^ 63 < unat un then Inl ErrRange
                  else Inr (if neg then - un else un)))"

definition ParseBool :: "string \<Rightarrow> num_error + bool" where
  "ParseBool s =
     (if s \<in> set [''1'', ''t'', ''T'', ''true'', ''TRUE'', ''True''] then Inr True
      else if s \<in> set [''0'', ''f'', ''F'', ''false'', ''FALSE'', ''False''] then Inr False
      else Inl ErrSyntax)"

subsection \<open>Package bytes\<close>

fun Compare :: "bytes \<Rightarrow> bytes \<Rightarrow> int" where
  "Compare [] [] = 0"
| "Compare [] (_ # _) = -1"
| "Compare (_ # _) [] = 1"
| "Compare (a # as) (b # bs) =
     (if of_char a < (of_char b :: nat) then -1
      else if of_char b < (of_char a :: nat) then 1 else Compare as bs)"


subsection \<open>Signed comparisons\<close>

lemma sless_sint [int64_simps]: "(a :: 'a::len word) <s b \<longleftrightarrow> sint a < sint b"
  by (rule word_sless_alt)

lemma sle_sint [int64_simps]: "(a :: 'a::len word) \<le>s b \<longleftrightarrow> sint a \<le> sint b"
  by (rule word_sle_eq)

lemma sint_range64: "- (2 ^ 63) \<le> sint (a :: int64)" "sint (a :: int64) < 2 ^ 63"
  using sint_greater_eq [of a] sint_less [of a] by simp_all

lemma signed_take_bit_64:
  "- (2 ^ 63) \<le> k \<Longrightarrow> k < 2 ^ 63 \<Longrightarrow> signed_take_bit 63 (k :: int) = k"
  by (rule signed_take_bit_int_eq_self) simp_all

lemma sint_add64:
  fixes a b :: int64
  assumes "- (2 ^ 63) \<le> sint a + sint b" and "sint a + sint b < 2 ^ 63"
  shows "sint (a + b) = sint a + sint b"
  using assms signed_take_bit_64 by (simp add: sint_word_ariths)

lemma sint_sub64:
  fixes a b :: int64
  assumes "- (2 ^ 63) \<le> sint a - sint b" and "sint a - sint b < 2 ^ 63"
  shows "sint (a - b) = sint a - sint b"
  using assms signed_take_bit_64 by (simp add: sint_word_ariths)

lemma unat_of_sint_nonneg: "0 \<le> sint (a :: int64) \<Longrightarrow> unat a = nat (sint a)"
proof -
  assume "0 \<le> sint a"
  then have "uint a = sint a"
    using sint_range64 [of a] by (simp add: uint_sint take_bit_int_eq_self)
  then show "unat a = nat (sint a)" by (metis nat_uint_eq)
qed

subsection \<open>Decimal numbers: printing then parsing\<close>

lemma digit_val_digit_char [simp]: "d < 10 \<Longrightarrow> digit_val (digit_char d) = Some d"
  by (simp add: digit_val_def digit_char_def)

lemma digit_val_plus: "digit_val CHR ''+'' = None"
  by (simp add: digit_val_def)

lemma digit_val_minus: "digit_val CHR ''-'' = None"
  by (simp add: digit_val_def)

lemma parse_digits_append:
  "parse_digits a (xs @ ys) =
     (case parse_digits a xs of Inl e \<Rightarrow> Inl e | Inr n \<Rightarrow> parse_digits n ys)"
  by (induction a xs rule: parse_digits.induct) (auto split: option.splits)

lemma parse_digits_FormatNat:
  "parse_digits 0 (FormatNat n) = (if n \<le> maxUint64 then Inr n else Inl ErrRange)"
proof (induction n rule: less_induct)
  case (less n)
  show ?case
  proof (cases "n < 10")
    case True
    then have "parse_digits 0 (FormatNat n) = parse_digits 0 [digit_char n]"
      by (subst FormatNat.simps) simp
    moreover from True have "n \<le> maxUint64" by (simp add: maxUint64_def)
    ultimately show ?thesis using True by simp
  next
    case False
    then have "parse_digits 0 (FormatNat n) =
        (case parse_digits 0 (FormatNat (n div 10)) of Inl e \<Rightarrow> Inl e
         | Inr m \<Rightarrow> parse_digits m [digit_char (n mod 10)])"
      by (subst FormatNat.simps) (simp only: parse_digits_append if_False)
    also have "parse_digits 0 (FormatNat (n div 10)) =
        (if n div 10 \<le> maxUint64 then Inr (n div 10) else Inl ErrRange)"
      by (rule less.IH) (use False in simp)
    also have "(case (if n div 10 \<le> maxUint64 then Inr (n div 10) else Inl ErrRange) of
          Inl e \<Rightarrow> Inl e | Inr m \<Rightarrow> parse_digits m [digit_char (n mod 10)]) =
        (if n \<le> maxUint64 then Inr n else Inl ErrRange)"
    proof -
      have "n div 10 * 10 + n mod 10 = n" by simp
      moreover have "maxUint64 div 10 + 1 \<le> n div 10 \<Longrightarrow> maxUint64 < n"
        by (simp add: maxUint64_def)
      moreover have "\<not> n div 10 \<le> maxUint64 \<Longrightarrow> maxUint64 < n"
        by (simp add: maxUint64_def)
      ultimately show ?thesis by auto
    qed
    finally show ?thesis .
  qed
qed

lemma FormatNat_nonempty [simp]: "FormatNat n \<noteq> []"
  by (subst FormatNat.simps) simp

lemma digit_char_not_sign: "d < 10 \<Longrightarrow> digit_char d \<noteq> CHR ''+'' \<and> digit_char d \<noteq> CHR ''-''"
  by (metis digit_val_digit_char digit_val_plus digit_val_minus option.distinct(1))

lemma FormatNat_hd: "hd (FormatNat n) \<noteq> CHR ''+'' \<and> hd (FormatNat n) \<noteq> CHR ''-''"
proof (induction n rule: FormatNat.induct)
  case (1 n)
  then show ?case
    by (cases "n < 10") (auto simp: FormatNat.simps [of n] digit_char_not_sign)
qed

lemma ParseUint_FormatUint: "ParseUint (FormatUint w) = Inr w"
proof -
  have "unat w \<le> maxUint64"
    using unsigned_less [where 'a = nat, of w] by (simp add: maxUint64_def)
  then show ?thesis
    by (simp add: ParseUint_def FormatUint_def parse_digits_FormatNat)
qed

lemma ParseInt_FormatUint:
  "ParseInt (FormatUint w) = (if unat w < 2 ^ 63 then Inr w else Inl ErrRange)"
proof -
  obtain c cs where "FormatUint w = c # cs"
    by (metis FormatNat_nonempty FormatUint_def neq_Nil_conv)
  moreover from this have "c \<noteq> CHR ''+''" "c \<noteq> CHR ''-''"
    using FormatNat_hd [of "unat w"] by (auto simp: FormatUint_def)
  ultimately show ?thesis
    using ParseUint_FormatUint [of w] by (auto simp: ParseInt_def)
qed

subsection \<open>Splitting and searching\<close>

lemma Split_nonempty [simp]: "Split sep s \<noteq> []"
  by (cases s) (auto split: list.splits)

lemma Split_no_sep: "sep \<notin> set s \<Longrightarrow> Split sep s = [s]"
  by (induction s) auto

lemma Split_append: "sep \<notin> set p \<Longrightarrow> Split sep (p @ sep # s) = p # Split sep s"
  by (induction p) auto

lemma Contains_iff: "Contains s sub \<longleftrightarrow> (\<exists>pre post. s = pre @ sub @ post)"
proof (induction s)
  case Nil
  then show ?case by auto
next
  case (Cons c cs)
  show ?case
  proof
    assume "Contains (c # cs) sub"
    then consider "prefix sub (c # cs)" | pre post where "cs = pre @ sub @ post"
      using Cons.IH by auto
    then show "\<exists>pre post. c # cs = pre @ sub @ post"
    proof cases
      case 1
      then show ?thesis by (auto simp: prefix_def intro: exI [of _ "[]"])
    next
      case 2
      then have "c # cs = (c # pre) @ sub @ post" by simp
      then show ?thesis by blast
    qed
  next
    assume "\<exists>pre post. c # cs = pre @ sub @ post"
    then obtain pre post where eq: "c # cs = pre @ sub @ post" by blast
    then show "Contains (c # cs) sub"
    proof (cases pre)
      case Nil
      with eq have "prefix sub (c # cs)" by (simp add: prefix_def)
      then show ?thesis by simp
    next
      case (Cons a pre')
      with eq Cons.IH show ?thesis by auto
    qed
  qed
qed

lemma Contains_char: "Contains s [c] \<longleftrightarrow> c \<in> set s"
  by (auto simp: Contains_iff in_set_conv_decomp)

subsection \<open>Byte comparison\<close>

lemma Compare_eq_0: "Compare a b = 0 \<longleftrightarrow> a = b"
proof (induction a b rule: Compare.induct)
  case (4 a as b bs)
  consider "of_char a < (of_char b :: nat)" | "of_char b < (of_char a :: nat)" | "a = b"
    using linorder_neqE_nat of_char_eq_iff by metis
  with 4 show ?case by cases auto
qed auto

lemma Compare_values: "Compare a b = -1 \<or> Compare a b = 0 \<or> Compare a b = 1"
  by (induction a b rule: Compare.induct) auto

lemma Compare_sym: "Compare b a = - Compare a b"
  by (induction a b rule: Compare.induct) auto

lemma Compare_Cons_less:
  "Compare (a # as) (b # bs) = -1 \<longleftrightarrow>
     of_char a < (of_char b :: nat) \<or> a = b \<and> Compare as bs = -1"
proof -
  consider "of_char a < (of_char b :: nat)" | "of_char b < (of_char a :: nat)" | "a = b"
    using linorder_neqE_nat of_char_eq_iff by metis
  then show ?thesis by cases auto
qed

lemma Compare_less_trans: "Compare a b = -1 \<Longrightarrow> Compare b c = -1 \<Longrightarrow> Compare a c = -1"
proof (induction a b arbitrary: c rule: Compare.induct)
  case (2 b bs)
  then show ?case by (cases c) auto
next
  case (4 a as b bs)
  then obtain d ds where c: "c = d # ds" by (cases c) auto
  with "4.prems" have "of_char a < (of_char b :: nat) \<or> a = b \<and> Compare as bs = -1"
    and "of_char b < (of_char d :: nat) \<or> b = d \<and> Compare bs ds = -1"
    by (simp_all only: Compare_Cons_less)
  then show ?case
    unfolding c Compare_Cons_less using "4.IH" [of ds] less_trans by blast
qed auto

end
