(* ===== verification/Errors.thy ===== *)
theory Errors
  imports Prelude
begin

text \<open>
  Package \<open>pkg/controller/errors\<close>: errors that carry an HTTP status, and the recovery of a status
  from an arbitrary chain of wrapped errors. A Go error value is an \<open>err\<close>: \<open>ErrorString\<close> is the
  result of \<open>errors.New\<close> (or of \<open>fmt.Errorf\<close> without \<open>%w\<close>), \<open>WrapError\<close> the result of
  \<open>fmt.Errorf\<close> with one \<open>%w\<close> (its text and the wrapped error), \<open>StatusErr\<close> the struct of this
  package, and \<open>RPCError\<close> an error that a gRPC call returned, with its code and text. The function
  \<open>status.FromError\<close> of google.golang.org/grpc is a parameter; \<open>FromError_spec\<close> states its
  documented behaviour at the pinned version v1.44.0.
\<close>

named_theorems status_simps \<open>the HTTP status of an error\<close>

datatype rpc_code =
    codes_OK | codes_Canceled | codes_Unknown | codes_InvalidArgument | codes_DeadlineExceeded
  | codes_NotFound | codes_AlreadyExists | codes_PermissionDenied | codes_ResourceExhausted
  | codes_FailedPrecondition | codes_Aborted | codes_OutOfRange | codes_Unimplemented
  | codes_Internal | codes_Unavailable | codes_DataLoss | codes_Unauthenticated
  | codes_Other "32 word"

datatype err =
    ErrorString string
  | WrapError string err
  | StatusErr err int
  | RPCError rpc_code string

fun Error :: "err \<Rightarrow> string" where
  "Error (ErrorString s) = s"
| "Error (WrapError s _) = s"
| "Error (StatusErr e _) = Error e"
| "Error (RPCError _ s) = s"

text \<open>\<open>fmt.Errorf\<close> with \<open>%w\<close> at the end of the format, respectively at its start.\<close>

definition wrapf :: "string \<Rightarrow> err \<Rightarrow> err" where
  "wrapf s e = WrapError (s @ '': '' @ Error e) e"

definition fwrap :: "err \<Rightarrow> string \<Rightarrow> err" where
  "fwrap e s = WrapError (Error e @ '': '' @ s) e"

definition StatusBadRequest :: int where "StatusBadRequest = 400"
definition StatusUnauthorized :: int where "StatusUnauthorized = 401"
definition StatusNotFound :: int where "StatusNotFound = 404"
definition StatusInternalServerError :: int where "StatusInternalServerError = 500"

lemmas http_status_defs =
  StatusBadRequest_def StatusUnauthorized_def StatusNotFound_def StatusInternalServerError_def

definition NewStatusInternalServerError :: "err \<Rightarrow> err" where
  "NewStatusInternalServerError e = StatusErr e StatusInternalServerError"

definition NewBadRequestError :: "err \<Rightarrow> err" where
  "NewBadRequestError e = StatusErr e StatusBadRequest"

definition NewNotFoundError :: "err \<Rightarrow> err" where
  "NewNotFoundError e = StatusErr e StatusNotFound"

definition NewUnauthorizedError :: "err \<Rightarrow> err" where
  "NewUnauthorizedError e = StatusErr e StatusUnauthorized"

definition ErrValidation :: err where
  "ErrValidation = NewBadRequestError (ErrorString ''validation failed'')"

definition ErrBadRequest :: err where
  "ErrBadRequest = NewBadRequestError (ErrorString ''bad request'')"

definition ErrNotFound :: err where
  "ErrNotFound = NewNotFoundError (ErrorString ''not found'')"

definition ErrInternal :: err where
  "ErrInternal = NewStatusInternalServerError (ErrorString ''internal error'')"

text \<open>\<open>errors.Unwrap\<close>; the method of \<open>StatusErr\<close> skips the embedded error itself.\<close>

fun Unwrap :: "err \<Rightarrow> err option" where
  "Unwrap (ErrorString _) = None"
| "Unwrap (WrapError _ e) = Some e"
| "Unwrap (StatusErr e _) = Unwrap e"
| "Unwrap (RPCError _ _) = None"

fun statusCodeFromRPCError :: "rpc_code \<Rightarrow> int" where
  "statusCodeFromRPCError codes_OK = 200"
| "statusCodeFromRPCError codes_Canceled = 408"
| "statusCodeFromRPCError codes_DeadlineExceeded = 408"
| "statusCodeFromRPCError codes_InvalidArgument = 400"
| "statusCodeFromRPCError codes_OutOfRange = 400"
| "statusCodeFromRPCError codes_AlreadyExists = 400"
| "statusCodeFromRPCError codes_NotFound = 404"
| "statusCodeFromRPCError codes_PermissionDenied = 403"
| "statusCodeFromRPCError codes_ResourceExhausted = 403"
| "statusCodeFromRPCError codes_Unauthenticated = 401"
| "statusCodeFromRPCError codes_FailedPrecondition = 412"
| "statusCodeFromRPCError codes_Aborted = 409"
| "statusCodeFromRPCError codes_Unimplemented = 501"
| "statusCodeFromRPCError codes_Unavailable = 503"
| "statusCodeFromRPCError _ = 500"

lemma size_Unwrap: "Unwrap e = Some e' \<Longrightarrow> size e' < size e"
  by (induction e) auto

text \<open>\<open>errors.Is\<close> by comparing along the chain of \<open>Unwrap\<close>.\<close>

function errors_Is :: "err \<Rightarrow> err \<Rightarrow> bool" where
  "errors_Is e target \<longleftrightarrow>
     e = target \<or> (case Unwrap e of None \<Rightarrow> False | Some e' \<Rightarrow> errors_Is e' target)"
  by pat_completeness auto
termination
  by (relation "measure (\<lambda>(e, _). size e)") (auto dest: size_Unwrap)

declare errors_Is.simps [simp del]

lemma errors_Is_refl [simp]: "errors_Is e e"
  by (simp add: errors_Is.simps)

lemma errors_Is_ErrorString [simp]: "errors_Is (ErrorString a) t \<longleftrightarrow> t = ErrorString a"
  by (auto simp: errors_Is.simps)

lemma errors_Is_RPCError [simp]: "errors_Is (RPCError c a) t \<longleftrightarrow> t = RPCError c a"
  by (auto simp: errors_Is.simps)

text \<open>\<open>status.Errorf\<close>, with the text that \<open>Error\<close> prints.\<close>

definition status_Errorf :: "rpc_code \<Rightarrow> string \<Rightarrow> string \<Rightarrow> err" where
  "status_Errorf code name msg = RPCError code (''rpc error: code = '' @ name @ '' desc = '' @ msg)"

function StatusCodeFromError :: "(err \<Rightarrow> rpc_code option) \<Rightarrow> err \<Rightarrow> int" where
  "StatusCodeFromError FromError e =
     (case e of
        StatusErr _ status \<Rightarrow> status
      | _ \<Rightarrow>
          (case FromError e of
             Some code \<Rightarrow> statusCodeFromRPCError code
           | None \<Rightarrow>
               (case Unwrap e of
                  Some e' \<Rightarrow> StatusCodeFromError FromError e'
                | None \<Rightarrow> StatusInternalServerError)))"
  by pat_completeness auto
termination
  by (relation "measure (\<lambda>(_, e). size e)") (auto dest: size_Unwrap)

declare StatusCodeFromError.simps [simp del]

text \<open>
  What grpc v1.44.0 documents of \<open>status.FromError\<close>: it succeeds for an error that is itself a
  status error and fails for any other one; it does not look through wrappers.
\<close>

definition FromError_spec :: "(err \<Rightarrow> rpc_code option) \<Rightarrow> bool" where
  "FromError_spec FromError \<longleftrightarrow>
     (\<forall>c m. FromError (RPCError c m) = Some c) \<and>
     (\<forall>s. FromError (ErrorString s) = None) \<and> (\<forall>m e. FromError (WrapError m e) = None) \<and>
     (\<forall>e n. FromError (StatusErr e n) = None)"

fun direct_FromError :: "err \<Rightarrow> rpc_code option" where
  "direct_FromError (RPCError c _) = Some c"
| "direct_FromError _ = None"

subsection \<open>The status of an error\<close>

lemma direct_FromError_spec: "FromError_spec direct_FromError"
  by (simp add: FromError_spec_def)

lemma status_StatusErr [status_simps]: "StatusCodeFromError fe (StatusErr e n) = n"
  by (simp add: StatusCodeFromError.simps [of fe "StatusErr e n"])

lemma status_RPCError [status_simps]:
  "FromError_spec fe \<Longrightarrow> StatusCodeFromError fe (RPCError c m) = statusCodeFromRPCError c"
  by (simp add: StatusCodeFromError.simps [of fe "RPCError c m"] FromError_spec_def)

lemma status_WrapError [status_simps]:
  "FromError_spec fe \<Longrightarrow> StatusCodeFromError fe (WrapError m e) = StatusCodeFromError fe e"
  by (simp add: StatusCodeFromError.simps [of fe "WrapError m e"] FromError_spec_def)

lemma status_ErrorString [status_simps]:
  "FromError_spec fe \<Longrightarrow> StatusCodeFromError fe (ErrorString m) = StatusInternalServerError"
  by (simp add: StatusCodeFromError.simps [of fe "ErrorString m"] FromError_spec_def)

lemma status_wrapf [status_simps]:
  "FromError_spec fe \<Longrightarrow> StatusCodeFromError fe (wrapf m e) = StatusCodeFromError fe e"
  by (simp add: wrapf_def status_simps)

lemma status_fwrap [status_simps]:
  "FromError_spec fe \<Longrightarrow> StatusCodeFromError fe (fwrap e m) = StatusCodeFromError fe e"
  by (simp add: fwrap_def status_simps)

lemmas new_error_defs =
  NewStatusInternalServerError_def NewBadRequestError_def NewNotFoundError_def
  NewUnauthorizedError_def ErrValidation_def ErrBadRequest_def ErrNotFound_def ErrInternal_def

lemma status_new_errors [status_simps]:
  "StatusCodeFromError fe (NewBadRequestError e) = 400"
  "StatusCodeFromError fe (NewNotFoundError e) = 404"
  "StatusCodeFromError fe (NewUnauthorizedError e) = 401"
  "StatusCodeFromError fe (NewStatusInternalServerError e) = 500"
  "StatusCodeFromError fe ErrValidation = 400"
  "StatusCodeFromError fe ErrBadRequest = 400"
  "StatusCodeFromError fe ErrNotFound = 404"
  "StatusCodeFromError fe ErrInternal = 500"
  by (simp_all add: new_error_defs http_status_defs status_simps)

lemma statusCodeFromRPCError_cases:
  "statusCodeFromRPCError c \<in> {200, 400, 401, 403, 404, 408, 409, 412, 500, 501, 503}"
  by (cases c) simp_all

end
