(* ===== verification/Trillian.thy ===== *)
theory Trillian
  imports Errors
begin

text \<open>
  The messages of the Trillian log service that the program exchanges, and the client interface the
  commands call. The service is not part of the repository: a client is a record of functions over an
  arbitrary service state, and every theorem holds for all of them. A message field held through a
  pointer is an \<open>option\<close>; \<open>SignedLogRoot\<close> has the one field \<open>LogRoot\<close> that is used. Timestamps are
  nanoseconds since the epoch.
\<close>

datatype 'a outcome = Ok 'a | Fail err | Panic

record LogRootV1 =
  TreeSize :: uint64
  RootHash :: bytes
  TimestampNanos :: uint64
  Revision :: uint64
  Metadata :: bytes

record LogLeaf =
  MerkleLeafHash :: bytes
  LeafValue :: bytes
  ll_ExtraData :: bytes
  LeafIndex :: int64
  LeafIdentityHash :: bytes
  QueueTimestamp :: "int64 option"
  IntegrateTimestamp :: "int64 option"

definition emptyLogLeaf :: LogLeaf where
  "emptyLogLeaf = \<lparr>MerkleLeafHash = [], LeafValue = [], ll_ExtraData = [], LeafIndex = 0,
     LeafIdentityHash = [], QueueTimestamp = None, IntegrateTimestamp = None\<rparr>"

record QueuedLogLeaf =
  ql_Leaf :: "LogLeaf option"
  ql_Status :: "rpc_code option"

record Proof =
  prf_LeafIndex :: int64
  Hashes :: "bytes list"

record QueueLeafRequest =
  ql_LogId :: int64
  qlr_Leaf :: LogLeaf

record GetLeavesByRangeRequest =
  lbr_LogId :: int64
  StartIndex :: int64
  Count :: int64

record GetLeavesByRangeResponse =
  Leaves :: "LogLeaf list"
  lbr_SignedLogRoot :: "bytes option"

record teap_request =
  teap_LogId :: int64
  teap_LeafIndex :: int64
  teap_TreeSize :: int64

record teap_response =
  teap_Proof :: "Proof option"
  teap_Leaf :: "LogLeaf option"
  teap_SignedLogRoot :: "bytes option"

record GetInclusionProofByHashRequest =
  iph_LogId :: int64
  iph_LeafHash :: bytes
  iph_TreeSize :: int64
  iph_OrderBySequence :: bool

record GetInclusionProofByHashResponse =
  iph_Proof :: "Proof list"
  iph_SignedLogRoot :: "bytes option"

record GetConsistencyProofRequest =
  cp_LogId :: int64
  cp_FirstTreeSize :: int64
  cp_SecondTreeSize :: int64

record GetConsistencyProofResponse =
  cp_Proof :: "Proof option"
  cp_SignedLogRoot :: "bytes option"

record GetLatestSignedLogRootResponse =
  lr_SignedLogRoot :: "bytes option"

type_synonym ('req, 'resp, 's) rpc = "'req \<Rightarrow> 's \<Rightarrow> (err + 'resp) \<times> 's"

record 's TrillianLogClient =
  rpc_QueueLeaf :: "(QueueLeafRequest, QueuedLogLeaf option, 's) rpc"
  rpc_GetLatestSignedLogRoot :: "(int64, GetLatestSignedLogRootResponse, 's) rpc"
  rpc_GetLeavesByRange :: "(GetLeavesByRangeRequest, GetLeavesByRangeResponse, 's) rpc"
  rpc_GetEntryAndProof :: "(teap_request, teap_response, 's) rpc"
  rpc_GetInclusionProofByHash :: "(GetInclusionProofByHashRequest, GetInclusionProofByHashResponse, 's) rpc"
  rpc_GetConsistencyProof :: "(GetConsistencyProofRequest, GetConsistencyProofResponse, 's) rpc"

text \<open>The nil-safe getters \<open>GetSignedLogRoot().GetLogRoot()\<close> and \<open>Proof.GetHashes()\<close>.\<close>

definition GetLogRoot :: "bytes option \<Rightarrow> bytes" where
  "GetLogRoot r = (case r of None \<Rightarrow> [] | Some b \<Rightarrow> b)"

definition GetHashes :: "Proof option \<Rightarrow> bytes list" where
  "GetHashes p = (case p of None \<Rightarrow> [] | Some x \<Rightarrow> Hashes x)"

text \<open>
  The tree message of the administration interface, and its enumerations with the names that
  \<open>String\<close> gives them.
\<close>

datatype TreeState = TreeState_ACTIVE | TreeState_FROZEN | TreeState_DRAINING | TreeState_Other string

datatype TreeType = TreeType_LOG | TreeType_PREORDERED_LOG | TreeType_Other string

fun TreeState_String :: "TreeState \<Rightarrow> string" where
  "TreeState_String TreeState_ACTIVE = ''ACTIVE''"
| "TreeState_String TreeState_FROZEN = ''FROZEN''"
| "TreeState_String TreeState_DRAINING = ''DRAINING''"
| "TreeState_String (TreeState_Other s) = s"

fun TreeType_String :: "TreeType \<Rightarrow> string" where
  "TreeType_String TreeType_LOG = ''LOG''"
| "TreeType_String TreeType_PREORDERED_LOG = ''PREORDERED_LOG''"
| "TreeType_String (TreeType_Other s) = s"

record Tree =
  TreeId :: int64
  TreeState :: TreeState
  TreeType :: TreeType
  DisplayName :: string
  Description :: string
  StorageSettings :: "bytes option"
  MaxRootDuration :: "int64 option"
  CreateTime :: "int64 option"
  UpdateTime :: "int64 option"
  Deleted :: bool
  DeleteTime :: "int64 option"

end
