(* ===== verification/Models.thy ===== *)
theory Models
  imports Errors
begin

text \<open>
  The request and response types of \<open>pkg/controller/command/models.go\<close> and their validation. A
  request that the handlers receive through a pointer is an \<open>option\<close>: \<open>None\<close> is the nil pointer
  that decoding the JSON text \<open>null\<close> gives. A Go \<open>error\<close> result is an \<open>err option\<close> with \<open>None\<close>
  for nil. \<open>Extensions\<close> is a byte slice that may be nil, hence an \<open>option\<close> too.
\<close>

type_synonym Version = "8 word"

definition V1 :: Version where "V1 = 0"

definition ECDSASignature :: string where "ECDSASignature = ''ECDSA''"
definition EDDSASignature :: string where "EDDSASignature = ''EDDSA''"

definition VCTimestampSignatureType :: uint64 where "VCTimestampSignatureType = 100"
definition TreeHeadSignatureType :: uint64 where "TreeHeadSignatureType = 101"
definition TimestampedEntryLeafType :: uint64 where "TimestampedEntryLeafType = 100"
definition VCLogEntryType :: uint64 where "VCLogEntryType = 100"

subsection \<open>Requests and their validation\<close>

record GetEntryAndProofRequest =
  eap_Alias :: string
  eap_LeafIndex :: int64
  eap_TreeSize :: int64

definition GetEntryAndProofRequest_Validate :: "GetEntryAndProofRequest option \<Rightarrow> err option" where
  "GetEntryAndProofRequest_Validate req =
     (case req of
        None \<Rightarrow> Some (fwrap ErrValidation ''validate on nil value'')
      | Some r \<Rightarrow>
          if eap_TreeSize r <s 1 then
            Some (fwrap ErrValidation ''tree_size value must be greater than zero'')
          else if eap_LeafIndex r <s 0 then
            Some (fwrap ErrValidation ''leaf_index must be greater than or equal to zero'')
          else if eap_TreeSize r \<le>s eap_LeafIndex r then
            Some (fwrap ErrValidation ''leaf_index must be less than tree_size'')
          else None)"

record GetEntryAndProofResponse =
  eapr_LeafInput :: bytes
  eapr_ExtraData :: bytes
  eapr_AuditPath :: "bytes list"

record GetProofByHashRequest =
  pbh_Alias :: string
  pbh_Hash :: string
  pbh_TreeSize :: int64

definition GetProofByHashRequest_Validate :: "GetProofByHashRequest option \<Rightarrow> err option" where
  "GetProofByHashRequest_Validate req =
     (case req of
        None \<Rightarrow> Some (fwrap ErrValidation ''validate on nil value'')
      | Some r \<Rightarrow>
          if pbh_TreeSize r <s 1 then
            Some (fwrap ErrValidation ''tree_size value must be greater than zero'')
          else None)"

record GetProofByHashResponse =
  pbhr_LeafIndex :: int64
  pbhr_AuditPath :: "bytes list"

record GetEntriesRequest =
  ge_Alias :: string
  ge_Start :: int64
  ge_End :: int64

record LeafEntry =
  LeafInput :: bytes
  ExtraData :: bytes

record GetEntriesResponse =
  Entries :: "LeafEntry list"

definition GetEntriesRequest_Validate :: "GetEntriesRequest option \<Rightarrow> err option" where
  "GetEntriesRequest_Validate req =
     (case req of
        None \<Rightarrow> Some (fwrap ErrValidation ''validate on nil value'')
      | Some r \<Rightarrow>
          if ge_Start r <s 0 \<or> ge_End r <s 0 then
            Some (fwrap ErrValidation (''start '' @ FormatInt (ge_Start r) @ '' and end '' @
              FormatInt (ge_End r) @ '' values must be >= 0''))
          else if ge_End r <s ge_Start r then
            Some (fwrap ErrValidation (''start '' @ FormatInt (ge_Start r) @ '' and end '' @
              FormatInt (ge_End r) @ '' values is not a valid range''))
          else None)"

record GetSTHConsistencyRequest =
  sc_Alias :: string
  sc_FirstTreeSize :: int64
  sc_SecondTreeSize :: int64

definition GetSTHConsistencyRequest_Validate :: "GetSTHConsistencyRequest option \<Rightarrow> err option" where
  "GetSTHConsistencyRequest_Validate req =
     (case req of
        None \<Rightarrow> Some (fwrap ErrValidation ''validate on nil value'')
      | Some r \<Rightarrow>
          if sc_FirstTreeSize r <s 0 \<or> sc_SecondTreeSize r <s 0 then
            Some (fwrap ErrValidation (''first_tree_size '' @ FormatInt (sc_FirstTreeSize r) @
              '' and second_tree_size '' @ FormatInt (sc_SecondTreeSize r) @ '' values must be >= 0''))
          else if sc_SecondTreeSize r <s sc_FirstTreeSize r then
            Some (fwrap ErrValidation (''first_tree_size '' @ FormatInt (sc_FirstTreeSize r) @
              '' and second_tree_size '' @ FormatInt (sc_SecondTreeSize r) @
              '' values is not a valid range''))
          else None)"

record GetSTHConsistencyResponse =
  Consistency :: "bytes list"

record GetSTHResponse =
  sth_TreeSize :: uint64
  sth_Timestamp :: uint64
  sth_SHA256RootHash :: bytes
  sth_TreeHeadSignature :: bytes

subsection \<open>Signed structures\<close>

record TreeHeadSignature =
  ths_Version :: Version
  ths_SignatureType :: uint64
  ths_Timestamp :: uint64
  ths_TreeSize :: uint64
  ths_SHA256RootHash :: bytes

record SignatureAndHashAlgorithm =
  alg_Signature :: string
  alg_Type :: string

record DigitallySigned =
  ds_Algorithm :: SignatureAndHashAlgorithm
  ds_Signature :: bytes

record TimestampedEntry =
  te_Timestamp :: uint64
  te_EntryType :: uint64
  te_VCEntry :: bytes
  te_Extensions :: "bytes option"

text \<open>The entry is held through a pointer, which is nil when the decoded text has none.\<close>

record MerkleTreeLeaf =
  mtl_Version :: Version
  mtl_LeafType :: uint64
  mtl_TimestampedEntry :: "TimestampedEntry option"

record VCTimestampSignature =
  vts_SVCTVersion :: Version
  vts_SignatureType :: uint64
  vts_Timestamp :: uint64
  vts_EntryType :: uint64
  vts_VCEntry :: bytes
  vts_Extensions :: "bytes option"

record AddVCResponse =
  avr_SVCTVersion :: Version
  avr_ID :: bytes
  avr_Timestamp :: uint64
  avr_Extensions :: string
  avr_Signature :: bytes

record AddVCRequest =
  av_Alias :: string
  av_VCEntry :: bytes

record WebFingerLink =
  wfl_Rel :: string
  wfl_Type :: string
  wfl_Href :: string

text \<open>The two properties that \<open>Webfinger\<close> puts into the \<open>map[string]interface{}\<close>.\<close>

datatype wf_value = wf_bytes bytes | wf_string string

record WebFingerResponse =
  wf_Subject :: string
  wf_Properties :: "string \<rightharpoonup> wf_value"
  wf_Links :: "WebFingerLink list"

subsection \<open>What validation accepts\<close>

lemma GetEntryAndProofRequest_Validate_None:
  "GetEntryAndProofRequest_Validate req = None \<longleftrightarrow>
     (\<exists>r. req = Some r \<and> 0 \<le> sint (eap_LeafIndex r) \<and> sint (eap_LeafIndex r) < sint (eap_TreeSize r))"
  by (cases req) (auto simp: GetEntryAndProofRequest_Validate_def int64_simps)

lemma GetProofByHashRequest_Validate_None:
  "GetProofByHashRequest_Validate req = None \<longleftrightarrow> (\<exists>r. req = Some r \<and> 1 \<le> sint (pbh_TreeSize r))"
  by (cases req) (auto simp: GetProofByHashRequest_Validate_def int64_simps)

lemma GetEntriesRequest_Validate_None:
  "GetEntriesRequest_Validate req = None \<longleftrightarrow>
     (\<exists>r. req = Some r \<and> 0 \<le> sint (ge_Start r) \<and> sint (ge_Start r) \<le> sint (ge_End r))"
  by (cases req) (auto simp: GetEntriesRequest_Validate_def int64_simps)

lemma GetSTHConsistencyRequest_Validate_None:
  "GetSTHConsistencyRequest_Validate req = None \<longleftrightarrow>
     (\<exists>r. req = Some r \<and> 0 \<le> sint (sc_FirstTreeSize r) \<and>
        sint (sc_FirstTreeSize r) \<le> sint (sc_SecondTreeSize r))"
  by (cases req) (auto simp: GetSTHConsistencyRequest_Validate_def int64_simps)

lemmas Validate_None =
  GetEntryAndProofRequest_Validate_None GetProofByHashRequest_Validate_None
  GetEntriesRequest_Validate_None GetSTHConsistencyRequest_Validate_None

text \<open>Every refusal is the validation error of the package, an HTTP 400.\<close>

lemma Validate_status:
  assumes "FromError_spec fe"
  shows "GetEntryAndProofRequest_Validate r1 = Some e \<Longrightarrow> StatusCodeFromError fe e = 400"
    and "GetProofByHashRequest_Validate r2 = Some e \<Longrightarrow> StatusCodeFromError fe e = 400"
    and "GetEntriesRequest_Validate r3 = Some e \<Longrightarrow> StatusCodeFromError fe e = 400"
    and "GetSTHConsistencyRequest_Validate r4 = Some e \<Longrightarrow> StatusCodeFromError fe e = 400"
  using assms
  by (auto simp: GetEntryAndProofRequest_Validate_def GetProofByHashRequest_Validate_def
      GetEntriesRequest_Validate_def GetSTHConsistencyRequest_Validate_def status_simps
      split: option.splits if_splits)

end
