(* ===== verification/Utf8.thy ===== *)
theory Utf8
  imports Prelude
begin

text \<open>
  Runes and their encodings, as Go's packages \<open>unicode/utf8\<close> and \<open>unicode/utf16\<close> and its string
  conversions define them. A rune is a natural number; an ill-formed byte decodes to the
  replacement rune U+FFFD with width one. The round trip of encoding and decoding holds for every
  Unicode scalar value.
\<close>

definition RuneError :: nat where "RuneError = 0xFFFD"

definition IsSurrogate :: "nat \<Rightarrow> bool" where
  "IsSurrogate r \<longleftrightarrow> 0xD800 \<le> r \<and> r < 0xE000"

definition valid_rune :: "nat \<Rightarrow> bool" where
  "valid_rune r \<longleftrightarrow> r \<le> 0x10FFFF \<and> \<not> IsSurrogate r"

definition byte_in :: "nat \<Rightarrow> nat \<Rightarrow> char \<Rightarrow> bool" where
  "byte_in lo hi c \<longleftrightarrow> lo \<le> of_char c \<and> of_char c \<le> hi"

text \<open>\<open>utf8.EncodeRune\<close>.\<close>

definition EncodeRune :: "nat \<Rightarrow> bytes" where
  "EncodeRune rn =
     (let r = (if valid_rune rn then rn else RuneError)
      in if r < 0x80 then [char_of r]
         else if r < 0x800 then [char_of (0xC0 + r div 64), char_of (0x80 + r mod 64)]
         else if r < 0x10000 then
           [char_of (0xE0 + r div 4096), char_of (0x80 + r div 64 mod 64), char_of (0x80 + r mod 64)]
         else
           [char_of (0xF0 + r div 262144), char_of (0x80 + r div 4096 mod 64),
            char_of (0x80 + r div 64 mod 64), char_of (0x80 + r mod 64)])"

text \<open>
  \<open>utf8.DecodeRune\<close>: the rune and its width. The accepted range of the second byte depends on the
  first one.
\<close>

definition second_range :: "nat \<Rightarrow> nat \<times> nat" where
  "second_range b =
     (if b = 0xE0 then (0xA0, 0xBF) else if b = 0xED then (0x80, 0x9F)
      else if b = 0xF0 then (0x90, 0xBF) else if b = 0xF4 then (0x80, 0x8F) else (0x80, 0xBF))"

definition DecodeRune :: "bytes \<Rightarrow> nat \<times> nat" where
  "DecodeRune s =
     (case s of
        [] \<Rightarrow> (RuneError, 0)
      | c0 # s1 \<Rightarrow>
          (let b0 = of_char c0; (lo, hi) = second_range b0
           in if b0 < 0x80 then (b0, 1)
              else if b0 < 0xC2 \<or> 0xF4 < b0 then (RuneError, 1)
              else case s1 of
                [] \<Rightarrow> (RuneError, 1)
              | c1 # s2 \<Rightarrow>
                  if \<not> byte_in lo hi c1 then (RuneError, 1)
                  else if b0 < 0xE0 then ((b0 - 0xC0) * 64 + (of_char c1 - 0x80), 2)
                  else case s2 of
                    [] \<Rightarrow> (RuneError, 1)
                  | c2 # s3 \<Rightarrow>
                      if \<not> byte_in 0x80 0xBF c2 then (RuneError, 1)
                      else if b0 < 0xF0 then
                        ((b0 - 0xE0) * 4096 + (of_char c1 - 0x80) * 64 + (of_char c2 - 0x80), 3)
                      else case s3 of
                        [] \<Rightarrow> (RuneError, 1)
                      | c3 # _ \<Rightarrow>
                          if \<not> byte_in 0x80 0xBF c3 then (RuneError, 1)
                          else ((b0 - 0xF0) * 262144 + (of_char c1 - 0x80) * 4096 +
                            (of_char c2 - 0x80) * 64 + (of_char c3 - 0x80), 4)))"

text \<open>The conversion \<open>[]rune (s)\<close> of a string.\<close>

function runes :: "bytes \<Rightarrow> nat list" where
  "runes s = (if s = [] then [] else
     (let (r, n) = DecodeRune s in r # runes (drop (max 1 n) s)))"
  by pat_completeness auto
termination
  by (relation "measure length") (auto simp: max_def)

declare runes.simps [simp del]

text \<open>\<open>utf16.Encode\<close> and \<open>utf16.DecodeRune\<close>.\<close>

definition utf16_unit :: "nat \<Rightarrow> nat list" where
  "utf16_unit r =
     (if r < 0x10000 \<and> \<not> IsSurrogate r then [r]
      else if 0x10000 \<le> r \<and> r \<le> 0x10FFFF then
        [0xD800 + (r - 0x10000) div 1024, 0xDC00 + (r - 0x10000) mod 1024]
      else [RuneError])"

definition utf16_Encode :: "nat list \<Rightarrow> nat list" where
  "utf16_Encode rs = concat (map utf16_unit rs)"

definition utf16_DecodeRune :: "nat \<Rightarrow> nat \<Rightarrow> nat" where
  "utf16_DecodeRune r1 r2 =
     (if 0xD800 \<le> r1 \<and> r1 < 0xDC00 \<and> 0xDC00 \<le> r2 \<and> r2 < 0xE000
      then (r1 - 0xD800) * 1024 + (r2 - 0xDC00) + 0x10000 else RuneError)"

subsection \<open>Encoding and decoding\<close>

lemma DecodeRune_width: "s \<noteq> [] \<Longrightarrow> 1 \<le> snd (DecodeRune s) \<and> snd (DecodeRune s) \<le> length s"
  by (auto simp: DecodeRune_def Let_def split: list.splits prod.splits)

lemma EncodeRune_nonempty [simp]: "EncodeRune r \<noteq> []"
  by (simp add: EncodeRune_def Let_def)

lemma split64_2: "\<exists>a b. (r::nat) = a * 64 + b \<and> b < 64"
  by (intro exI [of _ "r div 64"] exI [of _ "r mod 64"]) simp

lemma digits64_1: "(b::nat) < 64 \<Longrightarrow> (a * 64 + b) div 64 = a" "b < 64 \<Longrightarrow> (a * 64 + b) mod 64 = b"
  by simp_all

lemma div_64_powers: "(n::nat) div 4096 = n div 64 div 64" "n div 262144 = n div 64 div 64 div 64"
  by (simp_all flip: div_mult2_eq)

lemma of_char_low [simp]: "n < 256 \<Longrightarrow> of_char (char_of n :: char) = (n :: nat)"
  by simp

lemma DecodeRune_2:
  assumes "2 \<le> a" "a < 32" "b < 64"
  shows "DecodeRune (char_of (0xC0 + a) # char_of (0x80 + b) # s) = (a * 64 + b, 2)"
  using assms by (simp add: DecodeRune_def second_range_def byte_in_def Let_def)

lemma DecodeRune_3:
  assumes "a < 16" "b < 64" "c < 64" "a = 0 \<Longrightarrow> 32 \<le> b" "a = 13 \<Longrightarrow> b < 32"
  shows "DecodeRune (char_of (0xE0 + a) # char_of (0x80 + b) # char_of (0x80 + c) # s) =
    ((a * 64 + b) * 64 + c, 3)"
  using assms by (auto simp: DecodeRune_def second_range_def byte_in_def Let_def)

lemma DecodeRune_4:
  assumes "a < 5" "b < 64" "c < 64" "d < 64" "a = 0 \<Longrightarrow> 16 \<le> b" "a = 4 \<Longrightarrow> b < 16"
  shows "DecodeRune (char_of (0xF0 + a) # char_of (0x80 + b) # char_of (0x80 + c) #
      char_of (0x80 + d) # s) = (((a * 64 + b) * 64 + c) * 64 + d, 4)"
  using assms by (auto simp: DecodeRune_def second_range_def byte_in_def Let_def)

lemma DecodeRune_EncodeRune:
  assumes "valid_rune r"
  shows "DecodeRune (EncodeRune r @ s) = (r, length (EncodeRune r))"
proof -
  consider (one) "r < 0x80" | (two) "0x80 \<le> r" "r < 0x800"
    | (three) "0x800 \<le> r" "r < 0x10000" | (four) "0x10000 \<le> r" "r \<le> 0x10FFFF"
    using assms unfolding valid_rune_def by linarith
  then show ?thesis
  proof cases
    case one
    with assms show ?thesis
      by (simp add: EncodeRune_def DecodeRune_def second_range_def)
  next
    case two
    obtain a b where r: "r = a * 64 + b" "b < 64" using split64_2 by blast
    with two have "2 \<le> a" "a < 32" by auto
    moreover have "EncodeRune r = [char_of (0xC0 + a), char_of (0x80 + b)]"
      using two assms by (simp add: EncodeRune_def Let_def r digits64_1)
    ultimately show ?thesis using r DecodeRune_2 [of a b s] by simp
  next
    case three
    obtain h c where h: "r = h * 64 + c" "c < 64" using split64_2 by blast
    obtain a b where "h = a * 64 + b" "b < 64" using split64_2 by blast
    with h have r: "r = (a * 64 + b) * 64 + c" "b < 64" "c < 64" by auto
    with three have "a < 16" "a = 0 \<Longrightarrow> 32 \<le> b" by auto
    moreover have "a = 13 \<Longrightarrow> b < 32"
      using assms r unfolding valid_rune_def IsSurrogate_def by auto
    moreover have "r div 64 = a * 64 + b" "r mod 64 = c"
      using digits64_1 [of c "a * 64 + b"] r by simp_all
    then have "EncodeRune r = [char_of (0xE0 + a), char_of (0x80 + b), char_of (0x80 + c)]"
      using three assms r(2) by (simp add: EncodeRune_def Let_def div_64_powers digits64_1)
    ultimately show ?thesis using r DecodeRune_3 [of a b c s] by simp
  next
    case four
    obtain k d where k: "r = k * 64 + d" "d < 64" using split64_2 by blast
    obtain h c where h: "k = h * 64 + c" "c < 64" using split64_2 by blast
    obtain a b where "h = a * 64 + b" "b < 64" using split64_2 by blast
    with h k have r: "r = ((a * 64 + b) * 64 + c) * 64 + d" "b < 64" "c < 64" "d < 64" by auto
    with four have a: "a < 5" "a = 0 \<Longrightarrow> 16 \<le> b" "a = 4 \<Longrightarrow> b < 16" by auto
    have "r div 64 = (a * 64 + b) * 64 + c" "r mod 64 = d"
      using digits64_1 [of d "(a * 64 + b) * 64 + c"] r by simp_all
    moreover from this have "r div 64 div 64 = a * 64 + b" "r div 64 mod 64 = c"
      using digits64_1 [of c "a * 64 + b"] r by simp_all
    moreover from this have "r div 64 div 64 div 64 = a" "r div 64 div 64 mod 64 = b"
      using digits64_1 [of b a] r by simp_all
    ultimately have "EncodeRune r =
        [char_of (0xF0 + a), char_of (0x80 + b), char_of (0x80 + c), char_of (0x80 + d)]"
      using four assms by (simp add: EncodeRune_def Let_def div_64_powers)
    then show ?thesis using r a DecodeRune_4 [of a b c d s] by simp
  qed
qed

lemma runes_EncodeRune: "valid_rune r \<Longrightarrow> runes (EncodeRune r @ s) = r # runes s"
  by (subst runes.simps) (simp add: DecodeRune_EncodeRune max_def Suc_le_eq)

lemma runes_encode: "list_all valid_rune rs \<Longrightarrow> runes (concat (map EncodeRune rs)) = rs"
  by (induction rs) (simp_all add: runes_EncodeRune runes.simps [of "[]"])

lemma utf16_DecodeRune_units:
  assumes "0x10000 \<le> r" and "r \<le> 0x10FFFF" and "utf16_unit r = [hi, lo]"
  shows "utf16_DecodeRune hi lo = r"
proof -
  have "(r - 0x10000) div 1024 < 1024" using assms(1,2) by auto
  moreover have "(r - 0x10000) div 1024 * 1024 + (r - 0x10000) mod 1024 = r - 0x10000" by simp
  ultimately show ?thesis
    using assms by (auto simp: utf16_unit_def utf16_DecodeRune_def IsSurrogate_def)
qed

end
