(* ===== verification/Canonicalizer.thy ===== *)
theory Canonicalizer
  imports Utf8 Errors
begin

unbundle bit_operations_syntax

text \<open>
  Package \<open>internal/pkg/jsoncanonicalizer\<close> (and \<open>pkg/canonicalizer\<close> on top of it): the
  transformation of a JSON text into its RFC 8785 form, which is what the log hashes and signs. The
  closures of \<open>Transform\<close> share the variables \<open>index\<close> and \<open>globalError\<close>; here they are functions on
  the state \<open>pst\<close> with these two fields, over the fixed input \<open>d\<close>. The mutually recursive closures
  \<open>parseElement\<close>, \<open>parseArray\<close> and \<open>parseObject\<close> take fuel; \<open>Transform\<close> supplies
  \<open>2 * length d + 5\<close> units, which is shown to be enough for every input. The decimal/binary
  floating-point conversions \<open>strconv.ParseFloat\<close> and \<open>strconv.FormatFloat\<close> are the fields of the
  parameter \<open>strconv_float\<close>; a \<open>float64\<close> is its 64-bit pattern.
\<close>

record strconv_float =
  ParseFloat :: "string \<Rightarrow> uint64 \<times> err option"
  FormatFloat :: "uint64 \<Rightarrow> char \<Rightarrow> int \<Rightarrow> string"

subsection \<open>Numbers: \<open>es6numfmt.go\<close>\<close>

definition invalidPattern :: uint64 where "invalidPattern = 0x7ff0000000000000"
definition signBit :: uint64 where "signBit = 0x8000000000000000"

fun FormatHex :: "nat \<Rightarrow> string" where
  "FormatHex n = (let c = (\<lambda>k. if k < 10 then char_of (48 + k) else char_of (87 + k))
     in if n < 16 then [c n] else FormatHex (n div 16) @ [c (n mod 16)])"

declare FormatHex.simps [simp del]

fun IndexByte :: "string \<Rightarrow> char \<Rightarrow> int" where
  "IndexByte [] c = -1"
| "IndexByte (x # xs) c =
     (if x = c then 0 else let i = IndexByte xs c in if i < 0 then -1 else i + 1)"

definition byte_at :: "string \<Rightarrow> nat \<Rightarrow> char" where
  "byte_at s i = (if i < length s then s ! i else CHR 0x00)"

text \<open>
  For nonnegative doubles the order of the values is the order of the bit patterns; the two bounds
  are the patterns of 1e+21 and 1e-6. The scan over trailing zeros stops at the latest before the
  first byte.
\<close>

fun strip_zeros :: "string \<Rightarrow> nat \<Rightarrow> nat" where
  "strip_zeros s 0 = 0"
| "strip_zeros s (Suc i) = (if byte_at s i = CHR ''0'' then strip_zeros s i else Suc i)"

definition NumberToJSON :: "strconv_float \<Rightarrow> uint64 \<Rightarrow> string \<times> err option" where
  "NumberToJSON F ieee =
     (if ieee AND invalidPattern = invalidPattern then
        (''null'', Some (ErrorString (''Invalid JSON number: '' @ FormatHex (unat ieee))))
      else if ieee AND NOT signBit = 0 then (''0'', None)
      else
        (let neg = (ieee AND signBit \<noteq> 0);
             f = (if neg then ieee AND NOT signBit else ieee);
             sign = (if neg then ''-'' else []);
             format = (if f < 0x444B1AE4D6E2EF50 \<and> 0x3EB0C6F7A0B5ED8D \<le> f then CHR ''f'' else CHR ''e'');
             es6 = FormatFloat F f format (-1);
             exponent = IndexByte es6 CHR ''e''
         in if 0 < exponent then
              (let gform = FormatFloat F f CHR ''g'' 17;
                   es6' = (if length gform = length es6 then gform else es6);
                   k = nat exponent
               in (sign @ (if byte_at es6' (k + 2) = CHR ''0''
                           then take (k + 2) es6' @ drop (k + 3) es6' else es6'), None))
            else if IndexByte es6 CHR ''.'' < 0 \<and> 12 \<le> length es6 then
              (let i = strip_zeros es6 (length es6)
               in if i \<noteq> length es6 then
                    (let fix = FormatFloat F f CHR ''f'' 0
                     in (sign @ (if of_char (byte_at fix i) \<ge> (53 :: nat)
                                 then take (i - 1) fix @
                                      EncodeRune (of_char (byte_at fix (i - 1)) + 1) @ drop i es6
                                 else es6), None))
                  else (sign @ es6, None))
            else (sign @ es6, None)))"

subsection \<open>Scanning\<close>

record pst =
  idx :: nat
  gerr :: "err option"

definition checkError :: "err option \<Rightarrow> pst \<Rightarrow> pst" where
  "checkError e s = (if gerr s = None then s\<lparr>gerr := e\<rparr> else s)"

definition setError :: "string \<Rightarrow> pst \<Rightarrow> pst" where
  "setError msg s = checkError (Some (ErrorString msg)) s"

definition isWhiteSpace :: "char \<Rightarrow> bool" where
  "isWhiteSpace c \<longleftrightarrow> c = CHR 0x20 \<or> c = CHR 0x0A \<or> c = CHR 0x0D \<or> c = CHR 0x09"

definition nextChar :: "bytes \<Rightarrow> pst \<Rightarrow> char \<times> pst" where
  "nextChar d s =
     (if idx s < length d then
        (let c = d ! idx s;
             s1 = (if (0x7f :: nat) < of_char c then setError ''Unexpected non-ASCII character'' s else s)
         in (c, s1\<lparr>idx := idx s + 1\<rparr>))
      else (CHR 0x22, setError ''Unexpected EOF reached'' s))"

function scan :: "bytes \<Rightarrow> pst \<Rightarrow> char \<times> pst" where
  "scan d s = (let (c, s1) = nextChar d s in if isWhiteSpace c then scan d s1 else (c, s1))"
  by pat_completeness auto
termination
  by (relation "measure (\<lambda>(d, s). length d - idx s)")
    (auto simp: nextChar_def isWhiteSpace_def Let_def split: if_splits)

declare scan.simps [simp del]

definition scanFor :: "bytes \<Rightarrow> char \<Rightarrow> pst \<Rightarrow> pst" where
  "scanFor d expected s =
     (let (c, s1) = scan d s
      in if c \<noteq> expected then
           setError (''Expected '' @ [CHR 0x27] @ [expected] @ [CHR 0x27] @ '' but got '' @ [CHR 0x27] @
             EncodeRune (of_char c) @ [CHR 0x27]) s1
         else s1)"

definition hex_val :: "char \<Rightarrow> nat option" where
  "hex_val c =
     (let n = of_char c
      in if 48 \<le> n \<and> n \<le> 57 then Some (n - 48)
         else if 97 \<le> n \<and> n \<le> 102 then Some (n - 87)
         else if 65 \<le> n \<and> n \<le> 70 then Some (n - 55) else None)"

fun parse_hex :: "nat \<Rightarrow> string \<Rightarrow> nat option" where
  "parse_hex n [] = Some n"
| "parse_hex n (c # cs) = (case hex_val c of None \<Rightarrow> None | Some d \<Rightarrow> parse_hex (n * 16 + d) cs)"

definition getUEscape :: "bytes \<Rightarrow> pst \<Rightarrow> nat \<times> pst" where
  "getUEscape d s =
     (let s4 = snd (nextChar d (snd (nextChar d (snd (nextChar d (snd (nextChar d s)))))));
          text = take (idx s4 - idx s) (drop (idx s) d)
      in if gerr s4 \<noteq> None then (0, s4)
         else case parse_hex 0 text of
                Some u16 \<Rightarrow> (u16, s4)
              | None \<Rightarrow> (0, setError (''strconv.ParseUint: parsing '' @ [CHR 0x22] @ text @ [CHR 0x22] @
                  '': invalid syntax'') s4))"

definition testNextNonWhiteSpaceChar :: "bytes \<Rightarrow> pst \<Rightarrow> char \<times> pst" where
  "testNextNonWhiteSpaceChar d s = (let (c, s1) = scan d s in (c, s1\<lparr>idx := idx s\<rparr>))"

subsection \<open>Strings\<close>

definition asciiEscapes :: "char list" where
  "asciiEscapes = [CHR 0x5C, CHR 0x22, CHR ''b'', CHR ''f'', CHR ''n'', CHR ''r'', CHR ''t'']"

definition binaryEscapes :: "char list" where
  "binaryEscapes = [CHR 0x5C, CHR 0x22, CHR 0x08, CHR 0x0C, CHR 0x0A, CHR 0x0D, CHR 0x09]"

definition hex4 :: "nat \<Rightarrow> string" where
  "hex4 n = (let h = FormatHex n in replicate (4 - length h) CHR ''0'' @ h)"

definition decorateByte :: "char \<Rightarrow> string" where
  "decorateByte c =
     (case map_of (zip binaryEscapes asciiEscapes) c of
        Some a \<Rightarrow> [CHR 0x5C, a]
      | None \<Rightarrow> if of_char c < (0x20 :: nat) then CHR 0x5C # CHR ''u'' # hex4 (of_char c) else [c])"

definition decorateString :: "bytes \<Rightarrow> string" where
  "decorateString rawUTF8 = [CHR 0x22] @ concat (map decorateByte rawUTF8) @ [CHR 0x22]"

text \<open>One escape sequence after its backslash: the bytes it writes and the state after it.\<close>

definition parseEscape :: "bytes \<Rightarrow> pst \<Rightarrow> bytes \<times> pst" where
  "parseEscape d s =
     (let (c, s1) = nextChar d s
      in if c = CHR ''u'' then
           (let (firstUTF16, s2) = getUEscape d s1
            in if IsSurrogate firstUTF16 then
                 (let (c1, s3) = nextChar d s2
                  in if c1 \<noteq> CHR 0x5C then ([], setError ''Missing surrogate'' s3)
                     else let (c2, s4) = nextChar d s3
                          in if c2 \<noteq> CHR ''u'' then ([], setError ''Missing surrogate'' s4)
                             else let (second, s5) = getUEscape d s4
                                  in (EncodeRune (utf16_DecodeRune firstUTF16 second), s5))
               else (EncodeRune firstUTF16, s2))
         else if c = CHR ''/'' then (''/'', s1)
         else case map_of (zip asciiEscapes binaryEscapes) c of
                Some b \<Rightarrow> ([b], s1)
              | None \<Rightarrow> ([], setError (''Unexpected escape: '' @ [CHR 0x5C] @ EncodeRune (of_char c)) s1))"

text \<open>Scanning never moves back and never clears the error.\<close>

lemma setError_idx [simp]: "idx (setError m s) = idx s"
  by (simp add: setError_def checkError_def)

lemma checkError_idx [simp]: "idx (checkError e s) = idx s"
  by (simp add: checkError_def)

lemma nextChar_mono: "idx s \<le> idx (snd (nextChar d s))"
  by (simp add: nextChar_def Let_def)

lemma scan_mono: "idx s \<le> idx (snd (scan d s))"
proof (induction d s rule: scan.induct)
  case (1 d s)
  then show ?case
    using nextChar_mono [of s d] by (subst scan.simps) (force split: prod.splits)
qed

lemma getUEscape_mono: "idx s \<le> idx (snd (getUEscape d s))"
proof -
  have "idx s \<le> idx (snd (nextChar d (snd (nextChar d (snd (nextChar d (snd (nextChar d s))))))))"
    by (meson nextChar_mono order_trans)
  then show ?thesis
    by (auto simp: getUEscape_def Let_def split: option.splits)
qed

lemma nextChar_monoD: "nextChar d s = (c, s') \<Longrightarrow> idx s \<le> idx s'"
  using nextChar_mono [of s d] by simp

lemma getUEscape_monoD: "getUEscape d s = (c, s') \<Longrightarrow> idx s \<le> idx s'"
  using getUEscape_mono [of s d] by simp

lemma parseEscape_mono: "idx s \<le> idx (snd (parseEscape d s))"
  by (auto simp: parseEscape_def Let_def split: prod.splits option.splits if_splits
      dest!: nextChar_monoD getUEscape_monoD)

function parseQuotedString :: "bytes \<Rightarrow> bytes \<Rightarrow> pst \<Rightarrow> bytes \<times> pst" where
  "parseQuotedString d raw s =
     (if gerr s \<noteq> None then (raw, s)
      else if \<not> idx s < length d then (raw, snd (nextChar d s))
      else
        (let c = d ! idx s; s1 = s\<lparr>idx := idx s + 1\<rparr>
         in if c = CHR 0x22 then (raw, s1)
            else if of_char c < (0x20 :: nat) then
              parseQuotedString d raw (setError ''Unterminated string literal'' s1)
            else if c = CHR 0x5C then
              (let (b, s2) = parseEscape d s1 in parseQuotedString d (raw @ b) s2)
            else parseQuotedString d (raw @ [c]) s1))"
  by pat_completeness auto
termination
proof (relation "measure (\<lambda>(d, raw, s). length d - idx s)", goal_cases)
  case (3 d raw s c s1 p b s2)
  have "idx s1 \<le> idx s2"
    using parseEscape_mono [of s1 d] 3 by (metis snd_conv)
  with 3 show ?case by (simp add: diff_less_mono2)
qed auto

declare parseQuotedString.simps [simp del]

subsection \<open>Literals and numbers\<close>

definition literals :: "string list" where
  "literals = [''true'', ''false'', ''null'']"

text \<open>What is left of the input for a parse that has not failed; a failed one stops at once.\<close>

definition todo :: "bytes \<Rightarrow> pst \<Rightarrow> nat" where
  "todo d s = (if gerr s = None then Suc (length d - idx s) else 0)"

lemma todo_zero [simp]: "todo d s = 0 \<longleftrightarrow> gerr s \<noteq> None"
  by (simp add: todo_def)

lemma todo_leI: "idx s \<le> idx s' \<Longrightarrow> (gerr s' = None \<Longrightarrow> gerr s = None) \<Longrightarrow> todo d s' \<le> todo d s"
  by (auto simp: todo_def)

lemma setError_gerr [simp]: "gerr (setError m s) \<noteq> None"
  by (auto simp: setError_def checkError_def)

lemma setError_todo [simp]: "todo d (setError m s) = 0"
  by simp

lemma nextChar_gerr: "gerr (snd (nextChar d s)) = None \<Longrightarrow> gerr s = None \<and> idx s < length d"
  by (auto simp: nextChar_def Let_def setError_def checkError_def split: if_splits)

lemma nextChar_idx: "idx s < length d \<Longrightarrow> idx (snd (nextChar d s)) = Suc (idx s)"
  by (simp add: nextChar_def Let_def)

lemma nextChar_todo: "gerr s = None \<Longrightarrow> todo d (snd (nextChar d s)) < todo d s"
  by (auto simp: todo_def nextChar_idx dest!: nextChar_gerr)

lemma scan_gerr: "gerr (snd (scan d s)) = None \<Longrightarrow> gerr s = None"
proof (induction d s rule: scan.induct)
  case (1 d s)
  obtain c s1 where n: "nextChar d s = (c, s1)" by force
  then have "gerr s1 = None \<Longrightarrow> gerr s = None"
    using nextChar_gerr [of d s] by simp
  with 1 n show ?case by (auto simp: scan.simps [of d s] split: if_splits)
qed

lemma scan_todo: "gerr s = None \<Longrightarrow> todo d (snd (scan d s)) < todo d s"
proof (induction d s rule: scan.induct)
  case (1 d s)
  obtain c s1 where n: "nextChar d s = (c, s1)" by force
  then have t: "todo d s1 < todo d s" using nextChar_todo [of s d] 1 by simp
  show ?case
  proof (cases "isWhiteSpace c")
    case False
    with n t show ?thesis by (simp add: scan.simps [of d s])
  next
    case True
    have "todo d (snd (scan d s1)) \<le> todo d s1"
      by (rule todo_leI) (auto intro: scan_mono dest: scan_gerr)
    with n t True show ?thesis by (simp add: scan.simps [of d s])
  qed
qed

lemma scan_todo_le: "todo d (snd (scan d s)) \<le> todo d s"
  by (rule todo_leI) (auto intro: scan_mono dest: scan_gerr)

lemma test_todo_le: "todo d (snd (testNextNonWhiteSpaceChar d s)) \<le> todo d s"
  by (rule todo_leI)
    (auto simp: testNextNonWhiteSpaceChar_def split: prod.splits, metis scan_gerr snd_conv)

lemma scanFor_todo_le: "todo d (scanFor d c s) \<le> todo d s"
  using scan_todo_le [of d s] by (auto simp: scanFor_def split: prod.splits)

text \<open>The token loop of \<open>parseSimpleType\<close>.\<close>

function tokenLoop :: "bytes \<Rightarrow> string \<Rightarrow> pst \<Rightarrow> string \<times> pst" where
  "tokenLoop d token s =
     (if gerr s \<noteq> None then (token, s)
      else
        (let (c, s1) = testNextNonWhiteSpaceChar d s
         in if c = CHR '','' \<or> c = CHR '']'' \<or> c = CHR ''}'' then (token, s1)
            else let (c', s2) = nextChar d s1
                 in if isWhiteSpace c' then (token, s2) else tokenLoop d (token @ [c']) s2))"
  by pat_completeness auto
termination
proof (relation "measure (\<lambda>(d, token, s). todo d s)", goal_cases)
  case (2 d token s p c s1 q c' s2)
  have "todo d s1 \<le> todo d s" using test_todo_le [of d s] 2 by (metis snd_conv)
  moreover have "todo d s2 < todo d s1 \<or> todo d s2 = 0"
  proof (cases "gerr s1 = None")
    case True
    then show ?thesis using nextChar_todo [of s1 d] 2 by (metis snd_conv)
  next
    case False
    then show ?thesis using nextChar_gerr [of d s1] 2 by (metis snd_conv todo_zero)
  qed
  ultimately show ?case using 2 by (auto simp: todo_def)
qed simp

declare tokenLoop.simps [simp del]

definition parseSimpleType :: "strconv_float \<Rightarrow> bytes \<Rightarrow> pst \<Rightarrow> string \<times> pst" where
  "parseSimpleType F d s =
     (let (token, s1) = tokenLoop d [] (s\<lparr>idx := idx s - 1\<rparr>);
          s2 = (if token = [] then setError ''Missing argument'' s1 else s1)
      in if token \<in> set literals then (token, s2)
         else let (ieeeF64, e) = ParseFloat F token;
                  s3 = checkError e s2;
                  (value, e') = NumberToJSON F ieeeF64
              in (value, checkError e' s3))"

subsection \<open>Arrays and objects\<close>

record nameValueType =
  nv_name :: bytes
  nv_sortKey :: "nat list"
  nv_value :: string

text \<open>The comparison of two sort keys: precedes, follows, or the same key again.\<close>

fun key_less :: "nat list \<Rightarrow> nat list \<Rightarrow> bool" where
  "key_less [] ys \<longleftrightarrow> ys \<noteq> []"
| "key_less (x # xs) [] \<longleftrightarrow> False"
| "key_less (x # xs) (y # ys) \<longleftrightarrow> x < y \<or> x = y \<and> key_less xs ys"

definition lexicographicallyPrecedes :: "nat list \<Rightarrow> nameValueType \<Rightarrow> pst \<Rightarrow> bool \<times> pst" where
  "lexicographicallyPrecedes sortKey e s =
     (if key_less sortKey (nv_sortKey e) then (True, s)
      else if sortKey = nv_sortKey e then (False, setError (''Duplicate key: '' @ nv_name e) s)
      else (False, s))"

fun insertNameValue :: "nameValueType \<Rightarrow> nameValueType list \<Rightarrow> pst \<Rightarrow> nameValueType list \<times> pst" where
  "insertNameValue nv [] s = ([nv], s)"
| "insertNameValue nv (e # es) s =
     (let (b, s1) = lexicographicallyPrecedes (nv_sortKey nv) e s
      in if b then (nv # e # es, s1)
         else let (es', s2) = insertNameValue nv es s1 in (e # es', s2))"

fun serializeObject :: "bool \<Rightarrow> nameValueType list \<Rightarrow> string" where
  "serializeObject nxt [] = []"
| "serializeObject nxt (e # es) =
     (if nxt then '','' else []) @ decorateString (nv_name e) @ '':'' @ nv_value e @
     serializeObject True es"

fun parseElement :: "strconv_float \<Rightarrow> bytes \<Rightarrow> nat \<Rightarrow> pst \<Rightarrow> (string \<times> pst) option"
  and arrayLoop :: "strconv_float \<Rightarrow> bytes \<Rightarrow> nat \<Rightarrow> bool \<Rightarrow> string \<Rightarrow> pst \<Rightarrow> (string \<times> pst) option"
  and objectLoop :: "strconv_float \<Rightarrow> bytes \<Rightarrow> nat \<Rightarrow> bool \<Rightarrow> nameValueType list \<Rightarrow> pst \<Rightarrow>
    (nameValueType list \<times> pst) option"
where
  "parseElement F d 0 s = None"
| "parseElement F d (Suc n) s =
     (let (c, s1) = scan d s
      in if c = CHR ''{'' then
           (case objectLoop F d n False [] s1 of
              None \<Rightarrow> None
            | Some (nvs, s2) \<Rightarrow>
                Some (''{'' @ serializeObject False nvs @ ''}'', snd (scan d s2)))
         else if c = CHR 0x22 then
           (let (raw, s2) = parseQuotedString d [] s1 in Some (decorateString raw, s2))
         else if c = CHR ''['' then
           (case arrayLoop F d n False ''['' s1 of
              None \<Rightarrow> None
            | Some (arrayData, s2) \<Rightarrow> Some (arrayData @ '']'', snd (scan d s2)))
         else Some (parseSimpleType F d s1))"
| "arrayLoop F d 0 nxt arrayData s = None"
| "arrayLoop F d (Suc n) nxt arrayData s =
     (if gerr s \<noteq> None then Some (arrayData, s)
      else
        (let (c, s1) = testNextNonWhiteSpaceChar d s
         in if c = CHR '']'' then Some (arrayData, s1)
            else
              (let s2 = (if nxt then scanFor d CHR '','' s1 else s1);
                   arrayData' = (if nxt then arrayData @ '','' else arrayData)
               in case parseElement F d n s2 of
                    None \<Rightarrow> None
                  | Some (v, s3) \<Rightarrow> arrayLoop F d n True (arrayData' @ v) s3)))"
| "objectLoop F d 0 nxt nvs s = None"
| "objectLoop F d (Suc n) nxt nvs s =
     (if gerr s \<noteq> None then Some (nvs, s)
      else
        (let (c, s1) = testNextNonWhiteSpaceChar d s
         in if c = CHR ''}'' then Some (nvs, s1)
            else
              (let s2 = scanFor d CHR 0x22 (if nxt then scanFor d CHR '','' s1 else s1);
                   (rawUTF8, s3) = parseQuotedString d [] s2
               in if gerr s3 \<noteq> None then Some (nvs, s3)
                  else
                    (case parseElement F d n (scanFor d CHR '':'' s3) of
                       None \<Rightarrow> None
                     | Some (v, s4) \<Rightarrow>
                         (let (nvs', s5) = insertNameValue
                            \<lparr>nv_name = rawUTF8, nv_sortKey = utf16_Encode (runes rawUTF8), nv_value = v\<rparr> nvs s4
                          in objectLoop F d n True nvs' s5)))))"

definition parseArray :: "strconv_float \<Rightarrow> bytes \<Rightarrow> nat \<Rightarrow> pst \<Rightarrow> (string \<times> pst) option" where
  "parseArray F d n s =
     (case arrayLoop F d n False ''['' s of
        None \<Rightarrow> None | Some (arrayData, s1) \<Rightarrow> Some (arrayData @ '']'', snd (scan d s1)))"

definition parseObject :: "strconv_float \<Rightarrow> bytes \<Rightarrow> nat \<Rightarrow> pst \<Rightarrow> (string \<times> pst) option" where
  "parseObject F d n s =
     (case objectLoop F d n False [] s of
        None \<Rightarrow> None
      | Some (nvs, s1) \<Rightarrow> Some (''{'' @ serializeObject False nvs @ ''}'', snd (scan d s1)))"

subsection \<open>Transform\<close>

function trailing :: "bytes \<Rightarrow> pst \<Rightarrow> pst" where
  "trailing d s =
     (if idx s < length d then
        (if \<not> isWhiteSpace (d ! idx s) then setError ''Improperly terminated JSON object'' s
         else trailing d (s\<lparr>idx := idx s + 1\<rparr>))
      else s)"
  by pat_completeness auto
termination
  by (relation "measure (\<lambda>(d, s). length d - idx s)") auto

declare trailing.simps [simp del]

definition transform_fuel :: "strconv_float \<Rightarrow> nat \<Rightarrow> bytes \<Rightarrow> (bytes \<times> err option) option" where
  "transform_fuel F n d =
     (let (c, s1) = testNextNonWhiteSpaceChar d \<lparr>idx = 0, gerr = None\<rparr>;
          r = (if c = CHR ''['' then parseArray F d n (snd (scan d s1))
               else parseObject F d n (scanFor d CHR ''{'' s1))
      in case r of
           None \<Rightarrow> None
         | Some (transformed, s2) \<Rightarrow> Some (transformed, gerr (trailing d s2)))"

text \<open>The result and the first error; \<open>None\<close>, running out of fuel, is shown not to happen.\<close>

definition Transform :: "strconv_float \<Rightarrow> bytes \<Rightarrow> bytes \<times> err option" where
  "Transform F d =
     (case transform_fuel F (2 * length d + 5) d of
        Some r \<Rightarrow> r | None \<Rightarrow> ([], Some (ErrorString ''out of fuel'')))"

subsection \<open>The fuel is enough\<close>

lemma nextChar_gerrD: "nextChar d s = (c, s') \<Longrightarrow> gerr s' = None \<Longrightarrow> gerr s = None"
  using nextChar_gerr [of d s] by simp

lemma getUEscape_gerrD: "getUEscape d s = (c, s') \<Longrightarrow> gerr s' = None \<Longrightarrow> gerr s = None"
  by (auto simp: getUEscape_def Let_def split: if_splits option.splits dest!: nextChar_gerr)

lemma parseEscape_gerr: "gerr (snd (parseEscape d s)) = None \<Longrightarrow> gerr s = None"
  by (auto simp: parseEscape_def Let_def split: prod.splits if_splits option.splits
      dest!: nextChar_gerrD getUEscape_gerrD)

lemma parseQuotedString_mono: "idx s \<le> idx (snd (parseQuotedString d raw s))"
proof (induction d raw s rule: parseQuotedString.induct)
  case (1 d raw s)
  show ?case
  proof (cases "gerr s = None \<and> idx s < length d")
    case False
    then show ?thesis
      using nextChar_mono [of s d] by (auto simp: parseQuotedString.simps [of d raw s])
  next
    case True
    obtain b s2 where e: "parseEscape d (s\<lparr>idx := idx s + 1\<rparr>) = (b, s2)" by force
    then have "idx s + 1 \<le> idx s2" using parseEscape_mono [of "s\<lparr>idx := idx s + 1\<rparr>" d] by simp
    with True e 1 show ?thesis
      by (auto simp: parseQuotedString.simps [of d raw s] Let_def intro: Suc_leD order_trans)
  qed
qed

lemma parseQuotedString_gerr: "gerr (snd (parseQuotedString d raw s)) = None \<Longrightarrow> gerr s = None"
  by (subst (asm) parseQuotedString.simps) (auto split: if_splits)

lemma parseQuotedString_todo_le: "todo d (snd (parseQuotedString d raw s)) \<le> todo d s"
  by (rule todo_leI) (auto intro: parseQuotedString_mono dest: parseQuotedString_gerr)

lemma tokenLoop_progress:
  "tokenLoop d token s = (token', s') \<Longrightarrow> gerr s' = None \<Longrightarrow>
     gerr s = None \<and> idx s + length token' \<le> idx s' + length token"
proof (induction d token s arbitrary: token' s' rule: tokenLoop.induct)
  case (1 d token s)
  show ?case
  proof (cases "gerr s = None")
    case False
    with "1.prems" show ?thesis by (simp add: tokenLoop.simps [of d token s])
  next
    case True
    obtain c s1 where t: "testNextNonWhiteSpaceChar d s = (c, s1)" by force
    then have i1: "idx s1 = idx s"
      by (auto simp: testNextNonWhiteSpaceChar_def split: prod.splits)
    obtain c' s2 where n: "nextChar d s1 = (c', s2)" by force
    then have i2: "idx s1 \<le> idx s2" "gerr s2 = None \<Longrightarrow> idx s2 = Suc (idx s1)"
      using nextChar_mono [of s1 d] nextChar_gerr [of d s1] nextChar_idx [of s1 d] by auto
    show ?thesis
      using "1.prems" "1.IH" [OF _ t [symmetric] refl _ n [symmetric] refl] True t n i1 i2
      by (force simp: tokenLoop.simps [of d token s] split: if_splits)
  qed
qed

lemma checkError_gerr: "gerr (checkError e s) = None \<Longrightarrow> gerr s = None"
  by (auto simp: checkError_def split: if_splits)

lemma parseSimpleType_todo:
  assumes "gerr s = None \<Longrightarrow> 0 < idx s"
  shows "todo d (snd (parseSimpleType F d s)) \<le> todo d s"
proof (cases "gerr (snd (parseSimpleType F d s)) = None")
  case False
  then show ?thesis by (auto simp: todo_def)
next
  case True
  obtain token s1 where t: "tokenLoop d [] (s\<lparr>idx := idx s - 1\<rparr>) = (token, s1)" by force
  with True have "token \<noteq> []" "gerr s1 = None" and i: "idx (snd (parseSimpleType F d s)) = idx s1"
    by (auto simp: parseSimpleType_def Let_def split: if_splits prod.splits dest!: checkError_gerr)
  with tokenLoop_progress [OF t] have "gerr s = None" "idx s - 1 + length token \<le> idx s1" by auto
  moreover have "1 \<le> length token" using \<open>token \<noteq> []\<close> by (simp add: Suc_le_eq)
  ultimately have "idx s \<le> idx s1" using assms by linarith
  with i \<open>gerr s = None\<close> show ?thesis by (simp add: todo_def diff_le_mono2)
qed

lemma scan_consumes: "gerr (snd (scan d s)) = None \<Longrightarrow> idx s < idx (snd (scan d s))"
  using scan_gerr [of d s] scan_todo [of s d] by (auto simp: todo_def)

lemma insertNameValue_state:
  "insertNameValue nv es s = (es', s') \<Longrightarrow> idx s' = idx s \<and> (gerr s' = None \<longrightarrow> gerr s = None)"
proof (induction es arbitrary: s es' s')
  case (Cons e es)
  then show ?case
    by (force simp: lexicographicallyPrecedes_def split: if_splits prod.splits)
qed simp

lemma insertNameValue_todo: "insertNameValue nv es s = (es', s') \<Longrightarrow> todo d s' \<le> todo d s"
  by (rule todo_leI) (auto dest: insertNameValue_state)

definition need :: "nat \<Rightarrow> nat" where
  "need k = (if k = 0 then 1 else 2 * k + 3)"

text \<open>
  What one call of the element parser and of the two loops achieves, given enough fuel: they
  return, and an element either fails or moves forward.
\<close>

definition element_ok :: "strconv_float \<Rightarrow> bytes \<Rightarrow> nat \<Rightarrow> bool" where
  "element_ok F d n \<longleftrightarrow> (\<forall>s. 2 * todo d s + 2 \<le> n \<longrightarrow>
     (\<exists>v s'. parseElement F d n s = Some (v, s') \<and> todo d s' \<le> todo d s \<and>
        (gerr s = None \<longrightarrow> todo d s' < todo d s)))"

definition loops_ok :: "strconv_float \<Rightarrow> bytes \<Rightarrow> nat \<Rightarrow> bool" where
  "loops_ok F d n \<longleftrightarrow> (\<forall>s. need (todo d s) \<le> n \<longrightarrow>
     (\<forall>nxt acc. \<exists>v s'. arrayLoop F d n nxt acc s = Some (v, s') \<and> todo d s' \<le> todo d s) \<and>
     (\<forall>nxt nvs. \<exists>v s'. objectLoop F d n nxt nvs s = Some (v, s') \<and> todo d s' \<le> todo d s))"

lemma element_okD:
  assumes "element_ok F d n" and "2 * todo d s + 2 \<le> n"
  shows "\<exists>v s'. parseElement F d n s = Some (v, s') \<and> todo d s' \<le> todo d s \<and>
    (gerr s = None \<longrightarrow> todo d s' < todo d s)"
  using assms unfolding element_ok_def by blast

lemma loops_okD:
  assumes "loops_ok F d n" and "need (todo d s) \<le> n"
  shows "\<exists>v s'. arrayLoop F d n nxt acc s = Some (v, s') \<and> todo d s' \<le> todo d s"
    and "\<exists>v s'. objectLoop F d n nxt nvs s = Some (v, s') \<and> todo d s' \<le> todo d s"
  using assms unfolding loops_ok_def by blast+

lemma need_pred: "k' < k \<Longrightarrow> need k' \<le> 2 * k + 1"
  by (auto simp: need_def)

lemma element_step:
  assumes "loops_ok F d n"
  shows "element_ok F d (Suc n)"
  unfolding element_ok_def
proof (intro allI impI)
  fix s assume fuel: "2 * todo d s + 2 \<le> Suc n"
  obtain c s1 where sc: "scan d s = (c, s1)" by force
  have le: "todo d s1 \<le> todo d s" using scan_todo_le [of d s] sc by simp
  have lt: "gerr s = None \<Longrightarrow> todo d s1 < todo d s" using scan_todo [of s d] sc by simp
  have "need (todo d s1) \<le> n"
  proof (cases "gerr s = None")
    case True
    then show ?thesis using need_pred [OF lt] fuel by simp
  next
    case False
    then have "todo d s = 0" by simp
    with le fuel show ?thesis by (simp add: need_def)
  qed
  note loops = loops_okD [OF assms this]
  obtain v2 s2 where arr: "arrayLoop F d n False ''['' s1 = Some (v2, s2)" "todo d s2 \<le> todo d s1"
    using loops(1) by blast
  obtain v3 s3 where obj: "objectLoop F d n False [] s1 = Some (v3, s3)" "todo d s3 \<le> todo d s1"
    using loops(2) by blast
  have simple: "todo d (snd (parseSimpleType F d s1)) \<le> todo d s1"
    using scan_consumes [of d s] sc by (intro parseSimpleType_todo) auto
  have "\<exists>v s'. parseElement F d (Suc n) s = Some (v, s') \<and> todo d s' \<le> todo d s1"
    using sc arr obj simple order_trans [OF scan_todo_le [of d s2] arr(2)]
      order_trans [OF scan_todo_le [of d s3] obj(2)] parseQuotedString_todo_le [of d "[]" s1]
    by (cases "parseSimpleType F d s1") (auto split: prod.splits)
  with le lt show "\<exists>v s'. parseElement F d (Suc n) s = Some (v, s') \<and> todo d s' \<le> todo d s \<and>
      (gerr s = None \<longrightarrow> todo d s' < todo d s)"
    by (meson le_less_trans order_trans)
qed

lemma arrayLoop_step:
  assumes "element_ok F d n" "loops_ok F d n" and fuel: "need (todo d s) \<le> Suc n"
  shows "\<exists>v s'. arrayLoop F d (Suc n) nxt acc s = Some (v, s') \<and> todo d s' \<le> todo d s"
proof (cases "gerr s = None")
  case False
  then show ?thesis by simp
next
  case True
  obtain c s1 where t: "testNextNonWhiteSpaceChar d s = (c, s1)" by force
  define s2 where "s2 = (if nxt then scanFor d CHR '','' s1 else s1)"
  define acc' where "acc' = (if nxt then acc @ '','' else acc)"
  have le1: "todo d s1 \<le> todo d s" using test_todo_le [of d s] t by simp
  have le2: "todo d s2 \<le> todo d s"
    using order_trans [OF scanFor_todo_le le1] le1 by (simp add: s2_def)
  have pos: "0 < todo d s" using True by (simp add: todo_def)
  have fuel': "2 * todo d s + 3 \<le> Suc n" using fuel True by (simp add: need_def)
  then have "2 * todo d s2 + 2 \<le> n" using le2 by simp
  then obtain v s3 where e: "parseElement F d n s2 = Some (v, s3)" "todo d s3 \<le> todo d s2"
    "gerr s2 = None \<longrightarrow> todo d s3 < todo d s2"
    using element_okD [OF assms(1)] by blast
  have lt: "todo d s3 < todo d s"
    using e le2 pos todo_zero [of d s2] by (cases "gerr s2 = None") linarith+
  then have "need (todo d s3) \<le> n" using need_pred [OF lt] fuel' by simp
  from loops_okD(1) [OF assms(2) this, of True "acc' @ v"]
  obtain w s4 where "arrayLoop F d n True (acc' @ v) s3 = Some (w, s4)" "todo d s4 \<le> todo d s3"
    by blast
  with True t e lt le1 show ?thesis
    by (auto simp flip: s2_def acc'_def)
qed

lemma objectLoop_step:
  assumes "element_ok F d n" "loops_ok F d n" and fuel: "need (todo d s) \<le> Suc n"
  shows "\<exists>v s'. objectLoop F d (Suc n) nxt nvs s = Some (v, s') \<and> todo d s' \<le> todo d s"
proof (cases "gerr s = None")
  case False
  then show ?thesis by simp
next
  case True
  obtain c s1 where t: "testNextNonWhiteSpaceChar d s = (c, s1)" by force
  define s2 where "s2 = scanFor d CHR 0x22 (if nxt then scanFor d CHR '','' s1 else s1)"
  obtain raw s3 where q: "parseQuotedString d [] s2 = (raw, s3)" by force
  define s3' where "s3' = scanFor d CHR '':'' s3"
  have le1: "todo d s1 \<le> todo d s" using test_todo_le [of d s] t by simp
  have "todo d (if nxt then scanFor d CHR '','' s1 else s1) \<le> todo d s1"
    by (simp add: scanFor_todo_le)
  then have "todo d s2 \<le> todo d s1"
    unfolding s2_def by (rule order_trans [OF scanFor_todo_le])
  moreover have le3: "todo d s3 \<le> todo d s2" using parseQuotedString_todo_le [of d "[]" s2] q by simp
  moreover have "todo d s3' \<le> todo d s3" unfolding s3'_def by (rule scanFor_todo_le)
  ultimately have les: "todo d s3' \<le> todo d s" "todo d s3 \<le> todo d s" using le1 by linarith+
  have pos: "0 < todo d s" using True by (simp add: todo_def)
  have fuel': "2 * todo d s + 3 \<le> Suc n" using fuel True by (simp add: need_def)
  then have "2 * todo d s3' + 2 \<le> n" using les by simp
  then obtain v s4 where e: "parseElement F d n s3' = Some (v, s4)" "todo d s4 \<le> todo d s3'"
    "gerr s3' = None \<longrightarrow> todo d s4 < todo d s3'"
    using element_okD [OF assms(1)] by blast
  define nv where "nv = \<lparr>nv_name = raw, nv_sortKey = utf16_Encode (runes raw), nv_value = v\<rparr>"
  obtain nvs' s5 where i: "insertNameValue nv nvs s4 = (nvs', s5)" by force
  have "todo d s4 < todo d s"
    using e les pos todo_zero [of d s3'] by (cases "gerr s3' = None") linarith+
  with insertNameValue_todo [OF i, of d] have lt: "todo d s5 < todo d s" by linarith
  then have "need (todo d s5) \<le> n" using need_pred [OF lt] fuel' by simp
  from loops_okD(2) [OF assms(2) this, of True nvs']
  obtain w s6 where "objectLoop F d n True nvs' s5 = Some (w, s6)" "todo d s6 \<le> todo d s5"
    by blast
  then have "objectLoop F d (Suc n) nxt nvs s =
      (if c = CHR ''}'' then Some (nvs, s1) else if gerr s3 \<noteq> None then Some (nvs, s3) else Some (w, s6))"
    using True t q [unfolded s2_def] e(1) [unfolded s3'_def] i [unfolded nv_def] by simp
  with \<open>todo d s6 \<le> todo d s5\<close> lt le1 les show ?thesis by simp
qed

lemma parsers_ok: "element_ok F d n \<and> loops_ok F d n"
proof (induction n)
  case 0
  then show ?case by (simp add: element_ok_def loops_ok_def need_def)
next
  case (Suc n)
  then have ok: "element_ok F d n" "loops_ok F d n" by blast+
  have "loops_ok F d (Suc n)"
    unfolding loops_ok_def
    by (intro allI impI conjI arrayLoop_step [OF ok] objectLoop_step [OF ok])
  with element_step [OF ok(2)] show ?case by blast
qed

lemma transform_fuel_enough: "\<exists>r. transform_fuel F (2 * length d + 5) d = Some r"
proof -
  let ?s0 = "\<lparr>idx = 0, gerr = None\<rparr>" and ?n = "2 * length d + 5"
  obtain c s1 where t: "testNextNonWhiteSpaceChar d ?s0 = (c, s1)" by force
  have top: "todo d s1 \<le> Suc (length d)"
    using test_todo_le [of d ?s0] t by (simp add: todo_def)
  have "need (todo d s) \<le> ?n" if "todo d s \<le> todo d s1" for s
    using that top by (simp add: need_def)
  note loops = loops_okD [OF conjunct2 [OF parsers_ok] this]
  obtain v s2 where "arrayLoop F d ?n False ''['' (snd (scan d s1)) = Some (v, s2)"
    using loops(1) [OF scan_todo_le] by blast
  moreover obtain w s3 where "objectLoop F d ?n False [] (scanFor d CHR ''{'' s1) = Some (w, s3)"
    using loops(2) [OF scanFor_todo_le] by blast
  ultimately show ?thesis
    using t by (auto simp: transform_fuel_def parseArray_def parseObject_def)
qed

lemma Transform_fuel: "transform_fuel F (2 * length d + 5) d = Some (Transform F d)"
  using transform_fuel_enough [of F d] by (auto simp: Transform_def)

end
