(* ===== verification/CanonicalForm.thy ===== *)
theory CanonicalForm
  imports Canonicalizer "HOL-Library.List_Lexorder"
begin

text \<open>
  What \<open>Transform\<close> computes. JSON values and their texts are defined independently of the parser, and
  so is the canonical form: members in the order of their UTF-16 keys, numbers as \<open>NumberToJSON\<close>
  prints them. On the text of a value the transformation gives the canonical form of that value.
\<close>

datatype json = JNull | JBool bool | JNumber string | JString string | JArray "json list"
  | JObject "(string \<times> json) list"

fun seps :: "bool \<Rightarrow> string list \<Rightarrow> string" where
  "seps nxt [] = []"
| "seps nxt (x # xs) = (if nxt then '','' else []) @ x @ seps True xs"

definition member :: "string \<Rightarrow> string \<Rightarrow> string" where
  "member k v = decorateString k @ '':'' @ v"

definition sort_keys :: "(string \<times> 'v) list \<Rightarrow> (string \<times> 'v) list" where
  "sort_keys = sort_key (\<lambda>kv. utf16_Encode (runes (fst kv)))"

lemma json_in_members [termination_simp]: "(k, v) \<in> set kvs \<Longrightarrow> size v < Suc (size_list (size_prod (\<lambda>x. 0) size) kvs)"
  by (induction kvs) auto

fun json_text :: "json \<Rightarrow> string" where
  "json_text JNull = ''null''"
| "json_text (JBool b) = (if b then ''true'' else ''false'')"
| "json_text (JNumber t) = t"
| "json_text (JString s) = decorateString s"
| "json_text (JArray vs) = ''['' @ seps False (map json_text vs) @ '']''"
| "json_text (JObject kvs) = ''{'' @ seps False (map (\<lambda>(k, v). member k (json_text v)) kvs) @ ''}''"

fun canonical :: "strconv_float \<Rightarrow> json \<Rightarrow> string" where
  "canonical F JNull = ''null''"
| "canonical F (JBool b) = (if b then ''true'' else ''false'')"
| "canonical F (JNumber t) = fst (NumberToJSON F (fst (ParseFloat F t)))"
| "canonical F (JString s) = decorateString s"
| "canonical F (JArray vs) = ''['' @ seps False (map (canonical F) vs) @ '']''"
| "canonical F (JObject kvs) =
     ''{'' @ seps False (map (\<lambda>(k, v). member k v) (sort_keys (map (\<lambda>(k, v). (k, canonical F v)) kvs))) @ ''}''"

text \<open>Texts that the format allows as a number, and that the number conversion accepts.\<close>

definition token_char :: "char \<Rightarrow> bool" where
  "token_char c \<longleftrightarrow> of_char c \<le> (0x7f :: nat) \<and> \<not> isWhiteSpace c \<and> c \<notin> {CHR '','', CHR '']'', CHR ''}''}"

definition number_ok :: "strconv_float \<Rightarrow> string \<Rightarrow> bool" where
  "number_ok F t \<longleftrightarrow> t \<noteq> [] \<and> list_all token_char t \<and> hd t \<notin> {CHR ''{'', CHR ''['', CHR 0x22} \<and>
     t \<notin> set literals \<and> snd (ParseFloat F t) = None \<and> snd (NumberToJSON F (fst (ParseFloat F t))) = None"

fun json_ok :: "strconv_float \<Rightarrow> json \<Rightarrow> bool" where
  "json_ok F (JNumber t) \<longleftrightarrow> number_ok F t"
| "json_ok F (JArray vs) \<longleftrightarrow> (\<forall>v \<in> set vs. json_ok F v)"
| "json_ok F (JObject kvs) \<longleftrightarrow> distinct (map (\<lambda>kv. utf16_Encode (runes (fst kv))) kvs) \<and>
     (\<forall>(k, v) \<in> set kvs. json_ok F v)"
| "json_ok F _ \<longleftrightarrow> True"

subsection \<open>Reading known input\<close>

abbreviation st :: "nat \<Rightarrow> pst" where
  "st n \<equiv> \<lparr>idx = n, gerr = None\<rparr>"

lemma drop_Cons_iff: "drop n d = c # post \<longleftrightarrow> n < length d \<and> d ! n = c \<and> drop (Suc n) d = post"
  by (metis Cons_nth_drop_Suc drop_all leI list.discI list.inject)

lemma drop_append_eq: "drop n d = xs @ post \<Longrightarrow> drop (n + length xs) d = post"
  by (metis add.commute append_eq_conv_conj drop_drop)

lemma nextChar_at: "drop n d = c # post \<Longrightarrow> of_char c \<le> (0x7f :: nat) \<Longrightarrow> nextChar d (st n) = (c, st (Suc n))"
  by (auto simp: nextChar_def drop_Cons_iff Let_def)

lemma scan_at:
  "drop n d = c # post \<Longrightarrow> of_char c \<le> (0x7f :: nat) \<Longrightarrow> \<not> isWhiteSpace c \<Longrightarrow> scan d (st n) = (c, st (Suc n))"
  by (subst scan.simps) (simp add: nextChar_at)

lemma test_at:
  "drop n d = c # post \<Longrightarrow> of_char c \<le> (0x7f :: nat) \<Longrightarrow> \<not> isWhiteSpace c \<Longrightarrow>
     testNextNonWhiteSpaceChar d (st n) = (c, st n)"
  by (simp add: testNextNonWhiteSpaceChar_def scan_at)

lemma scanFor_at:
  "drop n d = c # post \<Longrightarrow> of_char c \<le> (0x7f :: nat) \<Longrightarrow> \<not> isWhiteSpace c \<Longrightarrow> scanFor d c (st n) = st (Suc n)"
  by (simp add: scanFor_def scan_at)

lemma tokenLoop_at:
  assumes "drop n d = t @ c # post" "list_all token_char t" "c \<in> {CHR '','', CHR '']'', CHR ''}''}"
  shows "tokenLoop d tok (st n) = (tok @ t, st (n + length t))"
  using assms
proof (induction t arbitrary: n tok)
  case Nil
  then have "of_char c \<le> (0x7f :: nat)" "\<not> isWhiteSpace c" by (auto simp: isWhiteSpace_def)
  with Nil show ?case by (subst tokenLoop.simps) (auto simp: test_at)
next
  case (Cons x t)
  then have x: "of_char x \<le> (0x7f :: nat)" "\<not> isWhiteSpace x" "x \<notin> {CHR '','', CHR '']'', CHR ''}''}"
    and d: "drop n d = x # (t @ c # post)" "drop (Suc n) d = t @ c # post"
    by (auto simp: token_char_def drop_Cons_iff)
  have "tokenLoop d tok (st n) = tokenLoop d (tok @ [x]) (st (Suc n))"
    using x by (subst tokenLoop.simps) (simp add: test_at [OF d(1)] nextChar_at [OF d(1)])
  also have "\<dots> = (tok @ x # t, st (n + length (x # t)))"
    using Cons d(2) by simp
  finally show ?case .
qed

lemma parseSimpleType_at:
  assumes "drop n d = t @ c # post" "list_all token_char t" "c \<in> {CHR '','', CHR '']'', CHR ''}''}" "t \<noteq> []"
    and "t \<notin> set literals \<Longrightarrow> number_ok F t"
  shows "parseSimpleType F d (st (Suc n)) =
    (if t \<in> set literals then t else fst (NumberToJSON F (fst (ParseFloat F t))), st (n + length t))"
  using assms(4,5) tokenLoop_at [OF assms(1-3), of "[]"]
  by (auto simp: parseSimpleType_def Let_def number_ok_def checkError_def split: prod.splits)

subsection \<open>Strings\<close>

lemma hex_val_digit: "k < 16 \<Longrightarrow> hex_val (if k < 10 then char_of (48 + k) else char_of (87 + k)) = Some k"
  by (auto simp: hex_val_def Let_def)

lemma hex_digit_ascii:
  "(k :: nat) < 16 \<Longrightarrow> of_char (if k < 10 then char_of (48 + k) else char_of (87 + k) :: char) \<le> (0x7f :: nat)"
  by auto

lemma FormatHex_small: "k < 16 \<Longrightarrow> FormatHex k = [if k < 10 then char_of (48 + k) else char_of (87 + k)]"
  by (simp add: FormatHex.simps [of k] Let_def)

lemma FormatHex_two:
  assumes "16 \<le> n" "n < 32"
  shows "FormatHex n = [CHR ''1'', if n mod 16 < 10 then char_of (48 + n mod 16) else char_of (87 + n mod 16)]"
proof -
  have "n div 16 = 1" using assms by auto
  moreover have "char_of (49 :: nat) = CHR ''1''" by (simp add: char_of_def bit_numeral_rec bit_0)
  ultimately show ?thesis using assms
    by (simp add: FormatHex.simps [of n] FormatHex_small Let_def)
qed

lemma hex4_control:
  assumes "n < 32"
  shows "\<exists>a b. hex4 n = [CHR ''0'', CHR ''0'', a, b] \<and> parse_hex 0 (hex4 n) = Some n \<and>
    of_char a \<le> (0x7f :: nat) \<and> of_char b \<le> (0x7f :: nat)"
proof -
  have z: "hex_val CHR ''0'' = Some 0" "hex_val CHR ''1'' = Some 1" by (simp_all add: hex_val_def)
  define x where "x = (if n mod 16 < 10 then char_of (48 + n mod 16) else char_of (87 + n mod 16) :: char)"
  have x: "hex_val x = Some (n mod 16)" "of_char x \<le> (0x7f :: nat)"
    using hex_val_digit [of "n mod 16"] hex_digit_ascii [of "n mod 16"] by (simp_all add: x_def)
  show ?thesis
  proof (cases "n < 16")
    case True
    then have "hex4 n = [CHR ''0'', CHR ''0'', CHR ''0'', x]"
      by (simp add: hex4_def FormatHex_small x_def numeral_3_eq_3)
    then show ?thesis using x z True by simp
  next
    case False
    then have "hex4 n = [CHR ''0'', CHR ''0'', CHR ''1'', x]"
      using assms by (simp add: hex4_def FormatHex_two x_def numeral_2_eq_2)
    moreover have "16 + n mod 16 = n" using False assms by presburger
    ultimately show ?thesis using x z by simp
  qed
qed

lemma getUEscape_at:
  assumes "drop n d = [a, b, e, f] @ post" "parse_hex 0 [a, b, e, f] = Some u"
    and ascii: "of_char a \<le> (0x7f :: nat)" "of_char b \<le> (0x7f :: nat)" "of_char e \<le> (0x7f :: nat)" "of_char f \<le> (0x7f :: nat)"
  shows "getUEscape d (st n) = (u, st (n + 4))"
proof -
  have d: "drop n d = a # b # e # f # post" using assms(1) by simp
  then have d1: "drop (Suc n) d = b # e # f # post" by (simp add: drop_Cons_iff)
  then have d2: "drop (Suc (Suc n)) d = e # f # post" by (simp add: drop_Cons_iff)
  then have d3: "drop (Suc (Suc (Suc n))) d = f # post" by (simp add: drop_Cons_iff)
  have "take 4 (drop n d) = [a, b, e, f]" using d by simp
  then show ?thesis
    using assms(2) by (simp add: getUEscape_def Let_def nextChar_at [OF d ascii(1)] nextChar_at [OF d1 ascii(2)]
        nextChar_at [OF d2 ascii(3)] nextChar_at [OF d3 ascii(4)])
qed

lemma parseEscape_u:
  assumes "drop n d = CHR ''u'' # hex4 (of_char c) @ post" "of_char c < (0x20 :: nat)"
  shows "parseEscape d (st n) = ([c], st (n + 5))"
proof -
  obtain a b where h: "hex4 (of_char c) = [CHR ''0'', CHR ''0'', a, b]"
    "parse_hex 0 (hex4 (of_char c)) = Some (of_char c)" "of_char a \<le> (0x7f :: nat)" "of_char b \<le> (0x7f :: nat)"
    using hex4_control [OF assms(2)] by auto
  have "drop (Suc n) d = [CHR ''0'', CHR ''0'', a, b] @ post"
    using assms(1) h(1) by (simp add: drop_Cons_iff)
  from getUEscape_at [OF this] h have "getUEscape d (st (Suc n)) = (of_char c, st (Suc n + 4))" by simp
  moreover have "\<not> IsSurrogate (of_char c)" "EncodeRune (of_char c) = [c]"
    using assms(2) by (simp_all add: IsSurrogate_def EncodeRune_def valid_rune_def Let_def)
  ultimately show ?thesis
    using nextChar_at [OF assms(1)] by (simp add: parseEscape_def)
qed

lemma escape_tables:
  "map_of (zip binaryEscapes asciiEscapes) c = Some a \<Longrightarrow>
     map_of (zip asciiEscapes binaryEscapes) a = Some c \<and> of_char a \<le> (0x7f :: nat) \<and> a \<noteq> CHR ''u'' \<and> a \<noteq> CHR ''/''"
  by (auto simp: binaryEscapes_def asciiEscapes_def split: if_splits)

lemma unescaped: "map_of (zip binaryEscapes asciiEscapes) c = None \<Longrightarrow> c \<noteq> CHR 0x22 \<and> c \<noteq> CHR 0x5C"
  by (auto simp: binaryEscapes_def asciiEscapes_def)

lemma parseQuotedString_byte:
  assumes "drop n d = decorateByte c @ post"
  shows "parseQuotedString d raw (st n) = parseQuotedString d (raw @ [c]) (st (n + length (decorateByte c)))"
proof (cases "map_of (zip binaryEscapes asciiEscapes) c")
  case (Some a)
  then have l: "decorateByte c = [CHR 0x5C, a]" by (simp add: decorateByte_def)
  then have d: "n < length d" "d ! n = CHR 0x5C" "drop (Suc n) d = a # post"
    using assms by (auto simp: drop_Cons_iff)
  have "parseEscape d (st (Suc n)) = ([c], st (Suc (Suc n)))"
    using nextChar_at [OF d(3)] escape_tables [OF Some] by (simp add: parseEscape_def)
  then show ?thesis using d l by (subst parseQuotedString.simps) simp
next
  case None
  show ?thesis
  proof (cases "of_char c < (0x20 :: nat)")
    case True
    then have l: "decorateByte c = CHR 0x5C # CHR ''u'' # hex4 (of_char c)"
      using None by (simp add: decorateByte_def)
    have h: "length (hex4 (of_char c)) = 4" using hex4_control [OF True] by auto
    have d: "n < length d" "d ! n = CHR 0x5C" "drop (Suc n) d = CHR ''u'' # hex4 (of_char c) @ post"
      using assms l by (auto simp: drop_Cons_iff)
    show ?thesis
      using d l h parseEscape_u [OF d(3) True] by (subst parseQuotedString.simps) (simp add: add.commute)
  next
    case False
    then have l: "decorateByte c = [c]" using None by (simp add: decorateByte_def)
    then have "n < length d" "d ! n = c" using assms by (auto simp: drop_Cons_iff)
    then show ?thesis using l False unescaped [OF None] by (subst parseQuotedString.simps) simp
  qed
qed

lemma parseQuotedString_at:
  assumes "drop n d = concat (map decorateByte b) @ CHR 0x22 # post"
  shows "parseQuotedString d raw (st n) = (raw @ b, st (n + Suc (length (concat (map decorateByte b)))))"
  using assms
proof (induction b arbitrary: n raw)
  case Nil
  then show ?case by (subst parseQuotedString.simps) (simp add: drop_Cons_iff)
next
  case (Cons c b)
  then have d: "drop n d = decorateByte c @ concat (map decorateByte b) @ CHR 0x22 # post" by simp
  show ?case
    using Cons.IH [OF drop_append_eq [OF d], of "raw @ [c]"] parseQuotedString_byte [OF d] by (simp add: add_ac)
qed

subsection \<open>Arrays and objects\<close>

text \<open>The fuel that a value takes, and that its text always has it.\<close>

fun cost :: "json \<Rightarrow> nat" where
  "cost (JArray vs) = 2 + (\<Sum>v \<leftarrow> vs. Suc (cost v))"
| "cost (JObject kvs) = 2 + (\<Sum>(k, v) \<leftarrow> kvs. Suc (cost v))"
| "cost _ = 1"

lemma decorateString_length: "2 \<le> length (decorateString s)"
  by (simp add: decorateString_def)

lemma seps_length: "(\<Sum>x \<leftarrow> xs. length x) \<le> length (seps b xs)"
proof (induction xs arbitrary: b)
  case (Cons x xs) then show ?case by (simp add: le_SucI)
qed simp

definition elem_ok :: "strconv_float \<Rightarrow> bytes \<Rightarrow> json \<Rightarrow> bool" where
  "elem_ok F d v \<longleftrightarrow> (\<forall>n m c post. cost v \<le> m \<longrightarrow> drop n d = json_text v @ c # post \<longrightarrow>
     c \<in> {CHR '','', CHR '']'', CHR ''}''} \<longrightarrow>
     parseElement F d m (st n) = Some (canonical F v, st (n + length (json_text v))))"

lemma text_hd:
  assumes "json_ok F v"
  shows "\<exists>c t. json_text v = c # t \<and> of_char c \<le> (0x7f :: nat) \<and> \<not> isWhiteSpace c \<and>
    c \<noteq> CHR '']'' \<and> c \<noteq> CHR ''}''"
proof (cases v)
  case (JNumber t)
  then show ?thesis using assms
    by (cases t) (auto simp: number_ok_def token_char_def)
qed (auto simp: decorateString_def isWhiteSpace_def)

lemma seps_followed:
  "\<exists>c t. seps True xs @ e # post = c # t \<and> c \<in> {CHR '','', e}"
  by (cases xs) auto

lemma arrayLoop_at:
  assumes "\<forall>v \<in> set vs. json_ok F v \<and> elem_ok F d v"
    and "drop n d = seps nxt (map json_text vs) @ CHR '']'' # post"
    and "Suc (\<Sum>v \<leftarrow> vs. Suc (cost v)) \<le> m"
  shows "arrayLoop F d m nxt acc (st n) =
    Some (acc @ seps nxt (map (canonical F) vs), st (n + length (seps nxt (map json_text vs))))"
  using assms
proof (induction vs arbitrary: n m nxt acc)
  case Nil
  then obtain m' where "m = Suc m'" by (cases m) auto
  moreover have "testNextNonWhiteSpaceChar d (st n) = (CHR '']'', st n)"
    using Nil by (intro test_at) (auto simp: isWhiteSpace_def)
  ultimately show ?case by simp
next
  case (Cons v vs)
  then obtain m' where m: "m = Suc m'" by (cases m) auto
  define k where "k = (if nxt then Suc n else n)"
  have v: "json_ok F v" "elem_ok F d v" using Cons.prems(1) by auto
  obtain c t where hd: "json_text v = c # t" "of_char c \<le> (0x7f :: nat)" "\<not> isWhiteSpace c" "c \<noteq> CHR '']''"
    using text_hd [OF v(1)] by auto
  have dk: "drop k d = json_text v @ seps True (map json_text vs) @ CHR '']'' # post"
    using Cons.prems(2) by (auto simp: k_def drop_Cons_iff split: if_splits)
  obtain e post' where e: "seps True (map json_text vs) @ CHR '']'' # post = e # post'" "e \<in> {CHR '','', CHR '']''}"
    using seps_followed [of "map json_text vs" "CHR '']''" post] by blast
  have parse: "parseElement F d m' (st k) = Some (canonical F v, st (k + length (json_text v)))"
    using v(2) dk e Cons.prems(3) m by (auto simp: elem_ok_def)
  have test: "testNextNonWhiteSpaceChar d (st n) = (if nxt then CHR '','' else c, st n)"
    using Cons.prems(2) hd by (auto intro!: test_at simp: isWhiteSpace_def)
  have comma: "nxt \<Longrightarrow> scanFor d CHR '','' (st n) = st k"
    using Cons.prems(2) by (auto simp: k_def isWhiteSpace_def intro!: scanFor_at)
  have rest: "drop (k + length (json_text v)) d = seps True (map json_text vs) @ CHR '']'' # post"
    using drop_append_eq [OF dk] .
  have loop: "arrayLoop F d m' True (acc @ (if nxt then '','' else []) @ canonical F v) (st (k + length (json_text v))) =
      Some (acc @ seps nxt (map (canonical F) (v # vs)), st (k + length (json_text v) + length (seps True (map json_text vs))))"
    using Cons.IH [OF _ rest] Cons.prems(1,3) m by simp
  show ?case
    using m test comma parse loop hd(4) by (cases nxt) (simp_all add: k_def add_ac)
qed

abbreviation key_of :: "string \<times> 'v \<Rightarrow> nat list" where
  "key_of kv \<equiv> utf16_Encode (runes (fst kv))"

definition nv_of :: "string \<times> string \<Rightarrow> nameValueType" where
  "nv_of kv = \<lparr>nv_name = fst kv, nv_sortKey = key_of kv, nv_value = snd kv\<rparr>"

lemma fold_nv_of:
  "\<lparr>nv_name = k, nv_sortKey = utf16_Encode (runes k), nv_value = v\<rparr> = nv_of (k, v)"
  by (simp add: nv_of_def)

lemma key_less_iff: "key_less xs ys \<longleftrightarrow> xs < ys"
proof (induction xs ys rule: key_less.induct)
  case (1 ys) then show ?case by (cases ys) auto
qed auto

lemma insertNameValue_insort:
  "key_of kv \<notin> key_of ` set kvs \<Longrightarrow>
     insertNameValue (nv_of kv) (map nv_of kvs) s = (map nv_of (insort_key key_of kv kvs), s)"
  by (induction kvs)
    (auto simp: lexicographicallyPrecedes_def key_less_iff nv_of_def less_le not_le split: prod.splits)

lemma sort_key_snoc: "f x \<notin> f ` set xs \<Longrightarrow> sort_key f (xs @ [x]) = insort_key f x (sort_key f xs)"
  by (induction xs) (auto simp: insort_key_left_comm)

lemma sort_keys_snoc:
  "key_of kv \<notin> key_of ` set kvs \<Longrightarrow> sort_keys (kvs @ [kv]) = insort_key key_of kv (sort_keys kvs)"
  unfolding sort_keys_def by (rule sort_key_snoc)

lemma serializeObject_seps: "serializeObject b (map nv_of kvs) = seps b (map (\<lambda>(k, v). member k v) kvs)"
  by (induction kvs arbitrary: b) (auto simp: nv_of_def member_def)

text \<open>One member: the opening quote, the key, the colon and the value.\<close>

lemma member_at:
  assumes "drop k d = member key (json_text v) @ e # post" "e \<in> {CHR '','', CHR '']'', CHR ''}''}"
    and "elem_ok F d v" "cost v \<le> m"
  shows "scanFor d CHR 0x22 (st k) = st (Suc k)"
    and "parseQuotedString d [] (st (Suc k)) = (key, st (k + length (decorateString key)))"
    and "scanFor d CHR '':'' (st (k + length (decorateString key))) = st (Suc (k + length (decorateString key)))"
    and "parseElement F d m (st (Suc (k + length (decorateString key)))) =
      Some (canonical F v, st (k + length (member key (json_text v))))"
proof -
  let ?b = "concat (map decorateByte key)"
  have d: "drop k d = CHR 0x22 # ?b @ CHR 0x22 # CHR '':'' # json_text v @ e # post"
    using assms(1) by (simp add: member_def decorateString_def)
  show "scanFor d CHR 0x22 (st k) = st (Suc k)"
    using d by (rule scanFor_at) (auto simp: isWhiteSpace_def)
  have d1: "drop (Suc k) d = ?b @ CHR 0x22 # CHR '':'' # json_text v @ e # post"
    using d by (simp add: drop_Cons_iff)
  show "parseQuotedString d [] (st (Suc k)) = (key, st (k + length (decorateString key)))"
    using parseQuotedString_at [OF d1] by (simp add: decorateString_def add_ac)
  have d2: "drop (k + length (decorateString key)) d = CHR '':'' # json_text v @ e # post"
    using drop_append_eq [of k d "decorateString key"] assms(1) by (simp add: member_def)
  then show "scanFor d CHR '':'' (st (k + length (decorateString key))) = st (Suc (k + length (decorateString key)))"
    by (rule scanFor_at) (auto simp: isWhiteSpace_def)
  have "drop (Suc (k + length (decorateString key))) d = json_text v @ e # post"
    using d2 by (simp add: drop_Cons_iff)
  then show "parseElement F d m (st (Suc (k + length (decorateString key)))) =
      Some (canonical F v, st (k + length (member key (json_text v))))"
    using assms(2-4) by (auto simp: elem_ok_def member_def add_ac)
qed

abbreviation member_text :: "string \<times> json \<Rightarrow> string" where
  "member_text kv \<equiv> member (fst kv) (json_text (snd kv))"

abbreviation canonical_member :: "strconv_float \<Rightarrow> string \<times> json \<Rightarrow> string \<times> string" where
  "canonical_member F kv \<equiv> (fst kv, canonical F (snd kv))"

lemma objectLoop_at:
  assumes "\<forall>kv \<in> set kvs. elem_ok F d (snd kv)"
    and "drop n d = seps nxt (map member_text kvs) @ CHR ''}'' # post"
    and "Suc (\<Sum>kv \<leftarrow> kvs. Suc (cost (snd kv))) \<le> m"
    and "distinct (map key_of cs @ map key_of kvs)"
  shows "objectLoop F d m nxt (map nv_of (sort_keys cs)) (st n) =
    Some (map nv_of (sort_keys (cs @ map (canonical_member F) kvs)), st (n + length (seps nxt (map member_text kvs))))"
  using assms
proof (induction kvs arbitrary: n m nxt cs)
  case Nil
  then obtain m' where "m = Suc m'" by (cases m) auto
  moreover have "testNextNonWhiteSpaceChar d (st n) = (CHR ''}'', st n)"
    using Nil by (intro test_at) (auto simp: isWhiteSpace_def)
  ultimately show ?case by simp
next
  case (Cons kv kvs)
  then obtain m' where m: "m = Suc m'" by (cases m) auto
  define k where "k = (if nxt then Suc n else n)"
  let ?c = "canonical_member F kv"
  have dk: "drop k d = member_text kv @ seps True (map member_text kvs) @ CHR ''}'' # post"
    using Cons.prems(2) by (auto simp: k_def drop_Cons_iff split: if_splits)
  obtain e post' where e: "seps True (map member_text kvs) @ CHR ''}'' # post = e # post'" "e \<in> {CHR '','', CHR ''}''}"
    using seps_followed [of "map member_text kvs" "CHR ''}''" post] by blast
  have "cost (snd kv) \<le> m'" "e \<in> {CHR '','', CHR '']'', CHR ''}''}" "elem_ok F d (snd kv)"
    using Cons.prems(1,3) m e(2) by auto
  note member = member_at [OF dk [unfolded e(1)] this(2,3,1)]
  have test: "testNextNonWhiteSpaceChar d (st n) = (if nxt then CHR '','' else CHR 0x22, st n)"
    using Cons.prems(2) by (auto intro!: test_at simp: isWhiteSpace_def member_def decorateString_def)
  have comma: "nxt \<Longrightarrow> scanFor d CHR '','' (st n) = st k"
    using Cons.prems(2) by (auto simp: k_def isWhiteSpace_def intro!: scanFor_at)
  have new: "key_of ?c \<notin> key_of ` set cs" using Cons.prems(4) by auto
  then have "key_of ?c \<notin> key_of ` set (sort_keys cs)" by (simp add: sort_keys_def)
  from insertNameValue_insort [OF this] have insert:
    "insertNameValue (nv_of ?c) (map nv_of (sort_keys cs)) s = (map nv_of (sort_keys (cs @ [?c])), s)" for s
    by (simp add: sort_keys_snoc [OF new])
  have rest: "drop (k + length (member_text kv)) d = seps True (map member_text kvs) @ CHR ''}'' # post"
    using drop_append_eq [OF dk] .
  have loop: "objectLoop F d m' True (map nv_of (sort_keys (cs @ [?c]))) (st (k + length (member_text kv))) =
      Some (map nv_of (sort_keys (cs @ map (canonical_member F) (kv # kvs))),
        st (k + length (member_text kv) + length (seps True (map member_text kvs))))"
    using Cons.IH [OF _ rest, of m' "cs @ [?c]"] Cons.prems m by simp
  show ?case
    using m test comma member insert loop by (cases nxt) (simp_all add: k_def add_ac fold_nv_of)
qed

lemma canonical_object:
  "canonical F (JObject kvs) = ''{'' @ serializeObject False (map nv_of (sort_keys (map (canonical_member F) kvs))) @ ''}''"
  by (simp add: serializeObject_seps case_prod_unfold)

lemma text_object: "json_text (JObject kvs) = ''{'' @ seps False (map member_text kvs) @ ''}''"
  by (simp add: case_prod_unfold)

lemma cost_object: "cost (JObject kvs) = 2 + (\<Sum>kv \<leftarrow> kvs. Suc (cost (snd kv)))"
  by (simp add: case_prod_unfold)

lemma parseObject_at:
  assumes "json_ok F (JObject kvs)" "\<forall>kv \<in> set kvs. elem_ok F d (snd kv)"
    and "drop n d = json_text (JObject kvs) @ post" "cost (JObject kvs) \<le> Suc m"
  shows "parseObject F d m (st (Suc n)) = Some (canonical F (JObject kvs), st (n + length (json_text (JObject kvs))))"
proof -
  let ?b = "seps False (map member_text kvs)"
  have d: "drop (Suc n) d = ?b @ CHR ''}'' # post"
    using assms(3) by (simp add: text_object drop_Cons_iff del: json_text.simps)
  have "distinct (map key_of [] @ map key_of kvs)" using assms(1) by simp
  from objectLoop_at [OF assms(2) d _ this, of m] assms(4)
  have "objectLoop F d m False [] (st (Suc n)) =
      Some (map nv_of (sort_keys (map (canonical_member F) kvs)), st (Suc n + length ?b))"
    by (simp add: cost_object sort_keys_def del: cost.simps)
  moreover have "scan d (st (Suc n + length ?b)) = (CHR ''}'', st (Suc (Suc n + length ?b)))"
    by (rule scan_at [OF drop_append_eq [OF d]]) (auto simp: isWhiteSpace_def)
  ultimately show ?thesis
    by (simp add: parseObject_def canonical_object text_object del: canonical.simps json_text.simps)
qed

lemma parseArray_at:
  assumes "json_ok F (JArray vs)" "\<forall>v \<in> set vs. elem_ok F d v"
    and "drop n d = json_text (JArray vs) @ post" "cost (JArray vs) \<le> Suc m"
  shows "parseArray F d m (st (Suc n)) = Some (canonical F (JArray vs), st (n + length (json_text (JArray vs))))"
proof -
  let ?b = "seps False (map json_text vs)"
  have d: "drop (Suc n) d = ?b @ CHR '']'' # post" using assms(3) by (simp add: drop_Cons_iff)
  have "arrayLoop F d m False ''['' (st (Suc n)) =
      Some (''['' @ seps False (map (canonical F) vs), st (Suc n + length ?b))"
    by (rule arrayLoop_at [OF _ d]) (use assms in auto)
  moreover have "scan d (st (Suc n + length ?b)) = (CHR '']'', st (Suc (Suc n + length ?b)))"
    by (rule scan_at [OF drop_append_eq [OF d]]) (auto simp: isWhiteSpace_def)
  ultimately show ?thesis by (simp add: parseArray_def)
qed

lemma parseElement_cases:
  assumes "scan d s = (c, s1)"
  shows "c = CHR ''{'' \<Longrightarrow> parseElement F d (Suc m) s = parseObject F d m s1"
    and "c = CHR ''['' \<Longrightarrow> parseElement F d (Suc m) s = parseArray F d m s1"
    and "c = CHR 0x22 \<Longrightarrow> parseElement F d (Suc m) s =
      (let (raw, s2) = parseQuotedString d [] s1 in Some (decorateString raw, s2))"
    and "c \<notin> {CHR ''{'', CHR ''['', CHR 0x22} \<Longrightarrow> parseElement F d (Suc m) s = Some (parseSimpleType F d s1)"
  using assms by (auto simp: parseObject_def parseArray_def)

lemma elem_ok_token:
  assumes "list_all token_char t" "t \<noteq> []" "hd t \<notin> {CHR ''{'', CHR ''['', CHR 0x22}"
    and "t \<notin> set literals \<Longrightarrow> number_ok F t" "json_text v = t"
    and "canonical F v = (if t \<in> set literals then t else fst (NumberToJSON F (fst (ParseFloat F t))))"
    and "0 < cost v"
  shows "elem_ok F d v"
  unfolding elem_ok_def
proof (intro allI impI)
  fix n m c post
  assume m: "cost v \<le> m" and d: "drop n d = json_text v @ c # post" and c: "c \<in> {CHR '','', CHR '']'', CHR ''}''}"
  obtain x t' where t: "t = x # t'" using assms(2) by (cases t) auto
  obtain m' where m': "m = Suc m'" using m assms(7) by (cases m) auto
  have d': "drop n d = t @ c # post" using d assms(5) by simp
  have "scan d (st n) = (x, st (Suc n))"
    using d' t assms(1) by (intro scan_at) (auto simp: token_char_def)
  from parseElement_cases(4) [OF this] assms(3) t
  have "parseElement F d m (st n) = Some (parseSimpleType F d (st (Suc n)))" by (simp add: m')
  then show "parseElement F d m (st n) = Some (canonical F v, st (n + length (json_text v)))"
    using parseSimpleType_at [OF d' assms(1) c assms(2,4)] assms(5,6) by simp
qed

lemma literal_tokens:
  "list_all token_char ''null''" "list_all token_char ''true''" "list_all token_char ''false''"
  by (simp_all add: token_char_def isWhiteSpace_def)

lemma elem_ok_string: "elem_ok F d (JString s)"
  unfolding elem_ok_def
proof (intro allI impI)
  fix n m c post
  assume m: "cost (JString s) \<le> m" and d: "drop n d = json_text (JString s) @ c # post"
  obtain m' where m': "m = Suc m'" using m by (cases m) auto
  have d0: "drop n d = CHR 0x22 # concat (map decorateByte s) @ CHR 0x22 # c # post"
    using d by (simp add: decorateString_def)
  then have "scan d (st n) = (CHR 0x22, st (Suc n))" by (rule scan_at) (auto simp: isWhiteSpace_def)
  from parseElement_cases(3) [OF this, of F m'] parseQuotedString_at [of "Suc n" d s "c # post" "[]"] d0
  show "parseElement F d m (st n) = Some (canonical F (JString s), st (n + length (json_text (JString s))))"
    by (simp add: m' drop_Cons_iff decorateString_def add_ac)
qed

lemma elem_ok_array:
  assumes "json_ok F (JArray vs)" "\<forall>v \<in> set vs. elem_ok F d v"
  shows "elem_ok F d (JArray vs)"
  unfolding elem_ok_def
proof (intro allI impI)
  fix n m c post
  assume m: "cost (JArray vs) \<le> m" and d: "drop n d = json_text (JArray vs) @ c # post"
  obtain m' where m': "m = Suc m'" using m by (cases m) auto
  have "scan d (st n) = (CHR ''['', st (Suc n))"
    using d by (intro scan_at) (auto simp: isWhiteSpace_def)
  from parseElement_cases(2) [OF this, of F m'] parseArray_at [OF assms d, of m'] m m'
  show "parseElement F d m (st n) = Some (canonical F (JArray vs), st (n + length (json_text (JArray vs))))"
    by simp
qed

lemma elem_ok_object:
  assumes "json_ok F (JObject kvs)" "\<forall>kv \<in> set kvs. elem_ok F d (snd kv)"
  shows "elem_ok F d (JObject kvs)"
  unfolding elem_ok_def
proof (intro allI impI)
  fix n m c post
  assume m: "cost (JObject kvs) \<le> m" and d: "drop n d = json_text (JObject kvs) @ c # post"
  obtain m' where m': "m = Suc m'" using m by (cases m) auto
  have "scan d (st n) = (CHR ''{'', st (Suc n))"
    using d by (intro scan_at) (auto simp: isWhiteSpace_def)
  from parseElement_cases(1) [OF this, of F m'] parseObject_at [OF assms d, of m'] m m'
  show "parseElement F d m (st n) = Some (canonical F (JObject kvs), st (n + length (json_text (JObject kvs))))"
    by (simp del: canonical.simps json_text.simps)
qed

lemma elem_ok_literals: "elem_ok F d JNull" "elem_ok F d (JBool b)"
proof -
  show "elem_ok F d JNull"
    using literal_tokens(1) by (rule elem_ok_token) (simp_all add: literals_def)
  have "elem_ok F d (JBool True)"
    using literal_tokens(2) by (rule elem_ok_token) (simp_all add: literals_def)
  moreover have "elem_ok F d (JBool False)"
    using literal_tokens(3) by (rule elem_ok_token) (simp_all add: literals_def)
  ultimately show "elem_ok F d (JBool b)" by (cases b) simp_all
qed

lemma elem_ok_json: "json_ok F v \<Longrightarrow> elem_ok F d v"
proof (induction v)
  case (JNumber t)
  then show ?case by (intro elem_ok_token [of t]) (auto simp: number_ok_def)
next
  case (JArray vs)
  then show ?case by (intro elem_ok_array) auto
next
  case (JObject kvs)
  then have "\<forall>kv \<in> set kvs. elem_ok F d (snd kv)"
    by (force simp: snds.simps)
  with JObject show ?case by (intro elem_ok_object) auto
qed (simp_all add: elem_ok_literals elem_ok_string)

lemma cost_text: "json_ok F v \<Longrightarrow> cost v < 2 * length (json_text v)"
proof (induction v)
  case (JNumber t)
  then show ?case by (cases t) (auto simp: number_ok_def)
next
  case (JString s)
  then show ?case using decorateString_length [of s] by simp
next
  case (JArray vs)
  have "(\<Sum>v \<leftarrow> vs. Suc (cost v)) \<le> (\<Sum>v \<leftarrow> vs. 2 * length (json_text v))"
    using JArray by (intro sum_list_mono) (auto simp: Suc_le_eq)
  also have "\<dots> = 2 * (\<Sum>x \<leftarrow> map json_text vs. length x)" by (simp add: sum_list_const_mult o_def)
  also have "\<dots> \<le> 2 * length (seps False (map json_text vs))" using seps_length by (intro mult_le_mono2)
  finally show ?case by simp
next
  case (JObject kvs)
  have "(\<Sum>kv \<leftarrow> kvs. Suc (cost (snd kv))) \<le> (\<Sum>kv \<leftarrow> kvs. 2 * length (member_text kv))"
    using JObject by (intro sum_list_mono) (force simp: snds.simps member_def)
  also have "\<dots> = 2 * (\<Sum>x \<leftarrow> map member_text kvs. length x)" by (simp add: sum_list_const_mult o_def)
  also have "\<dots> \<le> 2 * length (seps False (map member_text kvs))" using seps_length by (intro mult_le_mono2)
  finally show ?case by (simp add: cost_object text_object del: cost.simps json_text.simps)
qed auto

lemma trailing_end: "trailing d (st (length d)) = st (length d)"
  by (simp add: trailing.simps)

definition container :: "json \<Rightarrow> bool" where
  "container v \<longleftrightarrow> (case v of JArray _ \<Rightarrow> True | JObject _ \<Rightarrow> True | _ \<Rightarrow> False)"

lemma Transform_json_text:
  assumes "json_ok F v" "container v"
  shows "Transform F (json_text v) = (canonical F v, None)"
proof -
  let ?d = "json_text v"
  have fuel: "cost v \<le> Suc (2 * length ?d + 5)" using cost_text [OF assms(1)] by simp
  have d: "drop 0 ?d = ?d @ []" by simp
  show ?thesis
  proof (cases v)
    case (JArray vs)
    have "testNextNonWhiteSpaceChar ?d (st 0) = (CHR ''['', st 0)" "scan ?d (st 0) = (CHR ''['', st (Suc 0))"
      using JArray by (auto intro!: test_at scan_at simp: isWhiteSpace_def)
    moreover have "parseArray F ?d (2 * length ?d + 5) (st (Suc 0)) = Some (canonical F v, st (0 + length ?d))"
      using parseArray_at [of F vs ?d 0 "[]"] assms(1) JArray fuel by (auto simp: elem_ok_json)
    ultimately show ?thesis by (simp add: Transform_def transform_fuel_def trailing_end)
  next
    case (JObject kvs)
    have "testNextNonWhiteSpaceChar ?d (st 0) = (CHR ''{'', st 0)" "scanFor ?d CHR ''{'' (st 0) = st (Suc 0)"
      using JObject by (auto intro!: test_at scanFor_at simp: isWhiteSpace_def)
    moreover have "\<forall>kv \<in> set kvs. elem_ok F ?d (snd kv)" using assms(1) JObject by (fastforce intro: elem_ok_json)
    then have "parseObject F ?d (2 * length ?d + 5) (st (Suc 0)) = Some (canonical F v, st (0 + length ?d))"
      using parseObject_at [of F kvs ?d 0 "[]"] assms(1) JObject fuel
      by (simp del: canonical.simps json_text.simps cost.simps)
    ultimately show ?thesis by (simp add: Transform_def transform_fuel_def trailing_end)
  qed (use assms(2) in \<open>auto simp: container_def\<close>)
qed

subsection \<open>Canonical forms are canonical\<close>

lemma sort_keys_unique:
  assumes "set kvs = set kvs'" "distinct (map key_of kvs)" "distinct (map key_of kvs')"
  shows "sort_keys kvs = sort_keys kvs'"
proof -
  have "inj_on key_of (set kvs')" using assms(3) by (simp add: distinct_map)
  moreover have "distinct (map key_of (sort_keys kvs))" "distinct (map key_of (sort_keys kvs'))"
    using assms by (simp_all add: sort_keys_def distinct_map)
  ultimately show ?thesis
    by (intro map_sorted_distinct_set_unique [of key_of]) (simp_all add: assms(1) sort_keys_def)
qed

lemma sort_keys_map: "sort_keys (map (\<lambda>kv. (fst kv, g (snd kv))) kvs) = map (\<lambda>kv. (fst kv, g (snd kv))) (sort_keys kvs)"
proof -
  have "insort_key key_of (k, g v) (map (\<lambda>kv. (fst kv, g (snd kv))) xs) =
      map (\<lambda>kv. (fst kv, g (snd kv))) (insort_key key_of (k, v) xs)" for k v xs
    by (induction xs) auto
  then show ?thesis by (induction kvs) (auto simp: sort_keys_def)
qed

lemma canonical_member_order:
  assumes "set kvs = set kvs'" "distinct (map key_of kvs)" "distinct (map key_of kvs')"
  shows "canonical F (JObject kvs) = canonical F (JObject kvs')"
  using sort_keys_unique [OF assms]
  by (simp add: canonical_object sort_keys_map del: canonical.simps)

text \<open>The value whose text is the canonical form.\<close>

fun normal :: "strconv_float \<Rightarrow> json \<Rightarrow> json" where
  "normal F (JNumber t) = JNumber (canonical F (JNumber t))"
| "normal F (JArray vs) = JArray (map (normal F) vs)"
| "normal F (JObject kvs) = JObject (sort_keys (map (\<lambda>(k, v). (k, normal F v)) kvs))"
| "normal F v = v"

lemma text_normal: "json_text (normal F v) = canonical F v"
proof (induction v)
  case (JArray vs)
  then show ?case by (simp add: o_def cong: map_cong)
next
  case (JObject kvs)
  have v: "kv \<in> set kvs \<Longrightarrow> json_text (normal F (snd kv)) = canonical F (snd kv)" for kv
    by (rule JObject) (auto simp: snds.simps)
  have n: "sort_keys (map (\<lambda>(k, v). (k, normal F v)) kvs) = map (\<lambda>kv. (fst kv, normal F (snd kv))) (sort_keys kvs)"
    and c: "sort_keys (map (\<lambda>(k, v). (k, canonical F v)) kvs) = map (canonical_member F) (sort_keys kvs)"
    using sort_keys_map [of "normal F" kvs] sort_keys_map [of "canonical F" kvs] by (simp_all add: case_prod_unfold)
  have "map member_text (map (\<lambda>kv. (fst kv, normal F (snd kv))) (sort_keys kvs)) =
      map (\<lambda>(k, v). member k v) (map (canonical_member F) (sort_keys kvs))"
    by (simp add: sort_keys_def v)
  then show ?case
    by (simp only: normal.simps n text_object canonical.simps c)
qed simp_all

text \<open>Printing a number and reading it back gives the same text, as ES6 number formatting promises.\<close>

definition number_stable :: "strconv_float \<Rightarrow> bool" where
  "number_stable F \<longleftrightarrow> (\<forall>t. number_ok F t \<longrightarrow> number_ok F (canonical F (JNumber t)) \<and>
     canonical F (JNumber (canonical F (JNumber t))) = canonical F (JNumber t))"

lemma normal_ok: "json_ok F v \<Longrightarrow> number_stable F \<Longrightarrow> json_ok F (normal F v)"
proof (induction v)
  case (JNumber t)
  then show ?case unfolding number_stable_def normal.simps json_ok.simps by blast
next
  case (JObject kvs)
  have "json_ok F (normal F (snd kv))" if "kv \<in> set kvs" for kv
    using JObject that by (force simp: snds.simps)
  moreover have "distinct (map key_of (sort_keys kvs))" if "distinct (map key_of kvs)"
    using that by (simp add: sort_keys_def distinct_map)
  ultimately show ?case
    using JObject.prems(1) by (auto simp: case_prod_unfold sort_keys_map o_def) (auto simp: sort_keys_def)
qed simp_all

lemma canonical_normal: "json_ok F v \<Longrightarrow> number_stable F \<Longrightarrow> canonical F (normal F v) = canonical F v"
proof (induction v)
  case (JNumber t)
  then show ?case unfolding number_stable_def normal.simps json_ok.simps by blast
next
  case (JArray vs)
  then show ?case by (simp add: o_def cong: map_cong)
next
  case (JObject kvs)
  have v: "kv \<in> set kvs \<Longrightarrow> canonical F (normal F (snd kv)) = canonical F (snd kv)" for kv
    using JObject by (force simp: snds.simps)
  have "map (canonical_member F) (map (\<lambda>kv. (fst kv, normal F (snd kv))) (sort_keys kvs)) =
      map (canonical_member F) (sort_keys kvs)"
    by (simp add: v sort_keys_def)
  moreover have "sort_keys (sort_keys (map (canonical_member F) kvs)) = sort_keys (map (canonical_member F) kvs)"
    by (simp add: sort_keys_def sort_key_id_if_sorted)
  ultimately have "sort_keys (map (canonical_member F) (sort_keys (map (\<lambda>kv. (fst kv, normal F (snd kv))) kvs))) =
      sort_keys (map (canonical_member F) kvs)"
    by (simp only: sort_keys_map)
  then show ?case by (simp add: case_prod_unfold o_def)
qed simp_all

subsection \<open>Member order of arbitrary input\<close>

definition keys_sorted :: "nameValueType list \<Rightarrow> bool" where
  "keys_sorted nvs \<longleftrightarrow> sorted_wrt (<) (map nv_sortKey nvs)"

lemma insertNameValue_gerr: "gerr (snd (insertNameValue nv es s)) = None \<Longrightarrow> gerr s = None"
proof (induction es arbitrary: s)
  case (Cons e es)
  show ?case
    using Cons.prems Cons.IH [of s] Cons.IH [of "setError (''Duplicate key: '' @ nv_name e) s"]
      setError_gerr [of "''Duplicate key: '' @ nv_name e" s]
    by (auto simp: lexicographicallyPrecedes_def split: prod.splits if_splits)
qed simp

lemma insertNameValue_sorted:
  "insertNameValue nv es s = (es', s') \<Longrightarrow> gerr s' = None \<Longrightarrow> keys_sorted es \<Longrightarrow>
     keys_sorted es' \<and> set es' = insert nv (set es)"
proof (induction es arbitrary: s es' s')
  case (Cons e es)
  show ?case
  proof (cases "nv_sortKey nv < nv_sortKey e")
    case True
    have "nv_sortKey nv < nv_sortKey x" if "x \<in> set es" for x
      using order.strict_trans [OF True, of "nv_sortKey x"] that Cons.prems(3) by (simp add: keys_sorted_def)
    with True show ?thesis
      using Cons.prems by (auto simp: lexicographicallyPrecedes_def key_less_iff keys_sorted_def)
  next
    case False
    obtain es1 s1 s0 where r: "insertNameValue nv es s0 = (es1, s1)" "es' = e # es1" "s' = s1"
      "s0 = s \<or> s0 = setError (''Duplicate key: '' @ nv_name e) s"
      "nv_sortKey nv = nv_sortKey e \<longrightarrow> s0 = setError (''Duplicate key: '' @ nv_name e) s"
      using Cons.prems(1) False
      by (auto simp: lexicographicallyPrecedes_def key_less_iff split: prod.splits if_splits)
    have "gerr s0 = None" using insertNameValue_gerr [of nv es s0] r Cons.prems(2) by simp
    then have "nv_sortKey nv \<noteq> nv_sortKey e" using r(5) setError_gerr by auto
    moreover have "keys_sorted es1 \<and> set es1 = insert nv (set es)"
      using Cons.IH [OF r(1)] r(3) Cons.prems(2,3) by (auto simp: keys_sorted_def)
    ultimately show ?thesis using False r(2) Cons.prems(3) by (auto simp: keys_sorted_def)
  qed
qed (auto simp: keys_sorted_def)

lemma objectLoop_sorted:
  "objectLoop F d n nxt nvs s = Some (nvs', s') \<Longrightarrow> gerr s' = None \<Longrightarrow> keys_sorted nvs \<Longrightarrow> keys_sorted nvs'"
proof (induction n arbitrary: nxt nvs s)
  case (Suc n)
  have stop: "objectLoop F d n True es t = Some (nvs', s') \<Longrightarrow> gerr t = None" for es t
    using Suc.prems(2) by (cases n) (auto split: if_splits)
  show ?case
    using Suc.prems Suc.IH stop
    by (auto simp: Let_def split: if_splits prod.splits option.splits dest: insertNameValue_sorted)
qed simp

subsection \<open>Properties\<close>

text \<open>Number conversions for concrete inputs: every number reads as the double 100.\<close>

definition sample_float :: strconv_float where
  "sample_float = \<lparr>ParseFloat = (\<lambda>t. (0x4059000000000000, None)), FormatFloat = (\<lambda>f c p. ''100'')\<rparr>"

lemma sample_number: "NumberToJSON sample_float 0x4059000000000000 = (''100'', None)"
  by (simp add: NumberToJSON_def sample_float_def invalidPattern_def signBit_def)

lemma sample_parse: "ParseFloat sample_float t = (0x4059000000000000, None)"
  by (simp add: sample_float_def)

lemma sample_stable: "number_stable sample_float"
  by (simp add: number_stable_def number_ok_def sample_number sample_parse token_char_def
      isWhiteSpace_def literals_def)

definition sample_json :: json where
  "sample_json = JObject [(''b'', JArray [JNull, JNumber ''1e2'']), (''a'', JString ''x'')]"

lemma sample_keys: "utf16_Encode (runes ''b'') = [98]" "utf16_Encode (runes ''a'') = [97]"
  by (simp_all add: runes.simps [of "[]"] runes.simps [of "[_]"] DecodeRune_def utf16_Encode_def
      utf16_unit_def IsSurrogate_def Let_def)

lemma sample_json_ok: "json_ok sample_float sample_json"
  by (simp add: sample_json_def sample_keys number_ok_def sample_number sample_parse token_char_def
      isWhiteSpace_def literals_def)

text \<open>
  C17: the canonicalizer always returns. The recursion of \<open>parseElement\<close>, \<open>parseArray\<close> and
  \<open>parseObject\<close> ends on every input, well-formed or not: the fuel that \<open>Transform\<close> supplies is
  never used up.
\<close>

theorem transform_returns: "transform_fuel F (2 * length d + 5) d = Some (Transform F d)"
  by (rule Transform_fuel)





text \<open>
  C19: the canonical bytes of an object do not depend on the order in which its members were written.
\<close>

theorem transform_member_order:
  assumes "json_ok F (JObject kvs)" "json_ok F (JObject kvs')" "set kvs = set kvs'"
  shows "Transform F (json_text (JObject kvs)) = Transform F (json_text (JObject kvs'))"
proof -
  have "canonical F (JObject kvs) = canonical F (JObject kvs')"
    using assms by (intro canonical_member_order) auto
  then show ?thesis
    using Transform_json_text [OF assms(1)] Transform_json_text [OF assms(2)]
    by (simp add: container_def del: canonical.simps json_text.simps)
qed

theorem transform_member_order_witness:
  "Transform sample_float (json_text (JObject [(''b'', JNull), (''a'', JBool True)])) =
     Transform sample_float (json_text (JObject [(''a'', JBool True), (''b'', JNull)]))"
  by (rule transform_member_order) (auto simp: sample_keys)



end
