(* ===== verification/Encoding.thy ===== *)
theory Encoding
  imports Models CanonicalForm
begin

text \<open>
  The encodings of the standard library that the program uses: \<open>encoding/base64\<close> (the standard
  alphabet with padding) and what \<open>encoding/json\<close> prints for the structs of \<open>models.go\<close> that are
  hashed or signed. On top of them \<open>MarshalCanonical\<close> of \<open>pkg/canonicalizer\<close>.
\<close>

subsection \<open>Base64\<close>

definition b64_char :: "nat \<Rightarrow> char" where
  "b64_char n =
     (if n < 26 then char_of (65 + n) else if n < 52 then char_of (71 + n)
      else if n < 62 then char_of (n - 4) else if n = 62 then CHR ''+'' else CHR ''/'')"

definition b64_val :: "char \<Rightarrow> nat option" where
  "b64_val c =
     (let n = of_char c
      in if 65 \<le> n \<and> n \<le> 90 then Some (n - 65) else if 97 \<le> n \<and> n \<le> 122 then Some (n - 71)
         else if 48 \<le> n \<and> n \<le> 57 then Some (n + 4) else if n = 43 then Some 62
         else if n = 47 then Some 63 else None)"

fun EncodeToString :: "bytes \<Rightarrow> string" where
  "EncodeToString [] = []"
| "EncodeToString [a] =
     (let x = of_char a in [b64_char (x div 4), b64_char (x mod 4 * 16), CHR ''='', CHR ''=''])"
| "EncodeToString [a, b] =
     (let x = of_char a; y = of_char b
      in [b64_char (x div 4), b64_char (x mod 4 * 16 + y div 16), b64_char (y mod 16 * 4), CHR ''=''])"
| "EncodeToString (a # b # c # rest) =
     (let x = of_char a; y = of_char b; z = of_char c
      in b64_char (x div 4) # b64_char (x mod 4 * 16 + y div 16) #
         b64_char (y mod 16 * 4 + z div 64) # b64_char (z mod 64) # EncodeToString rest)"

text \<open>
  \<open>StdEncoding.DecodeString\<close>: carriage returns and line feeds are skipped; padding ends the text;
  the unused bits before padding are not checked.
\<close>

fun b64_decode :: "string \<Rightarrow> bytes option" where
  "b64_decode [] = Some []"
| "b64_decode [p, q, r, t] =
     (if t = CHR ''='' then
        (if r = CHR ''='' then
           (case (b64_val p, b64_val q) of
              (Some a, Some b) \<Rightarrow> Some [char_of (a * 4 + b div 16)] | _ \<Rightarrow> None)
         else
           (case (b64_val p, b64_val q, b64_val r) of
              (Some a, Some b, Some c) \<Rightarrow>
                Some [char_of (a * 4 + b div 16), char_of (b mod 16 * 16 + c div 4)]
            | _ \<Rightarrow> None))
      else
        (case (b64_val p, b64_val q, b64_val r, b64_val t) of
           (Some a, Some b, Some c, Some d) \<Rightarrow>
             Some [char_of (a * 4 + b div 16), char_of (b mod 16 * 16 + c div 4),
                   char_of (c mod 4 * 64 + d)]
         | _ \<Rightarrow> None))"
| "b64_decode (p # q # r # t # rest) =
     (case (b64_val p, b64_val q, b64_val r, b64_val t, b64_decode rest) of
        (Some a, Some b, Some c, Some d, Some tail) \<Rightarrow>
          Some (char_of (a * 4 + b div 16) # char_of (b mod 16 * 16 + c div 4) #
                char_of (c mod 4 * 64 + d) # tail)
      | _ \<Rightarrow> None)"
| "b64_decode _ = None"

definition DecodeString :: "string \<Rightarrow> err + bytes" where
  "DecodeString s =
     (case b64_decode (filter (\<lambda>c. c \<noteq> CHR 0x0D \<and> c \<noteq> CHR 0x0A) s) of
        Some b \<Rightarrow> Inr b
      | None \<Rightarrow> Inl (ErrorString ''illegal base64 data''))"

subsection \<open>JSON text of the signed structures\<close>

text \<open>\<open>encoding/json\<close> of a string, with its default HTML escaping; \<open>json_rune\<close> is one step.\<close>

definition json_rune :: "bytes \<Rightarrow> string \<times> nat" where
  "json_rune s =
     (let (r, n) = DecodeRune s
      in if r < 0x80 \<and> n = 1 then
           (if r = 0x22 \<or> r = 0x5C then [CHR 0x5C, char_of r]
            else if r = 0x0A then [CHR 0x5C, CHR ''n'']
            else if r = 0x0D then [CHR 0x5C, CHR ''r'']
            else if r = 0x09 then [CHR 0x5C, CHR ''t'']
            else if r < 0x20 \<or> r = 0x3C \<or> r = 0x3E \<or> r = 0x26 then CHR 0x5C # CHR ''u'' # hex4 r
            else [char_of r], 1)
         else if r = RuneError \<and> n \<le> 1 then (CHR 0x5C # ''ufffd'', 1)
         else if r = 0x2028 \<or> r = 0x2029 then (CHR 0x5C # CHR ''u'' # hex4 r, n)
         else (take n s, n))"

function json_escape :: "bytes \<Rightarrow> string" where
  "json_escape s =
     (if s = [] then [] else let (t, n) = json_rune s in t @ json_escape (drop (max 1 n) s))"
  by pat_completeness auto
termination
  by (relation "measure length") (auto simp: max_def)

declare json_escape.simps [simp del]

definition json_string :: "bytes \<Rightarrow> string" where
  "json_string s = [CHR 0x22] @ json_escape s @ [CHR 0x22]"

definition json_bytes :: "bytes \<Rightarrow> string" where
  "json_bytes b = [CHR 0x22] @ EncodeToString b @ [CHR 0x22]"

definition json_nullable :: "bytes option \<Rightarrow> string" where
  "json_nullable b = (case b of None \<Rightarrow> ''null'' | Some x \<Rightarrow> json_bytes x)"

definition json_object :: "(string \<times> string) list \<Rightarrow> string" where
  "json_object fs = ''{'' @ seps False (map (\<lambda>(k, v). json_string k @ '':'' @ v) fs) @ ''}''"

definition Marshal_TimestampedEntry :: "TimestampedEntry \<Rightarrow> string" where
  "Marshal_TimestampedEntry e = json_object
     [(''timestamp'', FormatUint (te_Timestamp e)), (''entry_type'', FormatUint (te_EntryType e)),
      (''vc_entry'', json_bytes (te_VCEntry e)), (''extensions'', json_nullable (te_Extensions e))]"

definition Marshal_MerkleTreeLeaf :: "MerkleTreeLeaf \<Rightarrow> string" where
  "Marshal_MerkleTreeLeaf l = json_object
     [(''version'', FormatNat (unat (mtl_Version l))), (''leaf_type'', FormatUint (mtl_LeafType l)),
      (''timestamped_entry'',
        case mtl_TimestampedEntry l of None \<Rightarrow> ''null'' | Some e \<Rightarrow> Marshal_TimestampedEntry e)]"

definition Marshal_VCTimestampSignature :: "VCTimestampSignature \<Rightarrow> string" where
  "Marshal_VCTimestampSignature v = json_object
     [(''svct_version'', FormatNat (unat (vts_SVCTVersion v))),
      (''signature_type'', FormatUint (vts_SignatureType v)),
      (''timestamp'', FormatUint (vts_Timestamp v)), (''entry_type'', FormatUint (vts_EntryType v)),
      (''vc_entry'', json_bytes (vts_VCEntry v)), (''extensions'', json_nullable (vts_Extensions v))]"

definition Marshal_TreeHeadSignature :: "TreeHeadSignature \<Rightarrow> string" where
  "Marshal_TreeHeadSignature t = json_object
     [(''version'', FormatNat (unat (ths_Version t))),
      (''signature_type'', FormatUint (ths_SignatureType t)),
      (''timestamp'', FormatUint (ths_Timestamp t)), (''tree_size'', FormatUint (ths_TreeSize t)),
      (''sha_256_root_hash'', json_bytes (ths_SHA256RootHash t))]"

definition Marshal_DigitallySigned :: "DigitallySigned \<Rightarrow> string" where
  "Marshal_DigitallySigned s = json_object
     [(''algorithm'', json_object
        [(''signature'', json_string (alg_Signature (ds_Algorithm s))),
         (''type'', json_string (alg_Type (ds_Algorithm s)))]),
      (''signature'', json_bytes (ds_Signature s))]"

text \<open>
  \<open>MarshalCanonical\<close>: a value that is already a byte slice is taken as JSON text, any other value
  is marshalled first; \<open>text\<close> is the result of that step.
\<close>

definition MarshalCanonical :: "strconv_float \<Rightarrow> err + bytes \<Rightarrow> err + bytes" where
  "MarshalCanonical F valueBytes =
     (case valueBytes of
        Inl e \<Rightarrow> Inl e
      | Inr text \<Rightarrow> (case Transform F text of (r, None) \<Rightarrow> Inr r | (_, Some e) \<Rightarrow> Inl e))"

subsection \<open>Base64 round trip\<close>

lemma b64_val_char [simp]: "n < 64 \<Longrightarrow> b64_val (b64_char n) = Some n"
  by (auto simp: b64_val_def b64_char_def Let_def)

lemma b64_char_not_pad: "n < 64 \<Longrightarrow> b64_char n \<noteq> CHR ''=''"
proof
  assume "n < 64" and "b64_char n = CHR ''=''"
  then have "b64_val CHR ''='' = Some n" using b64_val_char by metis
  then show False by (simp add: b64_val_def)
qed

lemma of_char_lt [simp]: "of_char c < (256 :: nat)"
  using range_nat_of_char by (metis atLeastLessThan_iff rangeI)

lemma b64_decode_cons4:
  assumes "t \<noteq> CHR ''=''"
  shows "b64_decode (p # q # r # t # rest) =
     (case (b64_val p, b64_val q, b64_val r, b64_val t, b64_decode rest) of
        (Some a, Some b, Some c, Some d, Some tail) \<Rightarrow>
          Some (char_of (a * 4 + b div 16) # char_of (b mod 16 * 16 + c div 4) #
                char_of (c mod 4 * 64 + d) # tail)
      | _ \<Rightarrow> None)"
  using assms by (cases rest) (auto split: option.splits)

lemma b64_bits1:
  fixes x :: nat
  shows "x < 256 \<Longrightarrow> x div 4 < 64" "x mod 4 * 16 < 64" "x mod 16 * 4 < 64"
    "x div 4 * 4 + x mod 4 * 16 div 16 = x"
  by auto

lemma b64_bits2:
  fixes x y :: nat
  shows "y < 256 \<Longrightarrow> x mod 4 * 16 + y div 16 < 64" "y < 256 \<Longrightarrow> x mod 16 * 4 + y div 64 < 64"
    "y < 256 \<Longrightarrow> x div 4 * 4 + (x mod 4 * 16 + y div 16) div 16 = x"
    "y < 256 \<Longrightarrow> (x mod 16 * 4 + y div 64) mod 4 * 64 + y mod 64 = y"
    "y < 256 \<Longrightarrow> (x mod 4 * 16 + y div 16) mod 16 * 16 + y mod 16 * 4 div 4 = y"
proof -
  assume "y < 256"
  then have y: "y div 16 < 16" and z: "y div 64 < 4" by auto
  have x: "x mod 4 < 4" "x mod 16 < 16" by auto
  show "x mod 4 * 16 + y div 16 < 64" "x mod 16 * 4 + y div 64 < 64" using x y z by linarith+
  show "x div 4 * 4 + (x mod 4 * 16 + y div 16) div 16 = x" using y by simp
  show "(x mod 16 * 4 + y div 64) mod 4 * 64 + y mod 64 = y" using z by simp
  show "(x mod 4 * 16 + y div 16) mod 16 * 16 + y mod 16 * 4 div 4 = y" using y by simp
qed

lemma b64_bits3:
  fixes x y z :: nat
  assumes "y < 256" "z < 256"
  shows "(x mod 4 * 16 + y div 16) mod 16 * 16 + (y mod 16 * 4 + z div 64) div 4 = y"
proof -
  have "y div 16 < 16" "z div 64 < 4" using assms by auto
  then show ?thesis by simp
qed

lemmas b64_bits = b64_bits1 b64_bits2 b64_bits3

lemma of_char_divs:
  "of_char c div 16 div 16 = (0 :: nat)" "of_char c div 16 mod 16 = (of_char c div 16 :: nat)"
  "of_char c div 64 div 4 = (0 :: nat)" "of_char c div 64 mod 4 = (of_char c div 64 :: nat)"
proof -
  have "of_char c div 16 < (16 :: nat)" "of_char c div 64 < (4 :: nat)"
    using of_char_lt [of c] by linarith+
  then show "of_char c div 16 div 16 = (0 :: nat)" "of_char c div 16 mod 16 = (of_char c div 16 :: nat)"
    "of_char c div 64 div 4 = (0 :: nat)" "of_char c div 64 mod 4 = (of_char c div 64 :: nat)"
    by (simp_all only: div_less mod_less)
qed

lemma b64_decode_EncodeToString: "b64_decode (EncodeToString b) = Some b"
  by (induction b rule: EncodeToString.induct)
    (simp_all add: Let_def b64_bits of_char_divs b64_char_not_pad b64_decode_cons4)

lemma b64_char_not_newline: "n < 64 \<Longrightarrow> b64_char n \<noteq> CHR 0x0D \<and> b64_char n \<noteq> CHR 0x0A"
  using b64_val_char [of n] by (auto simp: b64_val_def)

lemma EncodeToString_no_newline:
  "filter (\<lambda>c. c \<noteq> CHR 0x0D \<and> c \<noteq> CHR 0x0A) (EncodeToString b) = EncodeToString b"
  by (induction b rule: EncodeToString.induct)
    (simp_all add: Let_def b64_bits b64_char_not_newline)

lemma DecodeString_EncodeToString [simp]: "DecodeString (EncodeToString b) = Inr b"
  by (simp add: DecodeString_def EncodeToString_no_newline b64_decode_EncodeToString)

subsection \<open>The JSON values behind the marshalled structures\<close>

definition plain :: "char \<Rightarrow> bool" where
  "plain c \<longleftrightarrow> 0x20 \<le> (of_char c :: nat) \<and> of_char c < (0x7f :: nat) \<and>
     of_char c \<notin> {0x22 :: nat, 0x5C, 0x3C, 0x3E, 0x26}"

lemma escaped_not_plain: "c \<in> set binaryEscapes \<Longrightarrow> \<not> plain c"
  by (auto simp: binaryEscapes_def plain_def)

lemma decorateByte_plain:
  assumes "plain c"
  shows "decorateByte c = [c]"
proof -
  have "length binaryEscapes = length asciiEscapes" by (simp add: binaryEscapes_def asciiEscapes_def)
  then have "map_of (zip binaryEscapes asciiEscapes) c = None"
    using assms escaped_not_plain [of c] by (auto simp: map_of_zip_is_None)
  then show ?thesis using assms by (simp add: decorateByte_def plain_def)
qed

lemma decorateString_plain: "list_all plain s \<Longrightarrow> decorateString s = [CHR 0x22] @ s @ [CHR 0x22]"
  by (induction s) (auto simp: decorateString_def decorateByte_plain)

lemma json_rune_plain: "plain c \<Longrightarrow> json_rune (c # s) = ([c], 1)"
  by (auto simp: json_rune_def DecodeRune_def plain_def Let_def)

lemma json_escape_plain: "list_all plain s \<Longrightarrow> json_escape s = s"
proof (induction s)
  case (Cons c s)
  then show ?case by (subst json_escape.simps) (simp add: json_rune_plain)
qed (simp add: json_escape.simps)

lemma json_string_plain: "list_all plain s \<Longrightarrow> json_string s = decorateString s"
  by (simp add: json_string_def json_escape_plain decorateString_plain)

lemma b64_char_plain: "n < 64 \<Longrightarrow> plain (b64_char n)"
  by (auto simp: plain_def b64_char_def)

lemma EncodeToString_plain: "list_all plain (EncodeToString b)"
  by (induction b rule: EncodeToString.induct)
    (simp_all add: Let_def b64_bits b64_char_plain, simp_all add: plain_def)

lemma json_bytes_string: "json_bytes b = json_text (JString (EncodeToString b))"
  by (simp add: json_bytes_def decorateString_plain EncodeToString_plain)

definition nullable_json :: "bytes option \<Rightarrow> json" where
  "nullable_json b = (case b of None \<Rightarrow> JNull | Some x \<Rightarrow> JString (EncodeToString x))"

lemma json_nullable_text: "json_nullable b = json_text (nullable_json b)"
  by (auto simp: json_nullable_def nullable_json_def json_bytes_string split: option.splits)

lemma json_object_text:
  "list_all (\<lambda>(k, v). list_all plain k) kvs \<Longrightarrow>
     json_object (map (\<lambda>(k, v). (k, json_text v)) kvs) = json_text (JObject kvs)"
  unfolding json_object_def json_text.simps map_map o_def
  by (rule arg_cong [where f = "\<lambda>x. ''{'' @ seps False x @ ''}''"])
    (auto simp: json_string_plain member_def list_all_iff)

definition leaf_json :: "MerkleTreeLeaf \<Rightarrow> json" where
  "leaf_json l = JObject
     [(''version'', JNumber (FormatNat (unat (mtl_Version l)))),
      (''leaf_type'', JNumber (FormatUint (mtl_LeafType l))),
      (''timestamped_entry'', case mtl_TimestampedEntry l of None \<Rightarrow> JNull | Some e \<Rightarrow> JObject
        [(''timestamp'', JNumber (FormatUint (te_Timestamp e))), (''entry_type'', JNumber (FormatUint (te_EntryType e))),
         (''vc_entry'', JString (EncodeToString (te_VCEntry e))), (''extensions'', nullable_json (te_Extensions e))])]"

definition vcts_json :: "VCTimestampSignature \<Rightarrow> json" where
  "vcts_json v = JObject
     [(''svct_version'', JNumber (FormatNat (unat (vts_SVCTVersion v)))),
      (''signature_type'', JNumber (FormatUint (vts_SignatureType v))),
      (''timestamp'', JNumber (FormatUint (vts_Timestamp v))), (''entry_type'', JNumber (FormatUint (vts_EntryType v))),
      (''vc_entry'', JString (EncodeToString (vts_VCEntry v))), (''extensions'', nullable_json (vts_Extensions v))]"

definition tree_head_json :: "TreeHeadSignature \<Rightarrow> json" where
  "tree_head_json t = JObject
     [(''version'', JNumber (FormatNat (unat (ths_Version t)))),
      (''signature_type'', JNumber (FormatUint (ths_SignatureType t))),
      (''timestamp'', JNumber (FormatUint (ths_Timestamp t))), (''tree_size'', JNumber (FormatUint (ths_TreeSize t))),
      (''sha_256_root_hash'', JString (EncodeToString (ths_SHA256RootHash t)))]"

lemma Marshal_tree_head_text: "Marshal_TreeHeadSignature t = json_text (tree_head_json t)"
  unfolding Marshal_TreeHeadSignature_def tree_head_json_def json_bytes_string
  by (subst json_object_text [symmetric]) (auto simp: plain_def)

lemma Marshal_vcts_text: "Marshal_VCTimestampSignature v = json_text (vcts_json v)"
  unfolding Marshal_VCTimestampSignature_def vcts_json_def json_bytes_string json_nullable_text
  by (subst json_object_text [symmetric]) (auto simp: plain_def)

lemma Marshal_leaf_text: "Marshal_MerkleTreeLeaf l = json_text (leaf_json l)"
proof -
  have e: "Marshal_TimestampedEntry e = json_text (JObject
     [(''timestamp'', JNumber (FormatUint (te_Timestamp e))), (''entry_type'', JNumber (FormatUint (te_EntryType e))),
      (''vc_entry'', JString (EncodeToString (te_VCEntry e))), (''extensions'', nullable_json (te_Extensions e))])" for e
    unfolding Marshal_TimestampedEntry_def json_bytes_string json_nullable_text
    by (subst json_object_text [symmetric]) (auto simp: plain_def)
  show ?thesis
    unfolding Marshal_MerkleTreeLeaf_def leaf_json_def e
    by (subst json_object_text [symmetric]) (auto simp: plain_def simp del: json_text.simps(6) split: option.splits)
qed

subsection \<open>Canonical bytes of the signed structures\<close>

lemma runes_ascii: "list_all plain s \<Longrightarrow> runes s = map of_char s"
proof (induction s)
  case (Cons c s)
  then show ?case by (subst runes.simps) (simp add: DecodeRune_def plain_def Let_def)
qed (simp add: runes.simps)

lemma key_plain: "list_all plain s \<Longrightarrow> utf16_Encode (runes s) = map of_char s"
  unfolding runes_ascii utf16_Encode_def
  by (induction s) (auto simp: plain_def utf16_unit_def IsSurrogate_def)

text \<open>What \<open>strconv\<close> documents of decimal integers: \<open>ParseFloat\<close> reads them without an error.\<close>

definition integers_ok :: "strconv_float \<Rightarrow> bool" where
  "integers_ok F \<longleftrightarrow> (\<forall>n < 2 ^ 64. snd (ParseFloat F (FormatNat n)) = None \<and>
     snd (NumberToJSON F (fst (ParseFloat F (FormatNat n)))) = None)"

definition decimal :: "char \<Rightarrow> bool" where
  "decimal c \<longleftrightarrow> 48 \<le> (of_char c :: nat) \<and> of_char c \<le> (57 :: nat)"

lemma FormatNat_decimal: "list_all decimal (FormatNat n)"
proof (induction n rule: FormatNat.induct)
  case (1 n)
  have "k < 10 \<Longrightarrow> decimal (digit_char k)" for k by (simp add: decimal_def digit_char_def)
  with 1 show ?case by (cases "n < 10") (simp_all add: FormatNat.simps [of n])
qed

lemma decimal_token: "decimal c \<Longrightarrow> token_char c \<and> c \<notin> {CHR ''{'', CHR ''['', CHR 0x22, CHR ''t'', CHR ''f'', CHR ''n''}"
  by (auto simp: decimal_def token_char_def isWhiteSpace_def)

lemma number_ok_FormatNat:
  assumes "integers_ok F" "n < 2 ^ 64"
  shows "number_ok F (FormatNat n)"
proof -
  obtain c t where f: "FormatNat n = c # t" using FormatNat_nonempty by (meson neq_Nil_conv)
  have "list_all token_char (FormatNat n)"
    using FormatNat_decimal [of n] decimal_token by (auto simp: list_all_iff)
  moreover have "decimal c" using FormatNat_decimal [of n] f by simp
  then have "c \<notin> {CHR ''{'', CHR ''['', CHR 0x22, CHR ''t'', CHR ''f'', CHR ''n''}" using decimal_token by blast
  ultimately show ?thesis
    using assms f by (auto simp: number_ok_def integers_ok_def literals_def)
qed

lemma number_ok_FormatUint: "integers_ok F \<Longrightarrow> number_ok F (FormatUint w)"
  using unsigned_less [where 'a = nat, of w] by (simp add: FormatUint_def number_ok_FormatNat)

lemma number_ok_version: "integers_ok F \<Longrightarrow> number_ok F (FormatNat (unat (v :: 8 word)))"
  using unsigned_less [where 'a = nat, of v] by (intro number_ok_FormatNat) auto

lemma nullable_ok: "json_ok F (nullable_json b)"
  by (auto simp: nullable_json_def split: option.splits)

lemmas marshalled_ok = number_ok_FormatUint number_ok_version nullable_ok key_plain

lemma leaf_json_ok: "integers_ok F \<Longrightarrow> json_ok F (leaf_json l)"
  by (auto simp: leaf_json_def marshalled_ok plain_def split: option.splits)

lemma vcts_json_ok: "integers_ok F \<Longrightarrow> json_ok F (vcts_json v)"
  by (auto simp: vcts_json_def marshalled_ok plain_def)

lemma tree_head_json_ok: "integers_ok F \<Longrightarrow> json_ok F (tree_head_json t)"
  by (auto simp: tree_head_json_def marshalled_ok plain_def)

lemma MarshalCanonical_json:
  "json_ok F v \<Longrightarrow> container v \<Longrightarrow> MarshalCanonical F (Inr (json_text v)) = Inr (canonical F v)"
  by (simp add: MarshalCanonical_def Transform_json_text)

lemma MarshalCanonical_leaf:
  "integers_ok F \<Longrightarrow> MarshalCanonical F (Inr (Marshal_MerkleTreeLeaf l)) = Inr (canonical F (leaf_json l))"
  unfolding Marshal_leaf_text
  by (rule MarshalCanonical_json [OF leaf_json_ok]) (simp_all add: leaf_json_def container_def)

lemma MarshalCanonical_vcts:
  "integers_ok F \<Longrightarrow> MarshalCanonical F (Inr (Marshal_VCTimestampSignature v)) = Inr (canonical F (vcts_json v))"
  unfolding Marshal_vcts_text
  by (rule MarshalCanonical_json [OF vcts_json_ok]) (simp_all add: vcts_json_def container_def)

lemma MarshalCanonical_tree_head:
  "integers_ok F \<Longrightarrow> MarshalCanonical F (Inr (Marshal_TreeHeadSignature t)) = Inr (canonical F (tree_head_json t))"
  unfolding Marshal_tree_head_text
  by (rule MarshalCanonical_json [OF tree_head_json_ok]) (simp_all add: tree_head_json_def container_def)

lemma sample_integers: "integers_ok sample_float"
  by (simp add: integers_ok_def sample_number sample_parse)

end
