(* ===== verification/Quoting.thy ===== *)
theory Quoting
  imports Encoding
begin

text \<open>
  How a string travels from the REST layer to the commands. \<open>operation.go\<close> hands an alias over as
  \<open>fmt.Sprintf("%q", alias)\<close>, that is \<open>strconv.Quote\<close>, and the command reads it back with
  \<open>encoding/json\<close>; requests with several fields are marshalled with \<open>encoding/json\<close> on both sides.
  \<open>print\<close> is the table of printable code points above \<open>U+00FF\<close> that \<open>strconv.IsPrint\<close> consults.
\<close>

definition IsPrint :: "(nat \<Rightarrow> bool) \<Rightarrow> nat \<Rightarrow> bool" where
  "IsPrint print r =
     (if r \<le> 0xFF then (0x20 \<le> r \<and> r < 0x7F) \<or> (0xA1 \<le> r \<and> r \<noteq> 0xAD) else print r)"

definition hex_pad :: "nat \<Rightarrow> nat \<Rightarrow> string" where
  "hex_pad k n = (let h = FormatHex n in replicate (k - length h) CHR ''0'' @ h)"

definition appendEscapedRune :: "(nat \<Rightarrow> bool) \<Rightarrow> nat \<Rightarrow> string" where
  "appendEscapedRune print r =
     (if r = 0x22 \<or> r = 0x5C then [CHR 0x5C, char_of r]
      else if IsPrint print r then EncodeRune r
      else if r = 0x07 then [CHR 0x5C, CHR ''a'']
      else if r = 0x08 then [CHR 0x5C, CHR ''b'']
      else if r = 0x0C then [CHR 0x5C, CHR ''f'']
      else if r = 0x0A then [CHR 0x5C, CHR ''n'']
      else if r = 0x0D then [CHR 0x5C, CHR ''r'']
      else if r = 0x09 then [CHR 0x5C, CHR ''t'']
      else if r = 0x0B then [CHR 0x5C, CHR ''v'']
      else if r < 0x20 \<or> r = 0x7F then CHR 0x5C # CHR ''x'' # hex_pad 2 r
      else if r < 0x10000 then CHR 0x5C # CHR ''u'' # hex_pad 4 r
      else CHR 0x5C # CHR ''U'' # hex_pad 8 r)"

function quote_body :: "(nat \<Rightarrow> bool) \<Rightarrow> bytes \<Rightarrow> string" where
  "quote_body print s =
     (if s = [] then []
      else let (r, n) = DecodeRune s
           in (if n = 1 \<and> r = RuneError then CHR 0x5C # CHR ''x'' # hex_pad 2 (of_char (hd s))
               else appendEscapedRune print r) @ quote_body print (drop (max 1 n) s))"
  by pat_completeness auto
termination
  by (relation "measure (length \<circ> snd)") (auto simp: max_def)

declare quote_body.simps [simp del]

definition Quote :: "(nat \<Rightarrow> bool) \<Rightarrow> bytes \<Rightarrow> string" where
  "Quote print s = [CHR 0x22] @ quote_body print s @ [CHR 0x22]"

text \<open>
  The string literals of \<open>encoding/json\<close>. \<open>json_char\<close> reads one item of a literal (the bytes it
  stands for and how many bytes of input it takes) and refuses control characters and escapes that
  JSON does not have; broken UTF-8 and lone surrogates become \<open>U+FFFD\<close>.
\<close>

definition simple_escape :: "char \<Rightarrow> char option" where
  "simple_escape = map_of
     [(CHR 0x22, CHR 0x22), (CHR 0x5C, CHR 0x5C), (CHR ''/'', CHR ''/''), (CHR ''b'', CHR 0x08),
      (CHR ''f'', CHR 0x0C), (CHR ''n'', CHR 0x0A), (CHR ''r'', CHR 0x0D), (CHR ''t'', CHR 0x09)]"

definition getu4 :: "bytes \<Rightarrow> nat option" where
  "getu4 s =
     (if 6 \<le> length s \<and> take 2 s = [CHR 0x5C, CHR ''u''] then parse_hex 0 (take 4 (drop 2 s)) else None)"

definition json_char :: "bytes \<Rightarrow> (bytes \<times> nat) option" where
  "json_char s =
     (case s of
        [] \<Rightarrow> None
      | c # rest \<Rightarrow>
          if c = CHR 0x5C then
            (case rest of
               [] \<Rightarrow> None
             | e # _ \<Rightarrow>
                 if e = CHR ''u'' then
                   (case getu4 s of
                      None \<Rightarrow> None
                    | Some rr \<Rightarrow>
                        if IsSurrogate rr then
                          (case getu4 (drop 6 s) of
                             None \<Rightarrow> Some (EncodeRune RuneError, 6)
                           | Some rr1 \<Rightarrow>
                               let dec = utf16_DecodeRune rr rr1
                               in if dec \<noteq> RuneError then Some (EncodeRune dec, 12)
                                  else Some (EncodeRune RuneError, 6))
                        else Some (EncodeRune rr, 6))
                 else (case simple_escape e of None \<Rightarrow> None | Some b \<Rightarrow> Some ([b], 2)))
          else if of_char c < (0x20 :: nat) then None
          else (let (r, n) = DecodeRune s in Some (EncodeRune r, n)))"

function json_unescape :: "bytes \<Rightarrow> bytes option" where
  "json_unescape s =
     (case s of
        [] \<Rightarrow> None
      | c # rest \<Rightarrow>
          if c = CHR 0x22 then (if rest = [] then Some [] else None)
          else (case json_char s of
                  None \<Rightarrow> None
                | Some (b, n) \<Rightarrow>
                    (case json_unescape (drop (max 1 n) s) of None \<Rightarrow> None | Some t \<Rightarrow> Some (b @ t))))"
  by pat_completeness auto
termination
  by (relation "measure length") (auto simp: max_def)

declare json_unescape.simps [simp del]

definition json_unquote :: "bytes \<Rightarrow> bytes option" where
  "json_unquote s = (case s of c # rest \<Rightarrow> if c = CHR 0x22 then json_unescape rest else None | [] \<Rightarrow> None)"

text \<open>Broken bytes of a string as \<open>encoding/json\<close> replaces them.\<close>

definition to_valid :: "bytes \<Rightarrow> bytes" where
  "to_valid s = concat (map EncodeRune (runes s))"

subsection \<open>What comes back\<close>

lemma DecodeRune_wide:
  assumes "DecodeRune (c0 # s) = (r, n)" "2 \<le> n"
  shows "0xC2 \<le> (of_char c0 :: nat)"
  using assms by (simp add: DecodeRune_def Let_def case_prod_beta split: if_splits)

lemma DecodeRune_prefix2:
  "DecodeRune (c0 # c1 # s) = (r, 2) \<Longrightarrow> DecodeRune (c0 # c1 # t) = (r, 2)"
  by (auto simp: DecodeRune_def Let_def case_prod_beta split: if_splits list.splits)

lemma DecodeRune_prefix3:
  "DecodeRune (c0 # c1 # c2 # s) = (r, 3) \<Longrightarrow> DecodeRune (c0 # c1 # c2 # t) = (r, 3)"
  by (auto simp: DecodeRune_def Let_def case_prod_beta split: if_splits list.splits)

lemma DecodeRune_prefix4:
  "DecodeRune (c0 # c1 # c2 # c3 # s) = (r, 4) \<Longrightarrow> DecodeRune (c0 # c1 # c2 # c3 # t) = (r, 4)"
  by (auto simp: DecodeRune_def Let_def case_prod_beta split: if_splits list.splits)

lemma DecodeRune_le4: "snd (DecodeRune s) \<le> 4"
  by (simp add: DecodeRune_def Let_def case_prod_beta split: list.splits)

lemma DecodeRune_prefix:
  assumes d: "DecodeRune s = (r, n)" "2 \<le> n"
  shows "DecodeRune (take n s @ rest) = (r, n)"
proof -
  have "s \<noteq> []" using d by (auto simp: DecodeRune_def)
  then have n: "n \<le> length s" "n \<le> 4"
    using d(1) DecodeRune_width [of s] DecodeRune_le4 [of s] by (metis snd_conv)+
  obtain c0 s1 where s: "s = c0 # s1" using \<open>s \<noteq> []\<close> by (cases s) auto
  obtain c1 s2 where s1: "s1 = c1 # s2" using n(1) d(2) s by (cases s1) auto
  consider "n = 2" | "n = 3" | "n = 4" using n(2) d(2) by linarith
  then show ?thesis
  proof cases
    case 1
    have "take 2 s = [c0, c1]" using s s1 by simp
    with 1 show ?thesis using d(1) s s1 DecodeRune_prefix2 [of c0 c1 s2 r rest] by simp
  next
    case 2
    then obtain c2 s3 where "s2 = c2 # s3" using n(1) s s1 by (cases s2) auto
    moreover from this have "take 3 s = [c0, c1, c2]" using s s1 by simp
    ultimately show ?thesis using 2 d(1) s s1 DecodeRune_prefix3 [of c0 c1 c2 s3 r rest] by simp
  next
    case 3
    then obtain c2 s3 where s2: "s2 = c2 # s3" using n(1) s s1 by (cases s2) auto
    with 3 obtain c3 s4 where "s3 = c3 # s4" using n(1) s s1 by (cases s3) auto
    moreover from this have "take 4 s = [c0, c1, c2, c3]" using s s1 s2 by simp
    ultimately show ?thesis using 3 s2 d(1) s s1 DecodeRune_prefix4 [of c0 c1 c2 c3 s4 r rest] by simp
  qed
qed

lemma DecodeRune_Cons_ascii: "of_char c < (0x80 :: nat) \<Longrightarrow> DecodeRune (c # s) = (of_char c, 1)"
  by (simp add: DecodeRune_def Let_def split: prod.splits)

lemma EncodeRune_ascii: "r < 0x80 \<Longrightarrow> EncodeRune r = [char_of r]"
  by (simp add: EncodeRune_def valid_rune_def IsSurrogate_def)

lemma json_char_u:
  assumes "hex4 r = [a, b, e, f]" "parse_hex 0 [a, b, e, f] = Some r" "\<not> IsSurrogate r"
  shows "json_char (CHR 0x5C # CHR ''u'' # hex4 r @ rest) = Some (EncodeRune r, 6)"
  using assms by (simp add: json_char_def getu4_def)

lemma hex4_values:
  "hex4 0x3C = ''003c''" "hex4 0x3E = ''003e''" "hex4 0x26 = ''0026''" "hex4 0x2028 = ''2028''" "hex4 0x2029 = ''2029''"
proof -
  have "FormatHex 0x3C = ''3c''" "FormatHex 0x3E = ''3e''" "FormatHex 0x26 = ''26''"
    by (subst FormatHex.simps; simp add: FormatHex_small Let_def char_of_def bit_numeral_rec bit_0)+
  then show "hex4 0x3C = ''003c''" "hex4 0x3E = ''003e''" "hex4 0x26 = ''0026''"
    by (simp_all add: hex4_def numeral_2_eq_2)
  have "FormatHex 0x20 = ''20''" 
    by (subst FormatHex.simps; simp add: FormatHex_small Let_def char_of_def bit_numeral_rec bit_0)
  moreover have "FormatHex 0x202 = FormatHex 0x20 @ ''2''"
    by (subst FormatHex.simps; simp add: Let_def char_of_def bit_numeral_rec bit_0)
  moreover have "FormatHex 0x2028 = FormatHex 0x202 @ ''8''" "FormatHex 0x2029 = FormatHex 0x202 @ ''9''"
    by (subst FormatHex.simps; simp add: Let_def char_of_def bit_numeral_rec bit_0)+
  ultimately show "hex4 0x2028 = ''2028''" "hex4 0x2029 = ''2029''"
    by (simp_all add: hex4_def)
qed

lemma hex_val_values:
  "hex_val CHR ''0'' = Some 0" "hex_val CHR ''2'' = Some 2" "hex_val CHR ''3'' = Some 3" "hex_val CHR ''6'' = Some 6"
  "hex_val CHR ''8'' = Some 8" "hex_val CHR ''9'' = Some 9" "hex_val CHR ''c'' = Some 12" "hex_val CHR ''e'' = Some 14"
  "hex_val CHR ''f'' = Some 15" "hex_val CHR ''d'' = Some 13"
  by (simp_all add: hex_val_def)

lemma hex4_u:
  assumes "r < 0x20 \<or> r \<in> {0x3C, 0x3E, 0x26, 0x2028, 0x2029}"
  shows "\<exists>a b e f. hex4 r = [a, b, e, f] \<and> parse_hex 0 [a, b, e, f] = Some r"
proof -
  have "\<exists>a b e f. hex4 r = [a, b, e, f] \<and> parse_hex 0 [a, b, e, f] = Some r" if "r < 0x20"
    using hex4_control [OF that] by metis
  moreover have "\<exists>a b e f. hex4 r = [a, b, e, f] \<and> parse_hex 0 [a, b, e, f] = Some r"
    if "r = 0x3C \<or> r = 0x3E \<or> r = 0x26 \<or> r = 0x2028 \<or> r = 0x2029"
    using that by (elim disjE; simp only: hex4_values list.inject) (simp_all add: hex_val_values)
  ultimately show ?thesis using assms by blast
qed

lemma hex4_fffd: "getu4 (CHR 0x5C # ''ufffd'' @ rest) = Some RuneError"
  by (simp add: getu4_def hex_val_values RuneError_def)

lemma of_char_neq:
  assumes "c \<notin> {CHR 0x22, CHR 0x5C, CHR 0x0A, CHR 0x0D, CHR 0x09}"
  shows "of_char c \<noteq> (0x22 :: nat)" "of_char c \<noteq> (0x5C :: nat)" "of_char c \<noteq> (0x0A :: nat)"
    "of_char c \<noteq> (0x0D :: nat)" "of_char c \<noteq> (0x09 :: nat)"
proof -
  have "of_char CHR 0x22 = (0x22 :: nat)" "of_char CHR 0x5C = (0x5C :: nat)" "of_char CHR 0x0A = (0x0A :: nat)"
    "of_char CHR 0x0D = (0x0D :: nat)" "of_char CHR 0x09 = (0x09 :: nat)"
    by simp_all
  note k = this
  show "of_char c \<noteq> (0x22 :: nat)" using assms k(1) of_char_eq_iff [of c "CHR 0x22"] by (metis insertCI)
  show "of_char c \<noteq> (0x5C :: nat)" using assms k(2) of_char_eq_iff [of c "CHR 0x5C"] by (metis insertCI)
  show "of_char c \<noteq> (0x0A :: nat)" using assms k(3) of_char_eq_iff [of c "CHR 0x0A"] by (metis insertCI)
  show "of_char c \<noteq> (0x0D :: nat)" using assms k(4) of_char_eq_iff [of c "CHR 0x0D"] by (metis insertCI)
  show "of_char c \<noteq> (0x09 :: nat)" using assms k(5) of_char_eq_iff [of c "CHR 0x09"] by (metis insertCI)
qed

text \<open>One step of the encoder is undone by one step of the decoder.\<close>

lemma json_char_ascii:
  assumes "of_char c < (0x80 :: nat)"
  shows "\<exists>t. json_rune (c # s) = (t, 1) \<and> t \<noteq> [] \<and> hd t \<noteq> CHR 0x22 \<and>
    json_char (t @ rest) = Some (EncodeRune (of_char c), length t)"
proof -
  let ?r = "of_char c :: nat"
  have d: "DecodeRune (c # x) = (?r, 1)" for x using assms by (simp add: DecodeRune_Cons_ascii)
  have e: "EncodeRune ?r = [c]" using assms by (simp add: EncodeRune_ascii)
  let ?esc = "?r < 0x20 \<or> ?r \<in> {0x3C, 0x3E, 0x26, 0x2028, 0x2029}"
  consider (quote) "c = CHR 0x22 \<or> c = CHR 0x5C" | (nl) "c = CHR 0x0A" | (cr) "c = CHR 0x0D" | (tab) "c = CHR 0x09"
    | (u) "c \<notin> {CHR 0x22, CHR 0x5C, CHR 0x0A, CHR 0x0D, CHR 0x09}" ?esc
    | (raw) "c \<notin> {CHR 0x22, CHR 0x5C, CHR 0x0A, CHR 0x0D, CHR 0x09}" "\<not> ?esc"
    by blast
  then show ?thesis
  proof cases
    case quote
    then have "?r = 0x22 \<or> ?r = 0x5C" by auto
    then have "json_rune (c # s) = ([CHR 0x5C, char_of ?r], 1)" using d assms by (simp only: json_rune_def) simp
    then have "json_rune (c # s) = ([CHR 0x5C, c], 1)" by simp
    with quote show ?thesis using e by (elim disjE) (simp_all add: json_char_def simple_escape_def)
  next
    case nl
    then show ?thesis using e by (simp add: json_rune_def json_char_def simple_escape_def DecodeRune_Cons_ascii)
  next
    case cr
    then show ?thesis using e by (simp add: json_rune_def json_char_def simple_escape_def DecodeRune_Cons_ascii)
  next
    case tab
    then show ?thesis using e by (simp add: json_rune_def json_char_def simple_escape_def DecodeRune_Cons_ascii)
  next
    case u
    obtain a b x y where h: "hex4 ?r = [a, b, x, y]" "parse_hex 0 [a, b, x, y] = Some ?r" using hex4_u [OF u(2)] by blast
    have "json_rune (c # s) = (CHR 0x5C # CHR ''u'' # hex4 ?r, 1)"
      using u(2) assms d of_char_neq [OF u(1)] by (auto simp: json_rune_def)
    moreover have "json_char (CHR 0x5C # CHR ''u'' # hex4 ?r @ rest) = Some (EncodeRune ?r, 6)"
      using json_char_u [OF h] assms by (simp add: IsSurrogate_def)
    ultimately show ?thesis using h(1) by simp
  next
    case raw
    have "json_rune (c # s) = ([c], 1)" using raw(2) d assms of_char_neq [OF raw(1)] by (auto simp: json_rune_def)
    with raw show ?thesis using d e by (simp add: json_char_def)
  qed
qed

lemma json_char_step:
  assumes "s \<noteq> []"
  shows "\<exists>t. json_rune s = (t, snd (DecodeRune s)) \<and> t \<noteq> [] \<and> hd t \<noteq> CHR 0x22 \<and>
    json_char (t @ rest) = Some (EncodeRune (fst (DecodeRune s)), length t)"
proof -
  obtain c s' where s: "s = c # s'" using assms by (cases s) auto
  obtain r n where d: "DecodeRune s = (r, n)" by force
  show ?thesis
  proof (cases "of_char c < (0x80 :: nat)")
    case True
    then show ?thesis using json_char_ascii [OF True, of s' rest] DecodeRune_Cons_ascii [OF True, of s'] s by auto
  next
    case False
    then have big: "\<not> (r < 0x80 \<and> n = 1)" using d s
      by (auto simp: DecodeRune_def Let_def case_prod_beta RuneError_def split: list.splits if_splits)
    show ?thesis
    proof (cases "n \<le> 1")
      case True
      then have r: "r = RuneError" "n = 1" using d s False
        by (auto simp: DecodeRune_def Let_def case_prod_beta split: list.splits if_splits)
      have "json_char (CHR 0x5C # ''ufffd'' @ rest) = Some (EncodeRune RuneError, 6)"
        using hex4_fffd [of rest] by (simp add: json_char_def IsSurrogate_def RuneError_def)
      then show ?thesis using r d big by (simp add: json_rune_def RuneError_def)
    next
      case n: False
      then have take: "DecodeRune (take n s @ rest) = (r, n)" "0xC2 \<le> (of_char c :: nat)" "n \<le> length s"
        using DecodeRune_prefix [OF d] DecodeRune_wide [of c s' r n] DecodeRune_width [of s] d s by auto
      show ?thesis
      proof (cases "r = 0x2028 \<or> r = 0x2029")
        case True
        then obtain a b x y where h: "hex4 r = [a, b, x, y]" "parse_hex 0 [a, b, x, y] = Some r" using hex4_u [of r] by blast
        have "json_char (CHR 0x5C # CHR ''u'' # hex4 r @ rest) = Some (EncodeRune r, 6)"
          using json_char_u [OF h] True by (auto simp: IsSurrogate_def)
        then show ?thesis using True n d big h(1) by (auto simp: json_rune_def RuneError_def)
      next
        case False
        have c: "c \<noteq> CHR 0x22" "c \<noteq> CHR 0x5C" "\<not> of_char c < (0x20 :: nat)" using take(2) by auto
        obtain t where t: "take n s = c # t" using n s by (cases n) auto
        have "length (take n s) = n" using take(3) by simp
        then have len: "Suc (length t) = n" by (simp add: t)
        have "json_char (take n s @ rest) = Some (EncodeRune r, n)"
          using take(1) c by (simp add: json_char_def t)
        then show ?thesis using False n d big t c len by (auto simp: json_rune_def)
      qed
    qed
  qed
qed

lemma json_unescape_escape: "json_unescape (json_escape s @ [CHR 0x22]) = Some (to_valid s)"
proof (induction s rule: json_escape.induct)
  case (1 s)
  show ?case
  proof (cases "s = []")
    case True
    then show ?thesis by (simp add: json_escape.simps json_unescape.simps to_valid_def runes.simps)
  next
    case False
    obtain r n where d: "DecodeRune s = (r, n)" by force
    obtain t where t: "json_rune s = (t, n)" "t \<noteq> []" "hd t \<noteq> CHR 0x22"
      and step: "json_char (t @ json_escape (drop (max 1 n) s) @ [CHR 0x22]) = Some (EncodeRune r, length t)"
      using json_char_step [OF False, of "json_escape (drop (max 1 n) s) @ [CHR 0x22]"] d by auto
    obtain x t' where x: "t = x # t'" "x \<noteq> CHR 0x22" using t by (cases t) auto
    have esc: "json_escape s = t @ json_escape (drop (max 1 n) s)"
      using False t(1) by (subst json_escape.simps) simp
    have "json_unescape (json_escape s @ [CHR 0x22]) =
        (case json_unescape (json_escape (drop (max 1 n) s) @ [CHR 0x22]) of None \<Rightarrow> None | Some u \<Rightarrow> Some (EncodeRune r @ u))"
      unfolding esc using step x by (subst json_unescape.simps) simp
    also have "json_unescape (json_escape (drop (max 1 n) s) @ [CHR 0x22]) = Some (to_valid (drop (max 1 n) s))"
      using "1.IH" [OF False t(1) [symmetric] refl] .
    finally show ?thesis using False d by (simp add: to_valid_def runes.simps [of s])
  qed
qed

lemma json_unquote_json_string: "json_unquote (json_string s) = Some (to_valid s)"
  using json_unescape_escape [of s] by (simp add: json_unquote_def json_string_def)

lemma to_valid_utf8: "list_all valid_rune rs \<Longrightarrow> to_valid (concat (map EncodeRune rs)) = concat (map EncodeRune rs)"
  by (simp add: to_valid_def runes_encode)

definition printable :: "char \<Rightarrow> bool" where
  "printable c \<longleftrightarrow> 0x20 \<le> (of_char c :: nat) \<and> of_char c < (0x7f :: nat)"

lemma json_char_printable:
  assumes "printable c"
  shows "\<exists>t. appendEscapedRune print (of_char c) = t \<and> t \<noteq> [] \<and> hd t \<noteq> CHR 0x22 \<and>
    json_char (t @ rest) = Some ([c], length t)"
proof (cases "c = CHR 0x22 \<or> c = CHR 0x5C")
  case True
  then have "of_char c = (0x22 :: nat) \<or> of_char c = (0x5C :: nat)" by auto
  then have "appendEscapedRune print (of_char c) = [CHR 0x5C, char_of (of_char c :: nat)]"
    by (simp only: appendEscapedRune_def) simp
  then have "appendEscapedRune print (of_char c) = [CHR 0x5C, c]" by simp
  with True show ?thesis by (elim disjE) (simp_all add: json_char_def simple_escape_def)
next
  case False
  then have "c \<notin> {CHR 0x22, CHR 0x5C, CHR 0x0A, CHR 0x0D, CHR 0x09}" using assms by (auto simp: printable_def)
  then have "of_char c \<noteq> (0x22 :: nat)" "of_char c \<noteq> (0x5C :: nat)" by (simp_all add: of_char_neq)
  moreover have "EncodeRune (of_char c) = [c]" using assms by (simp add: EncodeRune_ascii printable_def)
  ultimately have "appendEscapedRune print (of_char c) = [c]"
    using assms by (simp add: appendEscapedRune_def IsPrint_def printable_def)
  then show ?thesis
    using False assms \<open>EncodeRune (of_char c) = [c]\<close>
    by (simp add: json_char_def printable_def DecodeRune_Cons_ascii)
qed

lemma json_unescape_quote: "list_all printable s \<Longrightarrow> json_unescape (quote_body print s @ [CHR 0x22]) = Some s"
proof (induction s)
  case Nil
  then show ?case by (simp add: quote_body.simps json_unescape.simps)
next
  case (Cons c s)
  let ?t = "appendEscapedRune print (of_char c)" and ?rest = "quote_body print s @ [CHR 0x22]"
  have c: "printable c" using Cons.prems by simp
  have t: "?t \<noteq> []" "hd ?t \<noteq> CHR 0x22" "json_char (?t @ ?rest) = Some ([c], length ?t)"
    using json_char_printable [OF c, of print ?rest] by auto
  have "of_char c < (0x80 :: nat)" "of_char c \<noteq> RuneError" using c by (auto simp: printable_def RuneError_def)
  then have "quote_body print (c # s) = ?t @ quote_body print s"
    by (subst quote_body.simps) (simp add: DecodeRune_Cons_ascii)
  moreover have "json_unescape (?t @ ?rest) =
      (case json_unescape (drop (max 1 (length ?t)) (?t @ ?rest)) of None \<Rightarrow> None | Some u \<Rightarrow> Some ([c] @ u))"
    using t by (subst json_unescape.simps) (cases ?t; simp)
  moreover have "drop (max 1 (length ?t)) (?t @ ?rest) = ?rest" using t(1) by (cases ?t) auto
  ultimately show ?case using Cons by simp
qed

lemma json_unquote_Quote: "list_all printable s \<Longrightarrow> json_unquote (Quote print s) = Some s"
  using json_unescape_quote [of s print] by (simp add: json_unquote_def Quote_def)

text \<open>A control character is quoted in a way that JSON does not have.\<close>

lemma json_unquote_bell: "json_unquote (Quote print [CHR 0x07]) = None"
proof -
  have "quote_body print [CHR 0x07] = [CHR 0x5C, CHR ''a'']"
    by (subst quote_body.simps) (simp add: DecodeRune_Cons_ascii quote_body.simps [of print "[]"]
        appendEscapedRune_def IsPrint_def RuneError_def)
  moreover have "json_unescape (CHR 0x5C # CHR ''a'' # [CHR 0x22]) = None"
    by (subst json_unescape.simps) (simp add: json_char_def simple_escape_def)
  ultimately show ?thesis by (simp add: json_unquote_def Quote_def)
qed

end
