(* ===== verification/Sha256.thy ===== *)
theory Sha256
  imports Prelude
begin

text \<open>
  \<open>crypto/sha256\<close>: the \<open>Sum256\<close> that the commands apply to public keys and credential entries.
\<close>

unbundle bit_operations_syntax

type_synonym u32 = "32 word"

text \<open>
  The constants by their definition: the first 32 bits of the fractional parts of the cube roots of
  the first 64 primes, and of the square roots of the first 8. \<open>bit_root k n\<close> is the integer
  \<open>k\<close>-th root of a number below \<open>2 ^ (40 * k)\<close>, bit by bit.
\<close>

definition bit_root :: "nat \<Rightarrow> nat \<Rightarrow> nat" where
  "bit_root k n = foldl (\<lambda>r b. if (r + 2 ^ b) ^ k \<le> n then r + 2 ^ b else r) 0 (rev [0..<40])"

definition small_primes :: "nat list" where
  "small_primes = filter (\<lambda>p. list_all (\<lambda>q. p mod q \<noteq> 0) [2..<p]) [2..<312]"

definition frac_root :: "nat \<Rightarrow> nat \<Rightarrow> u32" where
  "frac_root k p = of_nat (bit_root k (p * 2 ^ (32 * k)))"

definition K256 :: "u32 list" where
  "K256 = map (frac_root 3) small_primes"

definition rotr :: "nat \<Rightarrow> u32 \<Rightarrow> u32" where
  "rotr n x = drop_bit n x OR push_bit (32 - n) x"

definition be32 :: "bytes \<Rightarrow> u32" where
  "be32 b = of_nat (foldl (\<lambda>n c. n * 256 + of_char c) 0 b)"

fun chunks :: "nat \<Rightarrow> nat \<Rightarrow> 'a list \<Rightarrow> 'a list list" where
  "chunks 0 k xs = []"
| "chunks (Suc n) k xs = take k xs # chunks n k (drop k xs)"

definition put_be :: "nat \<Rightarrow> nat \<Rightarrow> bytes" where
  "put_be k n = map (\<lambda>i. char_of (n div 256 ^ (k - 1 - i) mod 256)) [0..<k]"

definition pad :: "bytes \<Rightarrow> bytes" where
  "pad m = (let n = length m
     in m @ [char_of (0x80::nat)] @ replicate ((119 - n mod 64) mod 64) (char_of (0::nat)) @
        put_be 8 (n * 8 mod 2 ^ 64))"

definition schedule_step :: "u32 list \<Rightarrow> nat \<Rightarrow> u32 list" where
  "schedule_step w i =
     (let v1 = w ! (i - 2); t1 = rotr 17 v1 XOR rotr 19 v1 XOR drop_bit 10 v1;
          v2 = w ! (i - 15); t2 = rotr 7 v2 XOR rotr 18 v2 XOR drop_bit 3 v2
      in w @ [t1 + w ! (i - 7) + t2 + w ! (i - 16)])"

definition schedule :: "bytes \<Rightarrow> u32 list" where
  "schedule p = foldl schedule_step (map be32 (chunks 16 4 p)) [16..<64]"

type_synonym digest = "u32 \<times> u32 \<times> u32 \<times> u32 \<times> u32 \<times> u32 \<times> u32 \<times> u32"

definition round :: "digest \<Rightarrow> u32 \<times> u32 \<Rightarrow> digest" where
  "round st kw = (case st of (a, b, c, d, e, f, g, h) \<Rightarrow>
     let t1 = h + (rotr 6 e XOR rotr 11 e XOR rotr 25 e) + ((e AND f) XOR (NOT e AND g)) + fst kw + snd kw;
         t2 = (rotr 2 a XOR rotr 13 a XOR rotr 22 a) + ((a AND b) XOR (a AND c) XOR (b AND c))
     in (t1 + t2, a, b, c, d + t1, e, f, g))"

definition block :: "digest \<Rightarrow> bytes \<Rightarrow> digest" where
  "block st p =
     (case (st, foldl round st (zip K256 (schedule p))) of
        ((a, b, c, d, e, f, g, h), (a', b', c', d', e', f', g', h')) \<Rightarrow>
          (a + a', b + b', c + c', d + d', e + e', f + f', g + g', h + h'))"

definition init :: digest where
  "init = (frac_root 2 2, frac_root 2 3, frac_root 2 5, frac_root 2 7,
           frac_root 2 11, frac_root 2 13, frac_root 2 17, frac_root 2 19)"

definition Sum256 :: "bytes \<Rightarrow> bytes" where
  "Sum256 m =
     (let p = pad m
      in case foldl block init (chunks (length p div 64) 64 p) of
           (a, b, c, d, e, f, g, h) \<Rightarrow> concat (map (put_be 4 \<circ> unat) [a, b, c, d, e, f, g, h]))"

lemma length_put_be [simp]: "length (put_be k n) = k"
  by (simp add: put_be_def)

lemma length_Sum256 [simp]: "length (Sum256 m) = 32"
  by (simp add: Sum256_def Let_def split: prod.splits)

end
