(* ===== verification/Command.thy ===== *)
theory Command
  imports Trillian Quoting Sha256
begin

text \<open>
  The commands of \<open>pkg/controller/command/command.go\<close>. Each handler is one definition: it takes the
  controller, the decoded request (what \<open>json.NewDecoder(r).Decode\<close> gives) and the state of the
  Trillian service, and returns the response, the error or a panic together with the new service
  state. Code outside the repository is collected in the record \<open>lib\<close>.
\<close>

type_synonym DocumentLoader = "string \<Rightarrow> err + json"

text \<open>The key handle and the DID registry are only passed on.\<close>

type_synonym KeyHandle = nat
type_synonym Registry = nat

record Credential =
  IssuerID :: string
  Proofs :: "json list"

record URL =
  Scheme :: string
  Host :: string
  Path :: string
  url_String :: string

record KeyTypes =
  ECDSAP256DER :: string
  ECDSAP256IEEEP1363 :: string
  ECDSAP384DER :: string
  ECDSAP384IEEEP1363 :: string
  ECDSAP521DER :: string
  ECDSAP521IEEEP1363 :: string
  ED25519 :: string

record lib =
  strconv :: strconv_float
  print_table :: "nat \<Rightarrow> bool"
  url_Parse :: "string \<Rightarrow> err + URL"
  Unmarshal_document :: "bytes \<Rightarrow> err + (string \<rightharpoonup> json) option"
  Unmarshal_MerkleTreeLeaf :: "bytes \<Rightarrow> err + MerkleTreeLeaf"
  Marshal_proofs :: "json list \<Rightarrow> err + bytes"
  GetCanonicalDocument :: "DocumentLoader \<Rightarrow> (string \<rightharpoonup> json) \<Rightarrow> err + bytes"
  ParseCredential :: "Registry \<Rightarrow> DocumentLoader \<Rightarrow> bytes \<Rightarrow> err + Credential"
  UnmarshalBinary :: "bytes \<Rightarrow> err + LogRootV1"
  resp_String :: "teap_response \<Rightarrow> string"
  kms :: KeyTypes

subsection \<open>The controller\<close>

record 's Log =
  ID :: int64
  Alias :: string
  Permission :: string
  Endpoint :: string
  Issuers :: "string list"
  Client :: "'s TrillianLogClient"

record Crypto =
  Sign :: "bytes \<Rightarrow> KeyHandle \<Rightarrow> err + bytes"

record KeyManager =
  kms_Get :: "string \<Rightarrow> err + KeyHandle"
  ExportPubKeyBytes :: "string \<Rightarrow> err + bytes \<times> string"

record 's Cmd =
  baseURL :: URL
  logs :: "string \<rightharpoonup> 's Log"
  VCLogID :: bytes
  kh :: KeyHandle
  vdr :: Registry
  crypto :: Crypto
  PubKey :: bytes
  alg :: SignatureAndHashAlgorithm
  loaders :: "string \<rightharpoonup> DocumentLoader"

record 's Config =
  cfg_KMS :: KeyManager
  cfg_Crypto :: Crypto
  cfg_VDR :: Registry
  cfg_Logs :: "'s Log list"
  cfg_DocumentLoaders :: "string \<rightharpoonup> DocumentLoader"
  cfg_KeyID :: string
  cfg_BaseURL :: string

datatype permission = read | "write"

definition perm_rune :: "permission \<Rightarrow> nat" where
  "perm_rune p = (case p of read \<Rightarrow> of_char CHR ''r'' | write \<Rightarrow> of_char CHR ''w'')"

definition ldProofField :: string where "ldProofField = ''proof''"
definition vctV1 :: string where "vctV1 = ''vct-v1''"
definition PublicKeyType :: string where "PublicKeyType = ''https://trustbloc.dev/ns/public-key''"
definition LedgerType :: string where "LedgerType = ''https://trustbloc.dev/ns/ledger-type''"
definition Millisecond :: uint64 where "Millisecond = 1000000"
definition maxRange :: int64 where "maxRange = 1000"

text \<open>\<open>%v\<close> of a byte slice, and Go's signed division, which truncates towards zero.\<close>

fun show_nats :: "nat list \<Rightarrow> string" where
  "show_nats [] = []"
| "show_nats [n] = FormatNat n"
| "show_nats (n # ns) = FormatNat n @ '' '' @ show_nats ns"

definition show_bytes :: "bytes \<Rightarrow> string" where
  "show_bytes b = ''['' @ show_nats (map of_char b) @ '']''"

definition sdiv64 :: "int64 \<Rightarrow> int64 \<Rightarrow> int64" where
  "sdiv64 a b = word_of_int (sgn (sint a) * sgn (sint b) * (\<bar>sint a\<bar> div \<bar>sint b\<bar>))"

definition signatureAndHashAlgorithmByKeyType :: "lib \<Rightarrow> string \<Rightarrow> err + SignatureAndHashAlgorithm" where
  "signatureAndHashAlgorithmByKeyType L keyType =
     (let k = kms L
      in if keyType = ECDSAP256DER k \<or> keyType = ECDSAP256IEEEP1363 k \<or>
            keyType = ECDSAP384DER k \<or> keyType = ECDSAP384IEEEP1363 k \<or>
            keyType = ECDSAP521DER k \<or> keyType = ECDSAP521IEEEP1363 k
         then Inr \<lparr>alg_Signature = ECDSASignature, alg_Type = keyType\<rparr>
         else if keyType = ED25519 k then Inr \<lparr>alg_Signature = EDDSASignature, alg_Type = keyType\<rparr>
         else Inl (fwrap ErrInternal (''key type '' @ keyType @ '' is not supported'')))"

definition New :: "lib \<Rightarrow> 's Config \<Rightarrow> err + 's Cmd" where
  "New L cfg =
     (case ExportPubKeyBytes (cfg_KMS cfg) (cfg_KeyID cfg) of
        Inl e \<Rightarrow> Inl (wrapf ''export pub key bytes'' e)
      | Inr (pubBytes, keyType) \<Rightarrow>
          if pubBytes = [] then Inl (ErrorString ''public key is empty'')
          else (case signatureAndHashAlgorithmByKeyType L keyType of
            Inl _ \<Rightarrow> Inl (ErrorString (''key type '' @ keyType @ '' is not supported''))
          | Inr a \<Rightarrow> (case kms_Get (cfg_KMS cfg) (cfg_KeyID cfg) of
              Inl e \<Rightarrow> Inl (wrapf ''kms get kh'' e)
            | Inr h \<Rightarrow> (case url_Parse L (cfg_BaseURL cfg) of
                Inl e \<Rightarrow> Inl (wrapf ''invalid base URL'' e)
              | Inr u \<Rightarrow>
                  Inr \<lparr>baseURL = u, logs = foldl (\<lambda>m l. m(Alias l \<mapsto> l)) Map.empty (cfg_Logs cfg),
                       VCLogID = Sum256 pubBytes, kh = h, vdr = cfg_VDR cfg,
                       crypto = cfg_Crypto cfg, PubKey = pubBytes, alg = a,
                       loaders = cfg_DocumentLoaders cfg\<rparr>))))"

definition hasPermissions :: "lib \<Rightarrow> 's Cmd \<Rightarrow> string \<Rightarrow> permission \<Rightarrow> err option" where
  "hasPermissions L c alias perm =
     (case logs c alias of
        None \<Rightarrow> Some (NewNotFoundError (ErrorString
          (''alias '' @ Quote (print_table L) alias @ '' is not supported'')))
      | Some log \<Rightarrow>
          if perm_rune perm \<in> set (runes (Permission log)) then None
          else Some (NewUnauthorizedError (ErrorString
            (''action forbidden for '' @ Quote (print_table L) alias))))"

fun contains :: "string list \<Rightarrow> string \<Rightarrow> bool" where
  "contains [] e = False"
| "contains (x # xs) e = (x = e \<or> contains xs e)"

subsection \<open>Leaves and signatures\<close>

text \<open>Decoding \<open>null\<close> leaves the map nil, and the assignment to it panics.\<close>

definition CreateLeaf :: "lib \<Rightarrow> uint64 \<Rightarrow> bytes \<Rightarrow> DocumentLoader \<Rightarrow> MerkleTreeLeaf outcome" where
  "CreateLeaf L timestamp vcBytes loader =
     (case Unmarshal_document L vcBytes of
        Inl e \<Rightarrow> Fail (wrapf ''unmarshal VC to document'' e)
      | Inr None \<Rightarrow> Panic
      | Inr (Some vcDoc) \<Rightarrow>
          (case GetCanonicalDocument L loader (vcDoc(ldProofField \<mapsto> JNull)) of
             Inl e \<Rightarrow> Fail (wrapf ''marshal canonical'' e)
           | Inr canonicalBytes \<Rightarrow>
               Ok \<lparr>mtl_Version = V1, mtl_LeafType = TimestampedEntryLeafType,
                   mtl_TimestampedEntry = Some \<lparr>te_Timestamp = timestamp, te_EntryType = VCLogEntryType,
                     te_VCEntry = canonicalBytes, te_Extensions = None\<rparr>\<rparr>))"

definition CreateVCTimestampSignature :: "MerkleTreeLeaf \<Rightarrow> VCTimestampSignature outcome" where
  "CreateVCTimestampSignature leaf =
     (case mtl_TimestampedEntry leaf of
        None \<Rightarrow> Panic
      | Some e \<Rightarrow> Ok \<lparr>vts_SVCTVersion = V1, vts_SignatureType = VCTimestampSignatureType,
          vts_Timestamp = te_Timestamp e, vts_EntryType = te_EntryType e,
          vts_VCEntry = te_VCEntry e, vts_Extensions = te_Extensions e\<rparr>)"

definition signV1VCTS :: "lib \<Rightarrow> 's Cmd \<Rightarrow> MerkleTreeLeaf \<Rightarrow> DigitallySigned outcome" where
  "signV1VCTS L c leaf =
     (case CreateVCTimestampSignature leaf of
        Panic \<Rightarrow> Panic
      | Fail e \<Rightarrow> Fail e
      | Ok vcts \<Rightarrow>
          (case MarshalCanonical (strconv L) (Inr (Marshal_VCTimestampSignature vcts)) of
             Inl e \<Rightarrow> Fail (wrapf ''marshal VCTimestampSignature'' e)
           | Inr data \<Rightarrow>
               (case Sign (crypto c) data (kh c) of
                  Inl e \<Rightarrow> Fail (wrapf ''sign TreeHeadSignature'' e)
                | Inr signature \<Rightarrow> Ok \<lparr>ds_Algorithm = alg c, ds_Signature = signature\<rparr>)))"

definition treeHeadOf :: "LogRootV1 \<Rightarrow> TreeHeadSignature" where
  "treeHeadOf root =
     \<lparr>ths_Version = V1, ths_SignatureType = TreeHeadSignatureType,
      ths_Timestamp = TimestampNanos root div Millisecond, ths_TreeSize = TreeSize root,
      ths_SHA256RootHash = RootHash root\<rparr>"

definition signV1TreeHead :: "lib \<Rightarrow> 's Cmd \<Rightarrow> LogRootV1 \<Rightarrow> err + DigitallySigned" where
  "signV1TreeHead L c root =
     (case MarshalCanonical (strconv L) (Inr (Marshal_TreeHeadSignature (treeHeadOf root))) of
        Inl e \<Rightarrow> Inl (wrapf ''marshal TreeHeadSignature'' e)
      | Inr sthBytes \<Rightarrow>
          (case Sign (crypto c) sthBytes (kh c) of
             Inl e \<Rightarrow> Inl (wrapf ''sign TreeHeadSignature'' e)
           | Inr signature \<Rightarrow> Inr \<lparr>ds_Algorithm = alg c, ds_Signature = signature\<rparr>))"

subsection \<open>The handlers\<close>

definition GetIssuers :: "lib \<Rightarrow> 's Cmd \<Rightarrow> err + string \<Rightarrow> string list outcome" where
  "GetIssuers L c decoded =
     (case decoded of
        Inl _ \<Rightarrow> Fail (fwrap ErrInternal ''decode alias failed'')
      | Inr alias \<Rightarrow>
          (case hasPermissions L c alias read of
             Some e \<Rightarrow> Fail (wrapf ''has permissions'' e)
           | None \<Rightarrow> Ok (case logs c alias of None \<Rightarrow> [] | Some log \<Rightarrow> Issuers log)))"

definition Webfinger :: "lib \<Rightarrow> 's Cmd \<Rightarrow> err + string \<Rightarrow> WebFingerResponse outcome" where
  "Webfinger L c decoded =
     (case decoded of
        Inl _ \<Rightarrow> Fail (fwrap ErrInternal ''decode resource ID failed'')
      | Inr resourceID \<Rightarrow>
          if resourceID = [] then Fail (NewBadRequestError (ErrorString ''resource is required''))
          else (case url_Parse L resourceID of
            Inl _ \<Rightarrow> Fail (NewBadRequestError (ErrorString ''invalid resource URI <nil>''))
          | Inr uri \<Rightarrow>
              if Host uri \<noteq> Host (baseURL c) then
                Fail (NewNotFoundError (ErrorString
                  (''resource not found '' @ Quote (print_table L) (url_String uri))))
              else if length (Path uri) \<le> 1 then
                Fail (NewNotFoundError (ErrorString ''ledger ID is required''))
              else (let ledgerID = tl (Path uri)
                in case logs c ledgerID of
                     None \<Rightarrow> Fail (NewNotFoundError (ErrorString
                       (''ledger ID not found '' @ Quote (print_table L) ledgerID)))
                   | Some _ \<Rightarrow>
                       Ok \<lparr>wf_Subject = resourceID,
                           wf_Properties = [PublicKeyType \<mapsto> wf_bytes (PubKey c), LedgerType \<mapsto> wf_string vctV1],
                           wf_Links = [\<lparr>wfl_Rel = ''self'', wfl_Type = [], wfl_Href = resourceID\<rparr>]\<rparr>)))"

text \<open>
  \<open>AddVC\<close> in the three parts of its body: what is refused before anything is built, the leaf that
  is sent to the service, and the answer built from the leaf that the service says it has queued.
\<close>

definition AddVC_checks ::
  "lib \<Rightarrow> 's Cmd \<Rightarrow> AddVCRequest \<Rightarrow> err + 's Log \<times> DocumentLoader \<times> Credential" where
  "AddVC_checks L c req =
     (case hasPermissions L c (av_Alias req) write of
        Some e \<Rightarrow> Inl (wrapf ''has permissions'' e)
      | None \<Rightarrow>
          (case loaders c (av_Alias req) of
             None \<Rightarrow> Inl (ErrorString (''no document loader found for alias '' @ av_Alias req))
           | Some loader \<Rightarrow>
               (case ParseCredential L (vdr c) loader (av_VCEntry req) of
                  Inl e \<Rightarrow> Inl (NewBadRequestError (wrapf ''parse credential'' e))
                | Inr vc \<Rightarrow>
                    let log = the (logs c (av_Alias req))
                    in if Issuers log \<noteq> [] \<and> \<not> contains (Issuers log) (IssuerID vc) then
                         Inl (fwrap ErrBadRequest (''issuer '' @ IssuerID vc @ '' is not in a list''))
                       else Inr (log, loader, vc))))"

definition AddVC_leaf ::
  "lib \<Rightarrow> int64 \<Rightarrow> AddVCRequest \<Rightarrow> DocumentLoader \<Rightarrow> Credential \<Rightarrow> LogLeaf outcome" where
  "AddVC_leaf L now req loader vc =
     (case CreateLeaf L (sdiv64 now Millisecond) (av_VCEntry req) loader of
        Panic \<Rightarrow> Panic
      | Fail e \<Rightarrow> Fail (wrapf ''create leaf'' e)
      | Ok leaf \<Rightarrow>
          (case MarshalCanonical (strconv L) (Inr (Marshal_MerkleTreeLeaf leaf)) of
             Inl e \<Rightarrow> Fail (NewStatusInternalServerError (wrapf ''marshal MerkleTreeLeaf'' e))
           | Inr leafData \<Rightarrow>
               (case (if Proofs vc = [] then Inr []
                      else MarshalCanonical (strconv L) (Marshal_proofs L (Proofs vc))) of
                  Inl e \<Rightarrow> Fail (NewStatusInternalServerError (wrapf ''marshal credential proofs'' e))
                | Inr extraData \<Rightarrow>
                    (case mtl_TimestampedEntry leaf of
                       None \<Rightarrow> Panic
                     | Some te \<Rightarrow> Ok (emptyLogLeaf\<lparr>LeafValue := leafData, ll_ExtraData := extraData,
                         LeafIdentityHash := Sum256 (te_VCEntry te)\<rparr>)))))"

definition AddVC_response :: "lib \<Rightarrow> 's Cmd \<Rightarrow> QueuedLogLeaf option \<Rightarrow> AddVCResponse outcome" where
  "AddVC_response L c resp =
     (case resp of
        None \<Rightarrow> Fail (fwrap ErrInternal ''no leaf'')
      | Some q \<Rightarrow>
          (case ql_Leaf q of
             None \<Rightarrow> Panic
           | Some leaf \<Rightarrow>
               (case Unmarshal_MerkleTreeLeaf L (LeafValue leaf) of
                  Inl e \<Rightarrow> Fail (NewStatusInternalServerError (wrapf ''failed to reconstruct MerkleTreeLeaf'' e))
                | Inr loggedLeaf \<Rightarrow>
                    (case signV1VCTS L c loggedLeaf of
                       Panic \<Rightarrow> Panic
                     | Fail e \<Rightarrow> Fail (wrapf ''sign V1 VCTS'' e)
                     | Ok sct \<Rightarrow>
                         (case mtl_TimestampedEntry loggedLeaf of
                            None \<Rightarrow> Panic
                          | Some te \<Rightarrow>
                              Ok \<lparr>avr_SVCTVersion = V1, avr_ID = VCLogID c, avr_Timestamp = te_Timestamp te,
                                  avr_Extensions = EncodeToString (case te_Extensions te of None \<Rightarrow> [] | Some x \<Rightarrow> x),
                                  avr_Signature = Marshal_DigitallySigned sct\<rparr>)))))"

definition AddVC ::
  "lib \<Rightarrow> 's Cmd \<Rightarrow> int64 \<Rightarrow> err + AddVCRequest \<Rightarrow> 's \<Rightarrow> AddVCResponse outcome \<times> 's" where
  "AddVC L c now decoded s =
     (case decoded of
        Inl _ \<Rightarrow> (Fail (wrapf ''decode AddVC request'' ErrInternal), s)
      | Inr req \<Rightarrow>
          (case AddVC_checks L c req of
             Inl e \<Rightarrow> (Fail e, s)
           | Inr (log, loader, vc) \<Rightarrow>
               (case AddVC_leaf L now req loader vc of
                  Panic \<Rightarrow> (Panic, s)
                | Fail e \<Rightarrow> (Fail e, s)
                | Ok leaf \<Rightarrow>
                    (case rpc_QueueLeaf (Client log) \<lparr>ql_LogId = ID log, qlr_Leaf = leaf\<rparr> s of
                       (Inl e, s') \<Rightarrow> (Fail (wrapf ''queue leaf'' e), s')
                     | (Inr resp, s') \<Rightarrow> (AddVC_response L c resp, s')))))"

definition GetSTH :: "lib \<Rightarrow> 's Cmd \<Rightarrow> err + string \<Rightarrow> 's \<Rightarrow> GetSTHResponse outcome \<times> 's" where
  "GetSTH L c decoded s =
     (case decoded of
        Inl _ \<Rightarrow> (Fail (fwrap ErrInternal ''decode alias failed''), s)
      | Inr alias \<Rightarrow>
          (case hasPermissions L c alias read of
             Some e \<Rightarrow> (Fail (wrapf ''has permissions'' e), s)
           | None \<Rightarrow>
               (let log = the (logs c alias)
                in case rpc_GetLatestSignedLogRoot (Client log) (ID log) s of
                  (Inl e, s') \<Rightarrow> (Fail (wrapf ''get latest signed log root'' e), s')
                | (Inr resp, s') \<Rightarrow>
                    (case lr_SignedLogRoot resp of
                       None \<Rightarrow> (Fail (fwrap ErrInternal ''no signed log root returned''), s')
                     | Some b \<Rightarrow>
                         (case UnmarshalBinary L b of
                            Inl e \<Rightarrow> (Fail (wrapf ''unmarshal binary'' e), s')
                          | Inr root \<Rightarrow>
                              (case signV1TreeHead L c root of
                                 Inl e \<Rightarrow> (Fail (wrapf ''sign tree head (v1)'' e), s')
                               | Inr ths \<Rightarrow>
                                   (Ok \<lparr>sth_TreeSize = TreeSize root,
                                        sth_Timestamp = TimestampNanos root div Millisecond,
                                        sth_SHA256RootHash = RootHash root,
                                        sth_TreeHeadSignature = Marshal_DigitallySigned ths\<rparr>, s')))))))"

text \<open>
  \<open>GetEntries\<close>: the range is cut to \<open>maxRange\<close> entries with the wrap-around of \<open>int64\<close>, and the
  leaves of the answer are checked one by one.
\<close>

definition clampEnd :: "GetEntriesRequest \<Rightarrow> GetEntriesRequest" where
  "clampEnd r =
     (if maxRange <s ge_End r - ge_Start r + 1 then r\<lparr>ge_End := ge_Start r + maxRange - 1\<rparr> else r)"

definition range_str :: "GetEntriesRequest \<Rightarrow> string" where
  "range_str r = ''['' @ FormatInt (ge_Start r) @ '','' @ FormatInt (ge_End r) @ '']''"

fun checkLeafIndexes :: "GetEntriesRequest \<Rightarrow> nat \<Rightarrow> LogLeaf list \<Rightarrow> err option" where
  "checkLeafIndexes r i [] = None"
| "checkLeafIndexes r i (leaf # rest) =
     (if LeafIndex leaf \<noteq> ge_Start r + of_nat i then
        Some (fwrap ErrInternal (''unexpected leaf index: rsp.Leaves['' @ FormatNat i @ ''].LeafIndex='' @
          FormatInt (LeafIndex leaf) @ '' for range '' @ range_str r))
      else checkLeafIndexes r (Suc i) rest)"

definition GetEntries_response ::
  "lib \<Rightarrow> GetEntriesRequest \<Rightarrow> int64 \<Rightarrow> GetLeavesByRangeResponse \<Rightarrow> GetEntriesResponse outcome" where
  "GetEntries_response L r n resp =
     (case UnmarshalBinary L (GetLogRoot (lbr_SignedLogRoot resp)) of
        Inl _ \<Rightarrow> Fail (fwrap ErrInternal (''unmarshal binary: '' @ show_bytes (GetLogRoot (lbr_SignedLogRoot resp))))
      | Inr currentRoot \<Rightarrow>
          if TreeSize currentRoot \<le> ge_Start r then
            Fail (fwrap ErrInternal (''need tree size: '' @ FormatInt (ge_Start r + 1) @
              '' to get leaves but only got: '' @ FormatUint (TreeSize currentRoot)))
          else if sint n < int (length (Leaves resp)) then
            Fail (fwrap ErrInternal (''too many leaves: got '' @ FormatNat (length (Leaves resp)) @
              '' in range '' @ range_str r))
          else (case checkLeafIndexes r 0 (Leaves resp) of
                  Some e \<Rightarrow> Fail e
                | None \<Rightarrow>
                    Ok \<lparr>Entries = map (\<lambda>leaf. \<lparr>LeafInput = LeafValue leaf, ExtraData = ll_ExtraData leaf\<rparr>)
                          (Leaves resp)\<rparr>))"

definition GetEntries ::
  "lib \<Rightarrow> 's Cmd \<Rightarrow> err + GetEntriesRequest option \<Rightarrow> 's \<Rightarrow> GetEntriesResponse outcome \<times> 's" where
  "GetEntries L c decoded s =
     (case decoded of
        Inl e \<Rightarrow> (Fail (wrapf ''decode GetEntries request'' e), s)
      | Inr request \<Rightarrow>
          (case GetEntriesRequest_Validate request of
             Some e \<Rightarrow> (Fail (wrapf ''validate GetEntries request'' e), s)
           | None \<Rightarrow>
               (let r = the request
                in case hasPermissions L c (ge_Alias r) read of
                  Some e \<Rightarrow> (Fail (wrapf ''has permissions'' e), s)
                | None \<Rightarrow>
                    (let log = the (logs c (ge_Alias r)); r' = clampEnd r;
                         n = ge_End r' + 1 - ge_Start r'
                     in case rpc_GetLeavesByRange (Client log)
                               \<lparr>lbr_LogId = ID log, StartIndex = ge_Start r', Count = n\<rparr> s of
                          (Inl e, s') \<Rightarrow> (Fail (wrapf ''get leaves by range'' e), s')
                        | (Inr resp, s') \<Rightarrow> (GetEntries_response L r' n resp, s')))))"

definition GetEntryAndProof_response ::
  "lib \<Rightarrow> GetEntryAndProofRequest \<Rightarrow> teap_response \<Rightarrow> GetEntryAndProofResponse outcome" where
  "GetEntryAndProof_response L r resp =
     (case UnmarshalBinary L (GetLogRoot (teap_SignedLogRoot resp)) of
        Inl _ \<Rightarrow> Fail (fwrap ErrInternal (''unmarshal binary: '' @ show_bytes (GetLogRoot (teap_SignedLogRoot resp))))
      | Inr currentRoot \<Rightarrow>
          if TreeSize currentRoot < eap_TreeSize r then
            Fail (fwrap ErrBadRequest (''need tree size: '' @ FormatInt (eap_TreeSize r) @
              '' for proof, got: '' @ FormatUint (TreeSize currentRoot)))
          else (case (teap_Leaf resp, teap_Proof resp) of
                  (Some leaf, Some proof) \<Rightarrow>
                    if LeafValue leaf = [] then
                      Fail (fwrap ErrInternal (''corrupted data received: '' @ resp_String L resp))
                    else if 1 <s eap_TreeSize r \<and> Hashes proof = [] then
                      Fail (fwrap ErrInternal (''no proof: '' @ resp_String L resp))
                    else Ok \<lparr>eapr_LeafInput = LeafValue leaf, eapr_ExtraData = ll_ExtraData leaf,
                             eapr_AuditPath = Hashes proof\<rparr>
                | _ \<Rightarrow> Fail (fwrap ErrInternal (''corrupted data received: '' @ resp_String L resp))))"

definition GetEntryAndProof ::
  "lib \<Rightarrow> 's Cmd \<Rightarrow> err + GetEntryAndProofRequest option \<Rightarrow> 's \<Rightarrow> GetEntryAndProofResponse outcome \<times> 's" where
  "GetEntryAndProof L c decoded s =
     (case decoded of
        Inl e \<Rightarrow> (Fail (wrapf ''decode GetEntryAndProof request'' e), s)
      | Inr request \<Rightarrow>
          (case GetEntryAndProofRequest_Validate request of
             Some e \<Rightarrow> (Fail (wrapf ''validate GetEntryAndProof request'' e), s)
           | None \<Rightarrow>
               (let r = the request
                in case hasPermissions L c (eap_Alias r) read of
                  Some e \<Rightarrow> (Fail (wrapf ''has permissions'' e), s)
                | None \<Rightarrow>
                    (let log = the (logs c (eap_Alias r))
                     in case rpc_GetEntryAndProof (Client log)
                               \<lparr>teap_LogId = ID log, teap_LeafIndex = eap_LeafIndex r,
                                teap_TreeSize = eap_TreeSize r\<rparr> s of
                          (Inl e, s') \<Rightarrow> (Fail (wrapf ''get entry and proof'' e), s')
                        | (Inr resp, s') \<Rightarrow> (GetEntryAndProof_response L r resp, s')))))"

definition GetProofByHash_response ::
  "lib \<Rightarrow> GetProofByHashRequest \<Rightarrow> GetInclusionProofByHashResponse \<Rightarrow> GetProofByHashResponse outcome" where
  "GetProofByHash_response L r resp =
     (case UnmarshalBinary L (GetLogRoot (iph_SignedLogRoot resp)) of
        Inl _ \<Rightarrow> Fail (fwrap ErrInternal (''unmarshal binary: '' @ show_bytes (GetLogRoot (iph_SignedLogRoot resp))))
      | Inr currentRoot \<Rightarrow>
          if TreeSize currentRoot < pbh_TreeSize r then
            Fail (fwrap ErrNotFound (''got tree size: '' @ FormatUint (TreeSize currentRoot) @
              '' but we expected: '' @ FormatInt (pbh_TreeSize r)))
          else (case iph_Proof resp of
                  [] \<Rightarrow> Fail (fwrap ErrNotFound ''no proof'')
                | p # _ \<Rightarrow> Ok \<lparr>pbhr_LeafIndex = prf_LeafIndex p, pbhr_AuditPath = Hashes p\<rparr>))"

definition GetProofByHash ::
  "lib \<Rightarrow> 's Cmd \<Rightarrow> err + GetProofByHashRequest option \<Rightarrow> 's \<Rightarrow> GetProofByHashResponse outcome \<times> 's" where
  "GetProofByHash L c decoded s =
     (case decoded of
        Inl e \<Rightarrow> (Fail (wrapf ''decode GetProofByHash request'' e), s)
      | Inr request \<Rightarrow>
          (case GetProofByHashRequest_Validate request of
             Some e \<Rightarrow> (Fail (wrapf ''validate GetProofByHash request'' e), s)
           | None \<Rightarrow>
               (let r = the request
                in case hasPermissions L c (pbh_Alias r) read of
                  Some e \<Rightarrow> (Fail (wrapf ''has permissions'' e), s)
                | None \<Rightarrow>
                    (case DecodeString (pbh_Hash r) of
                       Inl e \<Rightarrow> (Fail (NewBadRequestError (wrapf ''invalid base64 hash'' e)), s)
                     | Inr leafHash \<Rightarrow>
                         (let log = the (logs c (pbh_Alias r))
                          in case rpc_GetInclusionProofByHash (Client log)
                                    \<lparr>iph_LogId = ID log, iph_LeafHash = leafHash,
                                     iph_TreeSize = pbh_TreeSize r, iph_OrderBySequence = True\<rparr> s of
                               (Inl e, s') \<Rightarrow> (Fail (wrapf ''get leaves by range'' e), s')
                             | (Inr resp, s') \<Rightarrow> (GetProofByHash_response L r resp, s'))))))"

definition GetSTHConsistency_response ::
  "lib \<Rightarrow> GetSTHConsistencyRequest \<Rightarrow> GetConsistencyProofResponse \<Rightarrow> GetSTHConsistencyResponse outcome" where
  "GetSTHConsistency_response L r resp =
     (case UnmarshalBinary L (GetLogRoot (cp_SignedLogRoot resp)) of
        Inl _ \<Rightarrow> Fail (fwrap ErrInternal (''unmarshal binary: '' @ show_bytes (GetLogRoot (cp_SignedLogRoot resp))))
      | Inr root \<Rightarrow>
          if TreeSize root < sc_SecondTreeSize r then
            Fail (fwrap ErrValidation (''need tree size: '' @ FormatInt (sc_SecondTreeSize r) @
              '' for proof but only got: '' @ FormatUint (TreeSize root)))
          else Ok \<lparr>Consistency = GetHashes (cp_Proof resp)\<rparr>)"

definition GetSTHConsistency ::
  "lib \<Rightarrow> 's Cmd \<Rightarrow> err + GetSTHConsistencyRequest option \<Rightarrow> 's \<Rightarrow> GetSTHConsistencyResponse outcome \<times> 's" where
  "GetSTHConsistency L c decoded s =
     (case decoded of
        Inl e \<Rightarrow> (Fail (wrapf ''decode GetSTHConsistency request'' e), s)
      | Inr request \<Rightarrow>
          (case GetSTHConsistencyRequest_Validate request of
             Some e \<Rightarrow> (Fail (wrapf ''validate GetSTHConsistency request'' e), s)
           | None \<Rightarrow>
               (let r = the request
                in case hasPermissions L c (sc_Alias r) read of
                  Some e \<Rightarrow> (Fail (wrapf ''has permissions'' e), s)
                | None \<Rightarrow>
                    if sc_FirstTreeSize r = 0 then (Ok \<lparr>Consistency = []\<rparr>, s)
                    else (let log = the (logs c (sc_Alias r))
                     in case rpc_GetConsistencyProof (Client log)
                               \<lparr>cp_LogId = ID log, cp_FirstTreeSize = sc_FirstTreeSize r,
                                cp_SecondTreeSize = sc_SecondTreeSize r\<rparr> s of
                          (Inl e, s') \<Rightarrow> (Fail (wrapf ''get consistency proof'' e), s')
                        | (Inr resp, s') \<Rightarrow> (GetSTHConsistency_response L r resp, s')))))"

end
