(* ===== verification/CommandProps.thy ===== *)
theory CommandProps
  imports Command
begin

text \<open>
  What the commands promise: who may call them, that a refused call leaves the log service alone, and
  what a successful answer says.
\<close>

named_theorems cmd_defs

declare AddVC_def [cmd_defs] AddVC_checks_def [cmd_defs] GetSTH_def [cmd_defs]
  GetEntries_def [cmd_defs] GetEntryAndProof_def [cmd_defs] GetProofByHash_def [cmd_defs]
  GetSTHConsistency_def [cmd_defs]

subsection \<open>Permissions\<close>

lemma hasPermissions_None:
  "hasPermissions L c a p = None \<longleftrightarrow>
     (\<exists>log. logs c a = Some log \<and> perm_rune p \<in> set (runes (Permission log)))"
  by (auto simp: hasPermissions_def split: option.splits)

lemma hasPermissions_status:
  assumes "FromError_spec fe" "hasPermissions L c a p = Some e"
  shows "StatusCodeFromError fe e = (if logs c a = None then 404 else 401)"
  using assms by (auto simp: hasPermissions_def status_simps http_status_defs split: option.splits if_splits)

text \<open>The RPCs that a command may use keep a property of the service.\<close>

definition keeps :: "permission \<Rightarrow> 's TrillianLogClient \<Rightarrow> ('s \<Rightarrow> bool) \<Rightarrow> bool" where
  "keeps p cl P \<longleftrightarrow> (\<forall>t. P t \<longrightarrow> (case p of
     write \<Rightarrow> \<forall>q. P (snd (rpc_QueueLeaf cl q t))
   | read \<Rightarrow> (\<forall>q. P (snd (rpc_GetLatestSignedLogRoot cl q t))) \<and> (\<forall>q. P (snd (rpc_GetLeavesByRange cl q t))) \<and>
       (\<forall>q. P (snd (rpc_GetEntryAndProof cl q t))) \<and> (\<forall>q. P (snd (rpc_GetInclusionProofByHash cl q t))) \<and>
       (\<forall>q. P (snd (rpc_GetConsistencyProof cl q t)))))"

lemma keeps_write: "keeps write cl P \<Longrightarrow> P t \<Longrightarrow> P (snd (rpc_QueueLeaf cl q t))"
  by (simp add: keeps_def)

lemma keeps_read:
  assumes "keeps read cl P" "P t"
  shows "P (snd (rpc_GetLatestSignedLogRoot cl q1 t))" "P (snd (rpc_GetLeavesByRange cl q2 t))"
    "P (snd (rpc_GetEntryAndProof cl q3 t))" "P (snd (rpc_GetInclusionProofByHash cl q4 t))"
    "P (snd (rpc_GetConsistencyProof cl q5 t))"
  using assms by (simp_all add: keeps_def)

text \<open>
  The contract that the handlers share: \<open>accepts\<close> says which decoded requests pass validation and
  for which log, \<open>perm\<close> is the permission that log must grant.
\<close>

locale guarded =
  fixes handler :: "lib \<Rightarrow> 's Cmd \<Rightarrow> err + 'req \<Rightarrow> 's \<Rightarrow> 'resp outcome \<times> 's"
    and accepts :: "'req \<Rightarrow> string option"
    and perm :: permission
  assumes undecoded: "\<exists>e. handler L c (Inl e') s = (Fail e, s)"
    and invalid: "accepts req = None \<Longrightarrow>
      \<exists>e. handler L c (Inr req) s = (Fail e, s) \<and> (\<forall>fe. FromError_spec fe \<longrightarrow> StatusCodeFromError fe e = 400)"
    and denied: "accepts req = Some a \<Longrightarrow> hasPermissions L c a perm = Some e \<Longrightarrow>
      handler L c (Inr req) s = (Fail (wrapf ''has permissions'' e), s)"
    and own_client: "accepts req = Some a \<Longrightarrow> logs c a = Some log \<Longrightarrow> keeps perm (Client log) P \<Longrightarrow>
      P s \<Longrightarrow> P (snd (handler L c (Inr req) s))"
begin

lemma unauthorised:
  assumes "accepts req = Some a" "\<nexists>log. logs c a = Some log \<and> perm_rune perm \<in> set (runes (Permission log))"
    and "FromError_spec fe"
  shows "\<exists>e. handler L c (Inr req) s = (Fail e, s) \<and>
    StatusCodeFromError fe e = (if logs c a = None then 404 else 401)"
proof -
  obtain e where e: "hasPermissions L c a perm = Some e"
    using assms(2) hasPermissions_None [of L c a perm] by (cases "hasPermissions L c a perm") auto
  show ?thesis
    using denied [OF assms(1) e, of s] hasPermissions_status [OF assms(3) e]
    by (simp add: status_simps assms(3))
qed

lemma authorised:
  assumes "handler L c d s = (r, s')" "(\<exists>x. r = Ok x) \<or> r = Panic \<or> s' \<noteq> s"
  shows "\<exists>req a log. d = Inr req \<and> accepts req = Some a \<and> logs c a = Some log \<and>
    perm_rune perm \<in> set (runes (Permission log))"
proof (cases d)
  case (Inl e') then show ?thesis using undecoded [of L c e' s] assms by auto
next
  case (Inr req)
  obtain a where a: "accepts req = Some a"
    using invalid [of req L c s] Inr assms by (cases "accepts req") auto
  have "hasPermissions L c a perm = None"
    using denied [OF a, of L c _ s] Inr assms by (cases "hasPermissions L c a perm") auto
  then show ?thesis using Inr a by (auto simp: hasPermissions_None)
qed

text \<open>A command leaves alone whatever the client of the one log it is for leaves alone.\<close>

lemma frame:
  assumes "\<And>req a log. d = Inr req \<Longrightarrow> accepts req = Some a \<Longrightarrow> logs c a = Some log \<Longrightarrow> keeps perm (Client log) P"
    and "P s"
  shows "P (snd (handler L c d s))"
proof (cases "snd (handler L c d s) = s")
  case True then show ?thesis using assms(2) by simp
next
  case False
  then obtain req a log where "d = Inr req" "accepts req = Some a" "logs c a = Some log"
    using authorised [of L c d s "fst (handler L c d s)" "snd (handler L c d s)"] by auto
  with assms own_client show ?thesis by blast
qed

end

text \<open>Which requests pass validation, and for which log.\<close>

definition accepts_AddVC :: "AddVCRequest \<Rightarrow> string option" where
  "accepts_AddVC r = Some (av_Alias r)"

definition accepts_entries :: "GetEntriesRequest option \<Rightarrow> string option" where
  "accepts_entries r = (if GetEntriesRequest_Validate r = None then map_option ge_Alias r else None)"

definition accepts_entry_proof :: "GetEntryAndProofRequest option \<Rightarrow> string option" where
  "accepts_entry_proof r =
     (if GetEntryAndProofRequest_Validate r = None then map_option eap_Alias r else None)"

definition accepts_proof_hash :: "GetProofByHashRequest option \<Rightarrow> string option" where
  "accepts_proof_hash r =
     (if GetProofByHashRequest_Validate r = None then map_option pbh_Alias r else None)"

definition accepts_consistency :: "GetSTHConsistencyRequest option \<Rightarrow> string option" where
  "accepts_consistency r =
     (if GetSTHConsistencyRequest_Validate r = None then map_option sc_Alias r else None)"

lemma AddVC_own_client:
  assumes "logs c (av_Alias req) = Some log" "keeps write (Client log) P" "P s"
  shows "P (snd (AddVC L c now (Inr req) s))"
  using assms(1) keeps_write [OF assms(2,3)]
  by (auto simp: cmd_defs Let_def assms(3) split: option.splits sum.splits outcome.splits prod.splits) (metis snd_conv)+

lemma GetSTH_own_client:
  assumes "logs c a = Some log" "keeps read (Client log) P" "P s"
  shows "P (snd (GetSTH L c (Inr a) s))"
  using assms(1) keeps_read(1) [OF assms(2,3)]
  by (auto simp: GetSTH_def Let_def assms(3) split: option.splits sum.splits prod.splits) (metis snd_conv)+

lemma GetEntries_own_client:
  assumes "logs c (ge_Alias r) = Some log" "keeps read (Client log) P" "P s"
  shows "P (snd (GetEntries L c (Inr (Some r)) s))"
  using assms(1) keeps_read(2) [OF assms(2,3)]
  by (auto simp: GetEntries_def Let_def assms(3) split: option.splits sum.splits prod.splits) (metis snd_conv)+

lemma GetEntryAndProof_own_client:
  assumes "logs c (eap_Alias r) = Some log" "keeps read (Client log) P" "P s"
  shows "P (snd (GetEntryAndProof L c (Inr (Some r)) s))"
  using assms(1) keeps_read(3) [OF assms(2,3)]
  by (auto simp: GetEntryAndProof_def Let_def assms(3) split: option.splits sum.splits prod.splits) (metis snd_conv)+

lemma GetProofByHash_own_client:
  assumes "logs c (pbh_Alias r) = Some log" "keeps read (Client log) P" "P s"
  shows "P (snd (GetProofByHash L c (Inr (Some r)) s))"
  using assms(1) keeps_read(4) [OF assms(2,3)]
  by (auto simp: GetProofByHash_def Let_def assms(3) split: option.splits sum.splits prod.splits) (metis snd_conv)+

lemma GetSTHConsistency_own_client:
  assumes "logs c (sc_Alias r) = Some log" "keeps read (Client log) P" "P s"
  shows "P (snd (GetSTHConsistency L c (Inr (Some r)) s))"
  using assms(1) keeps_read(5) [OF assms(2,3)]
  by (auto simp: GetSTHConsistency_def Let_def assms(3) split: option.splits sum.splits prod.splits) (metis snd_conv)+

lemma invalid_fails:
  "GetEntriesRequest_Validate r1 \<noteq> None \<Longrightarrow>
     \<exists>e. GetEntries L c (Inr r1) s = (Fail e, s) \<and> (\<forall>fe. FromError_spec fe \<longrightarrow> StatusCodeFromError fe e = 400)"
  "GetEntryAndProofRequest_Validate r2 \<noteq> None \<Longrightarrow>
     \<exists>e. GetEntryAndProof L c (Inr r2) s = (Fail e, s) \<and> (\<forall>fe. FromError_spec fe \<longrightarrow> StatusCodeFromError fe e = 400)"
  "GetProofByHashRequest_Validate r3 \<noteq> None \<Longrightarrow>
     \<exists>e. GetProofByHash L c (Inr r3) s = (Fail e, s) \<and> (\<forall>fe. FromError_spec fe \<longrightarrow> StatusCodeFromError fe e = 400)"
  "GetSTHConsistencyRequest_Validate r4 \<noteq> None \<Longrightarrow>
     \<exists>e. GetSTHConsistency L c (Inr r4) s = (Fail e, s) \<and> (\<forall>fe. FromError_spec fe \<longrightarrow> StatusCodeFromError fe e = 400)"
  by (auto simp: cmd_defs status_wrapf Validate_status)

lemma accepts_Some:
  "accepts_entries q1 = Some a \<longleftrightarrow> (\<exists>r. q1 = Some r \<and> GetEntriesRequest_Validate q1 = None \<and> a = ge_Alias r)"
  "accepts_entry_proof q2 = Some a \<longleftrightarrow>
     (\<exists>r. q2 = Some r \<and> GetEntryAndProofRequest_Validate q2 = None \<and> a = eap_Alias r)"
  "accepts_proof_hash q3 = Some a \<longleftrightarrow>
     (\<exists>r. q3 = Some r \<and> GetProofByHashRequest_Validate q3 = None \<and> a = pbh_Alias r)"
  "accepts_consistency q4 = Some a \<longleftrightarrow>
     (\<exists>r. q4 = Some r \<and> GetSTHConsistencyRequest_Validate q4 = None \<and> a = sc_Alias r)"
  by (auto simp: accepts_entries_def accepts_entry_proof_def accepts_proof_hash_def accepts_consistency_def)

lemma accepts_None:
  "accepts_entries q1 = None \<longleftrightarrow> GetEntriesRequest_Validate q1 \<noteq> None"
  "accepts_entry_proof q2 = None \<longleftrightarrow> GetEntryAndProofRequest_Validate q2 \<noteq> None"
  "accepts_proof_hash q3 = None \<longleftrightarrow> GetProofByHashRequest_Validate q3 \<noteq> None"
  "accepts_consistency q4 = None \<longleftrightarrow> GetSTHConsistencyRequest_Validate q4 \<noteq> None"
  by (auto simp: accepts_entries_def accepts_entry_proof_def accepts_proof_hash_def
      accepts_consistency_def Validate_None)

interpretation add_vc: guarded "\<lambda>L c. AddVC L c now" accepts_AddVC "write" for now
proof (unfold_locales, goal_cases)
  case 1 then show ?case by (simp add: AddVC_def)
next
  case 2 then show ?case by (simp add: accepts_AddVC_def)
next
  case 3 then show ?case by (simp add: accepts_AddVC_def cmd_defs)
next
  case 4 then show ?case by (auto simp: accepts_AddVC_def intro: AddVC_own_client)
qed

interpretation get_sth: guarded GetSTH Some read
proof (unfold_locales, goal_cases)
  case 1 then show ?case by (simp add: GetSTH_def)
next
  case 2 then show ?case by simp
next
  case 3 then show ?case by (simp add: GetSTH_def)
next
  case 4 then show ?case by (auto intro: GetSTH_own_client)
qed

interpretation get_entries: guarded GetEntries accepts_entries read
proof (unfold_locales, goal_cases)
  case 1 then show ?case by (simp add: GetEntries_def)
next
  case 2 then show ?case by (auto simp: accepts_None invalid_fails)
next
  case 3 then show ?case by (auto simp: accepts_Some GetEntries_def)
next
  case 4 then show ?case by (auto simp: accepts_Some intro: GetEntries_own_client)
qed

interpretation get_entry_and_proof: guarded GetEntryAndProof accepts_entry_proof read
proof (unfold_locales, goal_cases)
  case 1 then show ?case by (simp add: GetEntryAndProof_def)
next
  case 2 then show ?case by (auto simp: accepts_None invalid_fails)
next
  case 3 then show ?case by (auto simp: accepts_Some GetEntryAndProof_def)
next
  case 4 then show ?case by (auto simp: accepts_Some intro: GetEntryAndProof_own_client)
qed

interpretation get_proof_by_hash: guarded GetProofByHash accepts_proof_hash read
proof (unfold_locales, goal_cases)
  case 1 then show ?case by (simp add: GetProofByHash_def)
next
  case 2 then show ?case by (auto simp: accepts_None invalid_fails)
next
  case 3 then show ?case by (auto simp: accepts_Some GetProofByHash_def)
next
  case 4 then show ?case by (auto simp: accepts_Some intro: GetProofByHash_own_client)
qed

interpretation get_sth_consistency: guarded GetSTHConsistency accepts_consistency read
proof (unfold_locales, goal_cases)
  case 1 then show ?case by (simp add: GetSTHConsistency_def)
next
  case 2 then show ?case by (auto simp: accepts_None invalid_fails)
next
  case 3 then show ?case by (auto simp: accepts_Some GetSTHConsistency_def)
next
  case 4 then show ?case by (auto simp: accepts_Some intro: GetSTHConsistency_own_client)
qed

subsection \<open>Ranges of entries\<close>

lemma range_wraps_iff:
  assumes "0 \<le> sint a" "sint a \<le> sint (b :: int64)"
  shows "sint (b - a + 1) = (if sint b - sint a = 2 ^ 63 - 1 then - (2 ^ 63) else sint b - sint a + 1)"
proof -
  have r: "sint b < 2 ^ 63" using sint_range64 [of b] by simp
  have "sint (b - a) = sint b - sint a" using assms r by (simp add: sint_sub64)
  moreover have "sint (x + 1) = - (2 ^ 63)" if "sint x = 2 ^ 63 - 1" for x :: int64
  proof -
    have "x = word_of_int (2 ^ 63 - 1)" using that by (metis of_int_sint scast_id)
    then show ?thesis by simp
  qed
  ultimately show ?thesis using assms r by (auto simp: sint_add64)
qed

lemma clampEnd_simps [simp]: "ge_Start (clampEnd r) = ge_Start r" "ge_Alias (clampEnd r) = ge_Alias r"
  by (simp_all add: clampEnd_def)

lemma clampEnd_count:
  assumes "0 \<le> sint (ge_Start r)" "sint (ge_Start r) \<le> sint (ge_End r)"
  defines "n \<equiv> ge_End (clampEnd r) + 1 - ge_Start r"
  shows "sint n = (if sint (ge_End r) - sint (ge_Start r) = 2 ^ 63 - 1 then - (2 ^ 63)
    else min 1000 (sint (ge_End r) - sint (ge_Start r) + 1))"
proof -
  have swap: "ge_End r' + 1 - ge_Start r = ge_End r' - ge_Start r + 1" for r' by simp
  have m: "sint maxRange = 1000" by (simp add: maxRange_def)
  have "ge_Start r + maxRange - 1 + 1 - ge_Start r = maxRange" by simp
  then show ?thesis
    using range_wraps_iff [OF assms(1,2)] assms(1,2) m
    by (auto simp: n_def clampEnd_def sless_sint swap)
qed

lemma checkLeafIndexes_None:
  "checkLeafIndexes r i ls = None \<longleftrightarrow> (\<forall>k < length ls. LeafIndex (ls ! k) = ge_Start r + of_nat (i + k))"
proof (induction ls arbitrary: i)
  case (Cons l ls)
  show ?case
    by (auto simp: Cons.IH nth_Cons split: nat.splits)
qed simp

lemma GetEntries_response_Ok:
  assumes "GetEntries_response L r n resp = Ok a"
  shows "int (length (Entries a)) \<le> sint n"
    and "Entries a = map (\<lambda>leaf. \<lparr>LeafInput = LeafValue leaf, ExtraData = ll_ExtraData leaf\<rparr>) (Leaves resp)"
    and "\<forall>k < length (Leaves resp). LeafIndex (Leaves resp ! k) = ge_Start r + of_nat k"
    and "\<exists>root. UnmarshalBinary L (GetLogRoot (lbr_SignedLogRoot resp)) = Inr root \<and> ge_Start r < TreeSize root"
  using assms
  by (auto simp: GetEntries_response_def checkLeafIndexes_None not_le split: sum.splits if_splits option.splits)

text \<open>The tree sizes of a request and of a root are compared as unsigned numbers.\<close>

lemma covers_iff:
  assumes "0 \<le> sint (b :: int64)"
  shows "b \<le> (a :: uint64) \<longleftrightarrow> sint b \<le> int (unat a)"
  using assms by (simp add: word_le_nat_alt unat_of_sint_nonneg nat_le_iff)

subsection \<open>Properties\<close>

text \<open>When a log grants a permission, and what a refusal for lack of it looks like.\<close>

definition granted :: "'s Cmd \<Rightarrow> string \<Rightarrow> permission \<Rightarrow> bool" where
  "granted c a p = (case logs c a of None \<Rightarrow> False | Some log \<Rightarrow> perm_rune p \<in> set (runes (Permission log)))"

lemma granted_iff: "granted c a p \<longleftrightarrow> (\<exists>log. logs c a = Some log \<and> perm_rune p \<in> set (runes (Permission log)))"
  by (simp add: granted_def split: option.splits)

definition refused :: "(err \<Rightarrow> rpc_code option) \<Rightarrow> 's Cmd \<Rightarrow> string \<Rightarrow> 's \<Rightarrow> 'r outcome \<times> 's \<Rightarrow> bool" where
  "refused fe c a s r \<longleftrightarrow>
     (\<exists>e. r = (Fail e, s) \<and> StatusCodeFromError fe e = (if logs c a = None then 404 else 401))"

text \<open>A service and libraries for concrete inputs; the service counts the leaves it has queued.\<close>

definition sample_client :: "nat TrillianLogClient" where
  "sample_client = \<lparr>
     rpc_QueueLeaf = (\<lambda>q n. (Inr (Some \<lparr>ql_Leaf = Some (qlr_Leaf q), ql_Status = None\<rparr>), Suc n)),
     rpc_GetLatestSignedLogRoot = (\<lambda>i n. (Inr \<lparr>lr_SignedLogRoot = Some []\<rparr>, n)),
     rpc_GetLeavesByRange = (\<lambda>q n. (Inr \<lparr>Leaves = [emptyLogLeaf\<lparr>LeafIndex := StartIndex q, LeafValue := ''v''\<rparr>],
       lbr_SignedLogRoot = Some []\<rparr>, n)),
     rpc_GetEntryAndProof = (\<lambda>q n. (Inr \<lparr>teap_Proof = Some \<lparr>prf_LeafIndex = teap_LeafIndex q, Hashes = [''h'']\<rparr>,
       teap_Leaf = Some (emptyLogLeaf\<lparr>LeafValue := ''v''\<rparr>), teap_SignedLogRoot = Some []\<rparr>, n)),
     rpc_GetInclusionProofByHash = (\<lambda>q n. (Inr \<lparr>iph_Proof = [\<lparr>prf_LeafIndex = 3, Hashes = [iph_LeafHash q]\<rparr>],
       iph_SignedLogRoot = Some []\<rparr>, n)),
     rpc_GetConsistencyProof = (\<lambda>q n. (Inr \<lparr>cp_Proof = Some \<lparr>prf_LeafIndex = 0, Hashes = [''h'']\<rparr>,
       cp_SignedLogRoot = Some []\<rparr>, n))\<rparr>"

definition sample_leaf :: MerkleTreeLeaf where
  "sample_leaf = \<lparr>mtl_Version = V1, mtl_LeafType = TimestampedEntryLeafType, mtl_TimestampedEntry =
     Some \<lparr>te_Timestamp = 5, te_EntryType = VCLogEntryType, te_VCEntry = ''doc'', te_Extensions = None\<rparr>\<rparr>"

definition sample_lib :: lib where
  "sample_lib = \<lparr>strconv = sample_float, print_table = (\<lambda>_. False),
     url_Parse = (\<lambda>u. Inr \<lparr>Scheme = ''https'', Host = ''vct.example'', Path = ''/maple'', url_String = u\<rparr>),
     Unmarshal_document = (\<lambda>b. Inr (Some [''id'' \<mapsto> JString b])),
     Unmarshal_MerkleTreeLeaf = (\<lambda>b. Inr sample_leaf), Marshal_proofs = (\<lambda>p. Inr ''[]''),
     GetCanonicalDocument = (\<lambda>l d. Inr ''doc''),
     ParseCredential = (\<lambda>r l b. if b = [] then Inl (ErrorString ''empty'') else Inr \<lparr>IssuerID = ''did:ex'', Proofs = []\<rparr>),
     UnmarshalBinary = (\<lambda>b. Inr \<lparr>TreeSize = 9, RootHash = ''root'', TimestampNanos = 7000000, Revision = 0, Metadata = []\<rparr>),
     resp_String = (\<lambda>r. []), kms = \<lparr>ECDSAP256DER = ''a'', ECDSAP256IEEEP1363 = ''b'', ECDSAP384DER = ''c'',
       ECDSAP384IEEEP1363 = ''d'', ECDSAP521DER = ''e'', ECDSAP521IEEEP1363 = ''f'', ED25519 = ''g''\<rparr>\<rparr>"

definition sample_log :: "string \<Rightarrow> nat Log" where
  "sample_log p = \<lparr>ID = 1, Alias = ''maple'', Permission = p, Endpoint = [], Issuers = [''did:ex''], Client = sample_client\<rparr>"

definition sample_cmd :: "string \<Rightarrow> nat Cmd" where
  "sample_cmd p = \<lparr>baseURL = \<lparr>Scheme = ''https'', Host = ''vct.example'', Path = [], url_String = []\<rparr>,
     logs = [''maple'' \<mapsto> sample_log p], VCLogID = Sum256 ''pub'', kh = 0, vdr = 0,
     crypto = \<lparr>Sign = (\<lambda>m k. Inr m)\<rparr>, PubKey = ''pub'', alg = \<lparr>alg_Signature = ECDSASignature, alg_Type = ''a''\<rparr>,
     loaders = [''maple'' \<mapsto> (\<lambda>u. Inr JNull)]\<rparr>"

lemma sample_runes: "runes ''r'' = [114]" "runes ''rw'' = [114, 119]"
  by (simp_all add: runes.simps [of "_ # _"] runes.simps [of "[]"] DecodeRune_def)

lemma sample_lib_sel:
  "strconv sample_lib = sample_float"
  "url_Parse sample_lib u = Inr \<lparr>Scheme = ''https'', Host = ''vct.example'', Path = ''/maple'', url_String = u\<rparr>"
  "Unmarshal_document sample_lib b = Inr (Some [''id'' \<mapsto> JString b])"
  "Unmarshal_MerkleTreeLeaf sample_lib b = Inr sample_leaf"
  "GetCanonicalDocument sample_lib l d = Inr ''doc''"
  "ParseCredential sample_lib r l b =
     (if b = [] then Inl (ErrorString ''empty'') else Inr \<lparr>IssuerID = ''did:ex'', Proofs = []\<rparr>)"
  "UnmarshalBinary sample_lib b =
     Inr \<lparr>TreeSize = 9, RootHash = ''root'', TimestampNanos = 7000000, Revision = 0, Metadata = []\<rparr>"
  by (simp_all add: sample_lib_def)

lemma sample_cmd_sel:
  "logs (sample_cmd p) = [''maple'' \<mapsto> sample_log p]" "kh (sample_cmd p) = 0" "PubKey (sample_cmd p) = ''pub''"
  "VCLogID (sample_cmd p) = Sum256 ''pub''" "Sign (crypto (sample_cmd p)) m k = Inr m"
  "alg (sample_cmd p) = \<lparr>alg_Signature = ECDSASignature, alg_Type = ''a''\<rparr>"
  "loaders (sample_cmd p) = [''maple'' \<mapsto> (\<lambda>u. Inr JNull)]"
  "Host (baseURL (sample_cmd p)) = ''vct.example''" "vdr (sample_cmd p) = 0"
  by (simp_all add: sample_cmd_def)

lemmas sample_defs = sample_lib_sel sample_cmd_sel sample_log_def sample_client_def sample_runes
  perm_rune_def granted_def

text \<open>
  C4: \<open>AddVC\<close> refuses, and does not touch the log service, unless the request could be decoded, its log
  is configured and grants write permission, a document loader exists for it, the credential parses
  (which includes the verification of its proofs), and its issuer is one of the issuers of the log,
  where the log lists any.
\<close>

theorem AddVC_refused:
  assumes "\<not> (\<exists>req log loader vc. decoded = Inr req \<and> logs c (av_Alias req) = Some log \<and>
      perm_rune write \<in> set (runes (Permission log)) \<and> loaders c (av_Alias req) = Some loader \<and>
      ParseCredential L (vdr c) loader (av_VCEntry req) = Inr vc \<and>
      (Issuers log = [] \<or> IssuerID vc \<in> set (Issuers log)))"
  shows "\<exists>e. AddVC L c now decoded s = (Fail e, s)"
proof -
  have contains_iff: "contains xs x \<longleftrightarrow> x \<in> set xs" for xs x by (induction xs) auto
  have perm: "hasPermissions L c a write = None \<Longrightarrow>
      \<exists>log. logs c a = Some log \<and> perm_rune write \<in> set (runes (Permission log))" for a
    by (simp add: hasPermissions_None)
  show ?thesis
    using assms
    by (fastforce simp: cmd_defs contains_iff Let_def dest!: perm split: sum.splits option.splits if_splits)
qed

theorem AddVC_refused_witness:
  "\<exists>e. AddVC sample_lib (sample_cmd ''r'') 0 (Inr \<lparr>av_Alias = ''maple'', av_VCEntry = ''vc''\<rparr>) 4 = (Fail e, 4)"
  by (rule AddVC_refused) (simp add: sample_defs)



text \<open>
  C26: a request that fails validation is answered with 400 before any permission is looked at, and the
  log service is not called; the indices of a proof request lie in \<open>0 \<le> index < size\<close>, those of a
  range request satisfy \<open>0 \<le> start \<le> end\<close>.
\<close>

theorem invalid_requests_rejected:
  assumes "FromError_spec fe"
  shows "(\<not> (0 \<le> sint (ge_Start r1) \<and> sint (ge_Start r1) \<le> sint (ge_End r1)) \<longrightarrow>
      (\<exists>e. GetEntries L c (Inr (Some r1)) s = (Fail e, s) \<and> StatusCodeFromError fe e = 400)) \<and>
    (\<not> (0 \<le> sint (eap_LeafIndex r2) \<and> sint (eap_LeafIndex r2) < sint (eap_TreeSize r2)) \<longrightarrow>
      (\<exists>e. GetEntryAndProof L c (Inr (Some r2)) s = (Fail e, s) \<and> StatusCodeFromError fe e = 400)) \<and>
    (\<not> 1 \<le> sint (pbh_TreeSize r3) \<longrightarrow>
      (\<exists>e. GetProofByHash L c (Inr (Some r3)) s = (Fail e, s) \<and> StatusCodeFromError fe e = 400)) \<and>
    (\<not> (0 \<le> sint (sc_FirstTreeSize r4) \<and> sint (sc_FirstTreeSize r4) \<le> sint (sc_SecondTreeSize r4)) \<longrightarrow>
      (\<exists>e. GetSTHConsistency L c (Inr (Some r4)) s = (Fail e, s) \<and> StatusCodeFromError fe e = 400))"
proof (intro conjI impI, goal_cases)
  case 1 then show ?case
    using invalid_fails(1) [of "Some r1" L c s] assms by (auto simp: GetEntriesRequest_Validate_None)
next
  case 2 then show ?case
    using invalid_fails(2) [of "Some r2" L c s] assms by (auto simp: GetEntryAndProofRequest_Validate_None)
next
  case 3 then show ?case
    using invalid_fails(3) [of "Some r3" L c s] assms by (auto simp: GetProofByHashRequest_Validate_None)
next
  case 4 then show ?case
    using invalid_fails(4) [of "Some r4" L c s] assms by (auto simp: GetSTHConsistencyRequest_Validate_None)
qed

theorem invalid_requests_rejected_witness:
  "\<exists>e. GetEntries sample_lib (sample_cmd ''r'') (Inr (Some \<lparr>ge_Alias = ''maple'', ge_Start = 3, ge_End = 2\<rparr>)) 4 =
     (Fail e, 4) \<and> StatusCodeFromError direct_FromError e = 400"
  by (rule invalid_requests_rejected [OF direct_FromError_spec, THEN conjunct1, rule_format]) simp

text \<open>
  C5: a successful \<open>GetEntries\<close> returns at most 1000 entries and never more than were asked for, and the
  entry at position \<open>k\<close> is the leaf that the service reports with index \<open>start + k\<close>, below a signed tree
  size that contains the start of the range.
\<close>

theorem GetEntries_window:
  assumes "GetEntries L c (Inr (Some r)) s = (Ok a, s')"
  shows "length (Entries a) \<le> 1000 \<and> int (length (Entries a)) \<le> sint (ge_End r) - sint (ge_Start r) + 1 \<and>
    (\<exists>log resp root. logs c (ge_Alias r) = Some log \<and>
       rpc_GetLeavesByRange (Client log) \<lparr>lbr_LogId = ID log, StartIndex = ge_Start r,
         Count = word_of_int (min 1000 (sint (ge_End r) - sint (ge_Start r) + 1))\<rparr> s = (Inr resp, s') \<and>
       UnmarshalBinary L (GetLogRoot (lbr_SignedLogRoot resp)) = Inr root \<and> ge_Start r < TreeSize root \<and>
       Entries a = map (\<lambda>leaf. \<lparr>LeafInput = LeafValue leaf, ExtraData = ll_ExtraData leaf\<rparr>) (Leaves resp) \<and>
       (\<forall>k < length (Entries a). LeafIndex (Leaves resp ! k) = ge_Start r + of_nat k))"
proof -
  let ?n = "ge_End (clampEnd r) + 1 - ge_Start r"
  have v: "0 \<le> sint (ge_Start r)" "sint (ge_Start r) \<le> sint (ge_End r)" and p: "hasPermissions L c (ge_Alias r) read = None"
    using assms Validate_None(3) [of "Some r"]
    by (auto simp: GetEntries_def Let_def split: option.splits)
  obtain log where log: "logs c (ge_Alias r) = Some log" using p by (auto simp: hasPermissions_None)
  obtain resp where resp: "rpc_GetLeavesByRange (Client log) \<lparr>lbr_LogId = ID log, StartIndex = ge_Start r, Count = ?n\<rparr> s = (Inr resp, s')"
    "GetEntries_response L (clampEnd r) ?n resp = Ok a"
    using assms log by (auto simp: GetEntries_def Let_def split: option.splits sum.splits prod.splits)
  note ok = GetEntries_response_Ok [OF resp(2)]
  have n: "sint ?n = min 1000 (sint (ge_End r) - sint (ge_Start r) + 1)"
    using clampEnd_count [OF v] ok(1) by (auto split: if_splits)
  then have "?n = word_of_int (min 1000 (sint (ge_End r) - sint (ge_Start r) + 1))"
    by (metis of_int_sint scast_id)
  then show ?thesis using ok n log resp(1) by auto
qed

theorem GetEntries_window_witness:
  "\<exists>a. GetEntries sample_lib (sample_cmd ''r'') (Inr (Some \<lparr>ge_Alias = ''maple'', ge_Start = 2, ge_End = 5\<rparr>)) 4 = (Ok a, 4) \<and>
     length (Entries a) \<le> 1000"
proof -
  let ?r = "\<lparr>ge_Alias = ''maple'', ge_Start = 2, ge_End = 5\<rparr>"
  obtain a where a: "GetEntries sample_lib (sample_cmd ''r'') (Inr (Some ?r)) 4 = (Ok a, 4)"
    by (simp add: GetEntries_def GetEntriesRequest_Validate_def hasPermissions_def clampEnd_def maxRange_def
        GetEntries_response_def emptyLogLeaf_def sample_defs word_less_nat_alt sless_sint)
  show ?thesis using a GetEntries_window [OF a] by blast
qed

text \<open>
  C21: for a readable log the number of leaves that \<open>GetEntries\<close> asks the service for is the length of
  the range, cut to 1000, except that for the one range from 0 to the largest \<open>int64\<close> the length
  overflows, escapes the cut, and the count sent is the smallest \<open>int64\<close>; that request cannot succeed.
\<close>

theorem GetEntries_count:
  assumes "logs c (ge_Alias r) = Some log" "granted c (ge_Alias r) read"
    and "0 \<le> sint (ge_Start r)" "sint (ge_Start r) \<le> sint (ge_End r)"
  shows "\<exists>n. sint n = (if sint (ge_Start r) = 0 \<and> sint (ge_End r) = 2 ^ 63 - 1 then - (2 ^ 63)
        else min 1000 (sint (ge_End r) - sint (ge_Start r) + 1)) \<and>
      snd (GetEntries L c (Inr (Some r)) s) =
        snd (rpc_GetLeavesByRange (Client log) \<lparr>lbr_LogId = ID log, StartIndex = ge_Start r, Count = n\<rparr> s) \<and>
      (sint n < 0 \<longrightarrow> (\<forall>a. fst (GetEntries L c (Inr (Some r)) s) \<noteq> Ok a))"
proof -
  let ?n = "ge_End (clampEnd r) + 1 - ge_Start r"
  let ?rpc = "rpc_GetLeavesByRange (Client log) \<lparr>lbr_LogId = ID log, StartIndex = ge_Start r, Count = ?n\<rparr> s"
  have "sint (ge_End r) < 2 ^ 63" using sint_range64 [of "ge_End r"] by simp
  then have edge: "sint (ge_End r) - sint (ge_Start r) = 2 ^ 63 - 1 \<longleftrightarrow>
      sint (ge_Start r) = 0 \<and> sint (ge_End r) = 2 ^ 63 - 1"
    using assms(3) by linarith
  have n: "sint ?n = (if sint (ge_Start r) = 0 \<and> sint (ge_End r) = 2 ^ 63 - 1 then - (2 ^ 63)
      else min 1000 (sint (ge_End r) - sint (ge_Start r) + 1))"
    using clampEnd_count [OF assms(3,4)] unfolding edge .
  have eq: "GetEntries L c (Inr (Some r)) s = (case ?rpc of
      (Inl e, s') \<Rightarrow> (Fail (wrapf ''get leaves by range'' e), s')
    | (Inr resp, s') \<Rightarrow> (GetEntries_response L (clampEnd r) ?n resp, s'))"
    using assms GetEntriesRequest_Validate_None [of "Some r"] hasPermissions_None [of L c "ge_Alias r" read]
    by (simp add: GetEntries_def granted_iff Let_def split: prod.splits sum.splits)
  have "snd (GetEntries L c (Inr (Some r)) s) = snd ?rpc"
    unfolding eq by (simp split: prod.splits sum.splits)
  moreover have "\<forall>a. fst (GetEntries L c (Inr (Some r)) s) \<noteq> Ok a" if "sint ?n < 0"
    unfolding eq using that by (auto split: prod.splits sum.splits dest!: GetEntries_response_Ok(1))
  ultimately show ?thesis using n by blast
qed

theorem GetEntries_count_witness:
  "\<forall>a. fst (GetEntries sample_lib (sample_cmd ''r'')
     (Inr (Some \<lparr>ge_Alias = ''maple'', ge_Start = 0, ge_End = 0x7FFFFFFFFFFFFFFF\<rparr>)) 4) \<noteq> Ok a"
proof -
  let ?r = "\<lparr>ge_Alias = ''maple'', ge_Start = 0, ge_End = 0x7FFFFFFFFFFFFFFF\<rparr>"
  have "logs (sample_cmd ''r'') (ge_Alias ?r) = Some (sample_log ''r'')" "granted (sample_cmd ''r'') (ge_Alias ?r) read"
    by (simp_all add: sample_defs)
  from GetEntries_count [OF this, of sample_lib 4] show ?thesis by auto
qed

text \<open>
  C10: a tree head that \<open>GetSTH\<close> returns is the one of the root that the service reported, and its
  signature is the signature, with the key of the server, of the canonical JSON of exactly these
  fields: the tree size, the root hash and the timestamp in milliseconds.
\<close>

theorem GetSTH_signs_tree_head:
  assumes "integers_ok (strconv L)" "GetSTH L c (Inr a) s = (Ok t, s')"
  shows "\<exists>log b root sig. logs c a = Some log \<and> UnmarshalBinary L b = Inr root \<and>
    rpc_GetLatestSignedLogRoot (Client log) (ID log) s = (Inr \<lparr>lr_SignedLogRoot = Some b\<rparr>, s') \<and>
    sth_TreeSize t = TreeSize root \<and> sth_SHA256RootHash t = RootHash root \<and>
    unat (sth_Timestamp t) = unat (TimestampNanos root) div 1000000 \<and>
    Sign (crypto c) (canonical (strconv L) (tree_head_json
      \<lparr>ths_Version = V1, ths_SignatureType = TreeHeadSignatureType, ths_Timestamp = sth_Timestamp t,
       ths_TreeSize = sth_TreeSize t, ths_SHA256RootHash = sth_SHA256RootHash t\<rparr>)) (kh c) = Inr sig \<and>
    sth_TreeHeadSignature t = Marshal_DigitallySigned \<lparr>ds_Algorithm = alg c, ds_Signature = sig\<rparr>"
proof -
  have p: "hasPermissions L c a read = None" using assms(2) by (auto simp: GetSTH_def split: option.splits)
  then obtain log where log: "logs c a = Some log" by (auto simp: hasPermissions_None)
  obtain resp b root ths where r:
    "rpc_GetLatestSignedLogRoot (Client log) (ID log) s = (Inr resp, s')" "lr_SignedLogRoot resp = Some b"
    "UnmarshalBinary L b = Inr root" "signV1TreeHead L c root = Inr ths"
    "t = \<lparr>sth_TreeSize = TreeSize root, sth_Timestamp = TimestampNanos root div Millisecond,
       sth_SHA256RootHash = RootHash root, sth_TreeHeadSignature = Marshal_DigitallySigned ths\<rparr>"
    using assms(2) p log by (auto simp: GetSTH_def split: prod.splits sum.splits option.splits)
  obtain sig where "Sign (crypto c) (canonical (strconv L) (tree_head_json (treeHeadOf root))) (kh c) = Inr sig"
    "ths = \<lparr>ds_Algorithm = alg c, ds_Signature = sig\<rparr>"
    using r(4) by (auto simp: signV1TreeHead_def MarshalCanonical_tree_head [OF assms(1)] split: sum.splits)
  moreover have "resp = \<lparr>lr_SignedLogRoot = Some b\<rparr>" using r(2) by (cases resp) simp
  ultimately show ?thesis
    using log r by (intro exI [of _ log] exI [of _ b] exI [of _ root] exI [of _ sig])
      (simp add: treeHeadOf_def unat_div Millisecond_def)
qed

theorem GetSTH_signs_tree_head_witness:
  "\<exists>t. GetSTH sample_lib (sample_cmd ''r'') (Inr ''maple'') 4 = (Ok t, 4) \<and> sth_TreeSize t = 9"
proof -
  obtain t where t: "GetSTH sample_lib (sample_cmd ''r'') (Inr ''maple'') 4 = (Ok t, 4)"
    by (simp add: GetSTH_def hasPermissions_def signV1TreeHead_def sample_defs
        MarshalCanonical_tree_head [OF sample_integers])
  have "integers_ok (strconv sample_lib)" by (simp add: sample_lib_sel sample_integers)
  from GetSTH_signs_tree_head [OF this t] t show ?thesis by (auto simp: sample_lib_sel)
qed



text \<open>
  C24: what identifies a credential in the log is independent of when it is added and of its proofs:
  two submissions, at any times, of documents that agree up to the \<open>proof\<close> member are queued under the
  same identity hash, so that the log can recognise the second as a duplicate.
\<close>

theorem AddVC_same_identity:
  assumes "Unmarshal_document L (av_VCEntry req) = Inr (Some d)"
    and "Unmarshal_document L (av_VCEntry req') = Inr (Some d')"
    and "\<forall>k. k \<noteq> ldProofField \<longrightarrow> d k = d' k"
    and "AddVC_leaf L now req loader vc = Ok leaf" "AddVC_leaf L now' req' loader vc' = Ok leaf'"
  shows "LeafIdentityHash leaf = LeafIdentityHash leaf'"
proof -
  have "d(ldProofField \<mapsto> JNull) = d'(ldProofField \<mapsto> JNull)" using assms(3) by auto
  then show ?thesis
    using assms by (auto simp: AddVC_leaf_def CreateLeaf_def split: sum.splits if_splits)
qed

lemma sample_AddVC_leaf:
  "AddVC_leaf sample_lib now req loader \<lparr>IssuerID = i, Proofs = []\<rparr> = Ok (emptyLogLeaf
     \<lparr>LeafValue := canonical sample_float (leaf_json (sample_leaf\<lparr>mtl_TimestampedEntry :=
        Some \<lparr>te_Timestamp = sdiv64 now Millisecond, te_EntryType = VCLogEntryType, te_VCEntry = ''doc'', te_Extensions = None\<rparr>\<rparr>)),
      LeafIdentityHash := Sum256 ''doc''\<rparr>)"
  by (simp add: AddVC_leaf_def CreateLeaf_def sample_lib_sel MarshalCanonical_leaf [OF sample_integers]
      sample_leaf_def emptyLogLeaf_def)

theorem AddVC_same_identity_witness:
  "\<exists>l l'. AddVC_leaf sample_lib 1000000 \<lparr>av_Alias = ''maple'', av_VCEntry = ''vc''\<rparr> (\<lambda>u. Inr JNull)
       \<lparr>IssuerID = ''did:ex'', Proofs = []\<rparr> = Ok l \<and>
     AddVC_leaf sample_lib 2000000 \<lparr>av_Alias = ''maple'', av_VCEntry = ''vc''\<rparr> (\<lambda>u. Inr JNull)
       \<lparr>IssuerID = ''did:ex'', Proofs = []\<rparr> = Ok l' \<and> LeafIdentityHash l = LeafIdentityHash l'"
proof -
  let ?r = "\<lparr>av_Alias = ''maple'', av_VCEntry = ''vc''\<rparr>"
  have d: "Unmarshal_document sample_lib (av_VCEntry ?r) = Inr (Some [''id'' \<mapsto> JString ''vc''])"
    by (simp add: sample_lib_sel)
  show ?thesis
    using AddVC_same_identity [OF d d _ sample_AddVC_leaf [of 1000000] sample_AddVC_leaf [of 2000000]]
      sample_AddVC_leaf by blast
qed

text \<open>
  C15: the commands are confined to the log they are for: a command can change only what the RPCs of the
  client of that one log change, and a read command only what its read RPCs change. In particular
  reading changes nothing if the read RPCs change nothing.
\<close>

theorem commands_confined:
  assumes "P s"
  shows "((\<forall>log. logs c (av_Alias r) = Some log \<longrightarrow> keeps write (Client log) P) \<longrightarrow> P (snd (AddVC L c now (Inr r) s))) \<and>
    ((\<forall>log. logs c a = Some log \<longrightarrow> keeps read (Client log) P) \<longrightarrow>
      P (snd (GetSTH L c (Inr a) s)) \<and>
      P (snd (GetEntries L c (Inr (Some (r1\<lparr>ge_Alias := a\<rparr>))) s)) \<and>
      P (snd (GetEntryAndProof L c (Inr (Some (r2\<lparr>eap_Alias := a\<rparr>))) s)) \<and>
      P (snd (GetProofByHash L c (Inr (Some (r3\<lparr>pbh_Alias := a\<rparr>))) s)) \<and>
      P (snd (GetSTHConsistency L c (Inr (Some (r4\<lparr>sc_Alias := a\<rparr>))) s)))"
  by (intro conjI impI)
    (rule add_vc.frame get_sth.frame get_entries.frame get_entry_and_proof.frame get_proof_by_hash.frame
      get_sth_consistency.frame; auto simp: assms accepts_AddVC_def accepts_Some)+

theorem commands_confined_witness:
  "snd (GetEntries sample_lib (sample_cmd ''r'') (Inr (Some \<lparr>ge_Alias = ''maple'', ge_Start = 2, ge_End = 5\<rparr>)) 4) = 4"
  using commands_confined [of "\<lambda>n. n = 4" "4 :: nat" "sample_cmd ''r''" _ _ _ "''maple''"
      "\<lparr>ge_Alias = [], ge_Start = 2, ge_End = 5\<rparr>"]
  by (simp add: sample_cmd_sel sample_log_def sample_client_def keeps_def)

end
