(* ===== verification/UrlQuery.thy ===== *)
theory UrlQuery
  imports Quoting "HOL-Library.Char_ord"
begin

text \<open>
  The query part of a URL as \<open>net/url\<close> writes it on the client (\<open>Values.Add\<close>, \<open>Values.Encode\<close>) and
  reads it on the server (\<open>ParseQuery\<close> behind \<open>FormValue\<close>), and that the server reads what the client
  wrote. A \<open>url.Values\<close> is the list of its key/value pairs in the order in which they were added.
\<close>

type_synonym Values = "(string \<times> string) list"

definition Values_Add :: "string \<Rightarrow> string \<Rightarrow> Values \<Rightarrow> Values" where
  "Values_Add k v vs = vs @ [(k, v)]"

definition upper_hex :: "nat \<Rightarrow> char" where
  "upper_hex k = (if k < 10 then char_of (48 + k) else char_of (55 + k))"

definition unreserved :: "char \<Rightarrow> bool" where
  "unreserved c \<longleftrightarrow> (let n = of_char c :: nat in
     (97 \<le> n \<and> n \<le> 122) \<or> (65 \<le> n \<and> n \<le> 90) \<or> (48 \<le> n \<and> n \<le> 57) \<or> n = 45 \<or> n = 95 \<or> n = 46 \<or> n = 126)"

definition escape_char :: "char \<Rightarrow> string" where
  "escape_char c =
     (if unreserved c then [c] else if c = CHR '' '' then ''+''
      else [CHR ''%'', upper_hex (of_char c div 16), upper_hex (of_char c mod 16)])"

definition QueryEscape :: "string \<Rightarrow> string" where
  "QueryEscape s = concat (map escape_char s)"

fun QueryUnescape :: "string \<Rightarrow> string option" where
  "QueryUnescape [] = Some []"
| "QueryUnescape (c # s) =
     (if c = CHR ''%'' then
        (case s of
           a # b # rest \<Rightarrow>
             (case (hex_val a, hex_val b, QueryUnescape rest) of
                (Some x, Some y, Some t) \<Rightarrow> Some (char_of (x * 16 + y) # t)
              | _ \<Rightarrow> None)
         | _ \<Rightarrow> None)
      else map_option (Cons (if c = CHR ''+'' then CHR '' '' else c)) (QueryUnescape s))"

fun join :: "char \<Rightarrow> string list \<Rightarrow> string" where
  "join sep [] = []"
| "join sep [x] = x"
| "join sep (x # y # ys) = x @ [sep] @ join sep (y # ys)"

definition pair_text :: "string \<times> string \<Rightarrow> string" where
  "pair_text kv = QueryEscape (fst kv) @ ''='' @ QueryEscape (snd kv)"

definition Values_Encode :: "Values \<Rightarrow> string" where
  "Values_Encode vs = join CHR ''&'' (map pair_text (sort_key fst vs))"

definition parse_segment :: "string \<Rightarrow> Values" where
  "parse_segment seg =
     (if CHR '';'' \<in> set seg \<or> seg = [] then []
      else (let k = takeWhile (\<lambda>c. c \<noteq> CHR ''='') seg; v = drop (Suc (length k)) seg
            in case (QueryUnescape k, QueryUnescape v) of (Some k', Some v') \<Rightarrow> [(k', v')] | _ \<Rightarrow> []))"

definition ParseQuery :: "string \<Rightarrow> Values" where
  "ParseQuery s = concat (map parse_segment (Split CHR ''&'' s))"

definition Values_Get :: "Values \<Rightarrow> string \<Rightarrow> string" where
  "Values_Get vs k = (case map_of vs k of None \<Rightarrow> [] | Some v \<Rightarrow> v)"

subsection \<open>Reading back\<close>

lemma hex_val_upper: "k < 16 \<Longrightarrow> hex_val (upper_hex k) = Some k"
  by (auto simp: hex_val_def upper_hex_def Let_def)

lemma unescape_char: "QueryUnescape (escape_char c @ s) = map_option (Cons c) (QueryUnescape s)"
proof (cases "unreserved c")
  case True
  then have "c \<noteq> CHR ''%''" "c \<noteq> CHR ''+''" by (auto simp: unreserved_def)
  then show ?thesis using True by (simp add: escape_char_def)
next
  case False
  have "of_char c div 16 < (16 :: nat)" using of_char_lt [of c] by linarith
  then show ?thesis
    using False by (auto simp: escape_char_def hex_val_upper split: option.splits)
qed

lemma QueryUnescape_QueryEscape: "QueryUnescape (QueryEscape s) = Some s"
  by (induction s) (simp_all add: QueryEscape_def unescape_char)

lemma escape_char_safe: "x \<in> set (escape_char c) \<Longrightarrow> x \<noteq> CHR ''&'' \<and> x \<noteq> CHR ''='' \<and> x \<noteq> CHR '';''"
proof -
  have "upper_hex k \<noteq> CHR ''&'' \<and> upper_hex k \<noteq> CHR ''='' \<and> upper_hex k \<noteq> CHR '';''" if "k < 16" for k
    using hex_val_upper [OF that] by (auto simp: hex_val_def)
  moreover have "of_char c div 16 < (16 :: nat)" using of_char_lt [of c] by linarith
  ultimately show "x \<in> set (escape_char c) \<Longrightarrow> ?thesis"
    by (auto simp: escape_char_def unreserved_def split: if_splits)
qed

lemma QueryEscape_safe: "x \<in> set (QueryEscape s) \<Longrightarrow> x \<noteq> CHR ''&'' \<and> x \<noteq> CHR ''='' \<and> x \<noteq> CHR '';''"
  using escape_char_safe by (auto simp: QueryEscape_def)

lemma parse_pair_text: "parse_segment (pair_text kv) = [kv]"
proof -
  have "takeWhile (\<lambda>c. c \<noteq> CHR ''='') (pair_text kv) = QueryEscape (fst kv)"
    using QueryEscape_safe by (auto simp: pair_text_def takeWhile_append2)
  moreover have "CHR '';'' \<notin> set (pair_text kv)"
    using QueryEscape_safe by (auto simp: pair_text_def)
  ultimately show ?thesis
    by (simp add: parse_segment_def pair_text_def QueryUnescape_QueryEscape Let_def)
qed

lemma Split_join:
  "xs \<noteq> [] \<Longrightarrow> \<forall>x \<in> set xs. sep \<notin> set x \<Longrightarrow> Split sep (join sep xs) = xs"
  by (induction sep xs rule: join.induct) (auto simp: Split_no_sep Split_append)

lemma ParseQuery_Encode: "ParseQuery (Values_Encode vs) = sort_key fst vs"
proof (cases "vs = []")
  case True
  then show ?thesis by (simp add: ParseQuery_def Values_Encode_def parse_segment_def)
next
  case False
  then have ne: "sort_key fst vs \<noteq> []" by (metis length_0_conv length_sort)
  have "\<forall>x \<in> set (map pair_text (sort_key fst vs)). CHR ''&'' \<notin> set x"
    using QueryEscape_safe by (auto simp: pair_text_def)
  then have "Split CHR ''&'' (Values_Encode vs) = map pair_text (sort_key fst vs)"
    unfolding Values_Encode_def using ne by (intro Split_join) auto
  then show ?thesis by (simp add: ParseQuery_def parse_pair_text o_def)
qed

lemma map_of_sort_key: "distinct (map fst vs) \<Longrightarrow> map_of (sort_key fst vs) = map_of vs"
  by (rule map_of_eqI) (auto simp: distinct_map)

lemma Values_Get_Encode:
  "distinct (map fst vs) \<Longrightarrow> Values_Get (ParseQuery (Values_Encode vs)) k = Values_Get vs k"
  by (simp add: ParseQuery_Encode Values_Get_def map_of_sort_key)

end
