(* ===== verification/Rest.thy ===== *)
theory Rest
  imports CommandProps UrlQuery
begin

text \<open>
  The REST layer of \<open>pkg/controller/rest/operation.go\<close>. A request is what the router hands over: the
  path variable \<open>alias\<close>, the query values and the body. A handler returns what it sends, the state of
  the log service and the counters of the metrics. Each handler marshals the request it builds and the
  command decodes it again; \<open>recode\<close> is what that does to a string. An alias passed as
  \<open>fmt.Sprintf("%q", alias)\<close> is decoded from that text. The latency histograms are not modelled.
\<close>

record http_request =
  alias_var :: string
  form :: Values
  req_body :: "err + bytes"

definition FormValue :: "http_request \<Rightarrow> string \<Rightarrow> string" where
  "FormValue r k = Values_Get (form r) k"

datatype 'a reply = Sent 'a | SentError int string | Dropped

type_synonym counters = "string \<Rightarrow> string \<Rightarrow> nat"

definition AliasPath :: string where "AliasPath = ''/{alias}''"
definition BasePath :: string where "BasePath = AliasPath @ ''/v1''"
definition AddVCPath :: string where "AddVCPath = BasePath @ ''/add-vc''"
definition GetSTHPath :: string where "GetSTHPath = BasePath @ ''/get-sth''"
definition GetSTHConsistencyPath :: string where "GetSTHConsistencyPath = BasePath @ ''/get-sth-consistency''"
definition GetProofByHashPath :: string where "GetProofByHashPath = BasePath @ ''/get-proof-by-hash''"
definition GetEntriesPath :: string where "GetEntriesPath = BasePath @ ''/get-entries''"
definition GetIssuersPath :: string where "GetIssuersPath = BasePath @ ''/get-issuers''"
definition GetEntryAndProofPath :: string where "GetEntryAndProofPath = BasePath @ ''/get-entry-and-proof''"
definition WebfingerPath :: string where "WebfingerPath = ''/.well-known/webfinger''"
definition HealthCheckPath :: string where "HealthCheckPath = ''/healthcheck''"
definition MetricsPath :: string where "MetricsPath = ''/metrics''"

datatype endpoint = E_AddVC | E_GetSTH | E_GetSTHConsistency | E_GetProofByHash | E_GetEntries
  | E_GetIssuers | E_Webfinger | E_GetEntryAndProof | E_HealthCheck | E_Metrics

definition GetRESTHandlers :: "(string \<times> string \<times> endpoint) list" where
  "GetRESTHandlers =
     [(AddVCPath, ''POST'', E_AddVC), (GetSTHPath, ''GET'', E_GetSTH),
      (GetSTHConsistencyPath, ''GET'', E_GetSTHConsistency),
      (GetProofByHashPath, ''GET'', E_GetProofByHash), (GetEntriesPath, ''GET'', E_GetEntries),
      (GetIssuersPath, ''GET'', E_GetIssuers), (WebfingerPath, ''GET'', E_Webfinger),
      (GetEntryAndProofPath, ''GET'', E_GetEntryAndProof), (HealthCheckPath, ''GET'', E_HealthCheck),
      (MetricsPath, ''GET'', E_Metrics)]"

definition sendError :: "(err \<Rightarrow> rpc_code option) \<Rightarrow> err \<Rightarrow> 'a reply" where
  "sendError fe e = SentError (StatusCodeFromError fe e) (Error e)"

text \<open>\<open>execute\<close>, with the counter that the closures passed to it increment after a success.\<close>

definition count_one :: "string \<Rightarrow> string \<Rightarrow> counters \<Rightarrow> counters" where
  "count_one name label m = m(name := (m name)(label := Suc (m name label)))"

definition execute ::
  "(err \<Rightarrow> rpc_code option) \<Rightarrow> string \<Rightarrow> string \<Rightarrow> 'a outcome \<times> 's \<Rightarrow> counters \<Rightarrow> 'a reply \<times> 's \<times> counters" where
  "execute fe name label r m =
     (case r of
        (Ok a, s) \<Rightarrow> (Sent a, s, count_one name label m)
      | (Fail e, s) \<Rightarrow> (sendError fe e, s, m)
      | (Panic, s) \<Rightarrow> (Dropped, s, m))"

definition recode :: "string \<Rightarrow> string" where
  "recode s = (case json_unquote (json_string s) of Some t \<Rightarrow> t | None \<Rightarrow> [])"

definition decode_quoted :: "lib \<Rightarrow> string \<Rightarrow> err + string" where
  "decode_quoted L s =
     (case json_unquote (Quote (print_table L) s) of
        Some t \<Rightarrow> Inr t | None \<Rightarrow> Inl (ErrorString ''invalid character in string escape code''))"

definition not_a_number :: "lib \<Rightarrow> string \<Rightarrow> err" where
  "not_a_number L p = fwrap ErrValidation (''parameter '' @ Quote (print_table L) p @ '' is not a number'')"

definition rest_AddVC :: "lib \<Rightarrow> (err \<Rightarrow> rpc_code option) \<Rightarrow> 's Cmd \<Rightarrow> int64 \<Rightarrow> http_request \<Rightarrow> 's \<Rightarrow> counters \<Rightarrow>
    AddVCResponse reply \<times> 's \<times> counters" where
  "rest_AddVC L fe c now r s m =
     (case req_body r of
        Inl _ \<Rightarrow> (sendError fe (fwrap ErrInternal ''copy vc''), s, m)
      | Inr vcEntry \<Rightarrow>
          execute fe ''add_vc'' (alias_var r)
            (AddVC L c now (Inr \<lparr>av_Alias = recode (alias_var r), av_VCEntry = vcEntry\<rparr>) s) m)"

definition rest_GetSTH :: "lib \<Rightarrow> (err \<Rightarrow> rpc_code option) \<Rightarrow> 's Cmd \<Rightarrow> http_request \<Rightarrow> 's \<Rightarrow> counters \<Rightarrow>
    GetSTHResponse reply \<times> 's \<times> counters" where
  "rest_GetSTH L fe c r s m =
     execute fe ''get_sth'' (alias_var r) (GetSTH L c (decode_quoted L (alias_var r)) s) m"

definition rest_GetIssuers :: "lib \<Rightarrow> (err \<Rightarrow> rpc_code option) \<Rightarrow> 's Cmd \<Rightarrow> http_request \<Rightarrow> 's \<Rightarrow> counters \<Rightarrow>
    string list reply \<times> 's \<times> counters" where
  "rest_GetIssuers L fe c r s m =
     execute fe ''get_issuers'' (alias_var r) (GetIssuers L c (decode_quoted L (alias_var r)), s) m"

definition rest_Webfinger :: "lib \<Rightarrow> (err \<Rightarrow> rpc_code option) \<Rightarrow> 's Cmd \<Rightarrow> http_request \<Rightarrow> 's \<Rightarrow> counters \<Rightarrow>
    WebFingerResponse reply \<times> 's \<times> counters" where
  "rest_Webfinger L fe c r s m =
     (let resourceID = Values_Get (form r) ''resource''
      in execute fe ''webfinger'' resourceID (Webfinger L c (decode_quoted L resourceID), s) m)"

definition rest_GetSTHConsistency :: "lib \<Rightarrow> (err \<Rightarrow> rpc_code option) \<Rightarrow> 's Cmd \<Rightarrow> http_request \<Rightarrow> 's \<Rightarrow> counters \<Rightarrow>
    GetSTHConsistencyResponse reply \<times> 's \<times> counters" where
  "rest_GetSTHConsistency L fe c r s m =
     (case ParseInt (FormValue r ''first'') of
        Inl _ \<Rightarrow> (sendError fe (not_a_number L ''first''), s, m)
      | Inr first \<Rightarrow>
          (case ParseInt (FormValue r ''second'') of
             Inl _ \<Rightarrow> (sendError fe (not_a_number L ''second''), s, m)
           | Inr second \<Rightarrow>
               execute fe ''get_sth_consistency'' (alias_var r)
                 (GetSTHConsistency L c (Inr (Some \<lparr>sc_Alias = recode (alias_var r),
                    sc_FirstTreeSize = first, sc_SecondTreeSize = second\<rparr>)) s) m))"

definition rest_GetProofByHash :: "lib \<Rightarrow> (err \<Rightarrow> rpc_code option) \<Rightarrow> 's Cmd \<Rightarrow> http_request \<Rightarrow> 's \<Rightarrow> counters \<Rightarrow>
    GetProofByHashResponse reply \<times> 's \<times> counters" where
  "rest_GetProofByHash L fe c r s m =
     (case ParseInt (FormValue r ''tree_size'') of
        Inl _ \<Rightarrow> (sendError fe (not_a_number L ''tree_size''), s, m)
      | Inr treeSize \<Rightarrow>
          execute fe ''get_proof_by_hash'' (alias_var r)
            (GetProofByHash L c (Inr (Some \<lparr>pbh_Alias = recode (alias_var r),
               pbh_Hash = recode (FormValue r ''hash''), pbh_TreeSize = treeSize\<rparr>)) s) m)"

definition rest_GetEntries :: "lib \<Rightarrow> (err \<Rightarrow> rpc_code option) \<Rightarrow> 's Cmd \<Rightarrow> http_request \<Rightarrow> 's \<Rightarrow> counters \<Rightarrow>
    GetEntriesResponse reply \<times> 's \<times> counters" where
  "rest_GetEntries L fe c r s m =
     (case ParseInt (FormValue r ''start'') of
        Inl _ \<Rightarrow> (sendError fe (not_a_number L ''start''), s, m)
      | Inr start \<Rightarrow>
          (case ParseInt (FormValue r ''end'') of
             Inl _ \<Rightarrow> (sendError fe (not_a_number L ''end''), s, m)
           | Inr end' \<Rightarrow>
               execute fe ''get_entries'' (alias_var r)
                 (GetEntries L c (Inr (Some \<lparr>ge_Alias = recode (alias_var r), ge_Start = start, ge_End = end'\<rparr>)) s) m))"

definition rest_GetEntryAndProof :: "lib \<Rightarrow> (err \<Rightarrow> rpc_code option) \<Rightarrow> 's Cmd \<Rightarrow> http_request \<Rightarrow> 's \<Rightarrow> counters \<Rightarrow>
    GetEntryAndProofResponse reply \<times> 's \<times> counters" where
  "rest_GetEntryAndProof L fe c r s m =
     (case ParseInt (FormValue r ''leaf_index'') of
        Inl _ \<Rightarrow> (sendError fe (not_a_number L ''leaf_index''), s, m)
      | Inr leafIndex \<Rightarrow>
          (case ParseInt (FormValue r ''tree_size'') of
             Inl _ \<Rightarrow> (sendError fe (not_a_number L ''tree_size''), s, m)
           | Inr treeSize \<Rightarrow>
               execute fe ''get_entry_and_proof'' (alias_var r)
                 (GetEntryAndProof L c (Inr (Some \<lparr>eap_Alias = recode (alias_var r),
                    eap_LeafIndex = leafIndex, eap_TreeSize = treeSize\<rparr>)) s) m))"

text \<open>\<open>HealthCheck\<close>: a nil interface is \<open>None\<close>, otherwise the result of the probe.\<close>

definition success :: string where "success = ''success''"

definition probe_status :: "err option option \<Rightarrow> string" where
  "probe_status p = (case p of None \<Rightarrow> [] | Some None \<Rightarrow> success | Some (Some e) \<Rightarrow> Error e)"

record healthCheckResp =
  DBStatus :: string
  KMSStatus :: string

definition HealthCheck :: "err option option \<Rightarrow> err option option \<Rightarrow> int \<times> healthCheckResp" where
  "HealthCheck db keyManager =
     (let dbStatus = probe_status db; kmsStatus = probe_status keyManager
      in (if dbStatus \<noteq> success \<or> kmsStatus \<noteq> success then 503 else 200,
          \<lparr>DBStatus = dbStatus, KMSStatus = kmsStatus\<rparr>))"

subsection \<open>Properties\<close>

lemma recode_eq: "recode s = to_valid s"
  by (simp add: recode_def json_unquote_json_string)

lemma count_one_neq: "count_one name label m \<noteq> m"
proof
  assume "count_one name label m = m"
  then have "count_one name label m name label = m name label" by simp
  then show False by (simp add: count_one_def)
qed

lemma execute_cases:
  "execute fe name label (Ok a, s) m = (Sent a, s, count_one name label m)"
  "execute fe name label (Fail e, s) m = (SentError (StatusCodeFromError fe e) (Error e), s, m)"
  by (simp_all add: execute_def sendError_def)

lemma execute_counts:
  "execute fe name label r m = (x, s', m') \<Longrightarrow>
     m' = (if \<exists>a. x = Sent a then count_one name label m else m) \<and> s' = snd r"
  by (auto simp: execute_def sendError_def split: prod.splits outcome.splits)

lemma status_not_a_number: "FromError_spec fe \<Longrightarrow> StatusCodeFromError fe (not_a_number L p) = 400"
  by (simp add: not_a_number_def status_simps)









end
