(* ===== verification/Client.thy ===== *)
theory Client
  imports Rest
begin

text \<open>
  The REST client of \<open>pkg/client/vct/client.go\<close>: the requests it builds, how it reads the answers, and
  the verification of the receipts that \<open>AddVC\<close> issues. The HTTP transport, the key import and the
  signature verification are parameters.
\<close>

record Client =
  endpoint :: string
  ledgerURI :: string
  authReadToken :: string
  authWriteToken :: string

type_synonym ClientOpt = "Client \<Rightarrow> Client"

definition WithAuthReadToken :: "string \<Rightarrow> ClientOpt" where
  "WithAuthReadToken t o' = o'\<lparr>authReadToken := t\<rparr>"

definition WithAuthWriteToken :: "string \<Rightarrow> ClientOpt" where
  "WithAuthWriteToken t o' = o'\<lparr>authWriteToken := t\<rparr>"

definition WithLedgerURI :: "string \<Rightarrow> ClientOpt" where
  "WithLedgerURI u o' = o'\<lparr>ledgerURI := u\<rparr>"

definition client_New :: "string \<Rightarrow> ClientOpt list \<Rightarrow> Client" where
  "client_New ep opts = foldl (\<lambda>c fn. fn c)
     \<lparr>endpoint = ep, ledgerURI = ep, authReadToken = [], authWriteToken = []\<rparr> opts"

subsection \<open>Requests\<close>

record options =
  opt_method :: string
  opt_body :: "bytes option"
  opt_values :: Values
  opt_token :: string

type_synonym opt = "options \<Rightarrow> options"

definition withBody :: "bytes \<Rightarrow> opt" where "withBody b o' = o'\<lparr>opt_body := Some b\<rparr>"
definition withValueAdd :: "string \<Rightarrow> string \<Rightarrow> opt" where
  "withValueAdd k v o' = o'\<lparr>opt_values := Values_Add k v (opt_values o')\<rparr>"
definition withMethod :: "string \<Rightarrow> opt" where "withMethod m o' = o'\<lparr>opt_method := m\<rparr>"
definition withToken :: "string \<Rightarrow> opt" where "withToken t o' = o'\<lparr>opt_token := t\<rparr>"

record http_out =
  out_method :: string
  out_url :: string
  out_body :: "bytes option"
  out_auth :: "string option"

text \<open>
  The transport: whether \<open>http.NewRequest\<close> accepts method and URL, the exchange with status code and
  body, and the decoding of an \<open>ErrorResponse\<close>, which leaves a nil pointer for the text \<open>null\<close>.
\<close>

record transport =
  NewRequest :: "string \<Rightarrow> string \<Rightarrow> err option"
  Do :: "http_out \<Rightarrow> err + int \<times> (err + bytes)"
  Unmarshal_ErrorResponse :: "bytes \<Rightarrow> err + string option"

definition apply_opts :: "opt list \<Rightarrow> options" where
  "apply_opts opts = foldl (\<lambda>o' fn. fn o')
     \<lparr>opt_method = ''GET'', opt_body = None, opt_values = [], opt_token = []\<rparr> opts"

definition client_request :: "lib \<Rightarrow> transport \<Rightarrow> Client \<Rightarrow> string \<Rightarrow> opt list \<Rightarrow> err + http_out" where
  "client_request L T c path opts =
     (let op = apply_opts opts
      in case url_Parse L (endpoint c) of
           Inl e \<Rightarrow> Inl (wrapf ''parse URL'' e)
         | Inr u \<Rightarrow>
             (let p = Scheme u @ ''://'' @ Host u @ Replace1 path AliasPath (Path u) @ ''?'' @
                    Values_Encode (opt_values op)
              in case NewRequest T (opt_method op) p of
                   Some e \<Rightarrow> Inl (wrapf ''new request with context'' e)
                 | None \<Rightarrow> Inr \<lparr>out_method = opt_method op, out_url = p, out_body = opt_body op,
                     out_auth = (if opt_token op \<noteq> [] then Some (''Bearer '' @ opt_token op) else None)\<rparr>))"

definition getError :: "transport \<Rightarrow> err + bytes \<Rightarrow> 'v outcome" where
  "getError T body =
     (case body of
        Inl e \<Rightarrow> Fail (wrapf ''read message body'' e)
      | Inr msgBytes \<Rightarrow>
          (case Unmarshal_ErrorResponse T msgBytes of
             Inl _ \<Rightarrow> Fail (ErrorString msgBytes)
           | Inr None \<Rightarrow> Panic
           | Inr (Some message) \<Rightarrow> Fail (ErrorString message)))"

definition client_do ::
  "lib \<Rightarrow> transport \<Rightarrow> (err + bytes \<Rightarrow> err + 'v) \<Rightarrow> Client \<Rightarrow> string \<Rightarrow> opt list \<Rightarrow> 'v outcome" where
  "client_do L T decode c path opts =
     (case client_request L T c path opts of
        Inl e \<Rightarrow> Fail e
      | Inr req \<Rightarrow>
          (case Do T req of
             Inl e \<Rightarrow> Fail (wrapf ''http do'' e)
           | Inr (status, body) \<Rightarrow>
               if status \<noteq> 200 then getError T body
               else (case decode body of Inl e \<Rightarrow> Fail e | Inr v \<Rightarrow> Ok v)))"

definition wrap_fail :: "string \<Rightarrow> 'v outcome \<Rightarrow> 'v outcome" where
  "wrap_fail msg r = (case r of Fail e \<Rightarrow> Fail (wrapf msg e) | _ \<Rightarrow> r)"

definition client_AddVC where
  "client_AddVC L T decode c credential = wrap_fail ''add VC''
     (client_do L T decode c AddVCPath [withMethod ''POST'', withBody credential, withToken (authWriteToken c)])"

definition client_Webfinger where
  "client_Webfinger L T decode c = wrap_fail ''webfinger''
     (client_do L T decode c WebfingerPath [withValueAdd ''resource'' (ledgerURI c)])"

definition client_GetIssuers where
  "client_GetIssuers L T decode c = wrap_fail ''get issuers''
     (client_do L T decode c GetIssuersPath [withToken (authReadToken c)])"

definition client_GetSTH where
  "client_GetSTH L T decode c = wrap_fail ''get STH''
     (client_do L T decode c GetSTHPath [withToken (authReadToken c)])"

definition consistency_opts :: "Client \<Rightarrow> uint64 \<Rightarrow> uint64 \<Rightarrow> opt list" where
  "consistency_opts c first second =
     [withValueAdd ''first'' (FormatUint first), withValueAdd ''second'' (FormatUint second),
      withToken (authReadToken c)]"

definition client_GetSTHConsistency where
  "client_GetSTHConsistency L T decode c first second = wrap_fail ''get STH consistency''
     (client_do L T decode c GetSTHConsistencyPath (consistency_opts c first second))"

definition proof_opts :: "Client \<Rightarrow> string \<Rightarrow> uint64 \<Rightarrow> opt list" where
  "proof_opts c hash treeSize =
     [withValueAdd ''hash'' hash, withValueAdd ''tree_size'' (FormatUint treeSize), withToken (authReadToken c)]"

definition client_GetProofByHash where
  "client_GetProofByHash L T decode c hash treeSize = wrap_fail ''get proof by hash''
     (client_do L T decode c GetProofByHashPath (proof_opts c hash treeSize))"

definition entries_opts :: "Client \<Rightarrow> uint64 \<Rightarrow> uint64 \<Rightarrow> opt list" where
  "entries_opts c start end' =
     [withValueAdd ''start'' (FormatUint start), withValueAdd ''end'' (FormatUint end'),
      withToken (authReadToken c)]"

definition client_GetEntries where
  "client_GetEntries L T decode c start end' = wrap_fail ''get entries''
     (client_do L T decode c GetEntriesPath (entries_opts c start end'))"

definition entry_proof_opts :: "Client \<Rightarrow> uint64 \<Rightarrow> uint64 \<Rightarrow> opt list" where
  "entry_proof_opts c leafIndex treeSize =
     [withValueAdd ''leaf_index'' (FormatUint leafIndex), withValueAdd ''tree_size'' (FormatUint treeSize),
      withToken (authReadToken c)]"

definition client_GetEntryAndProof where
  "client_GetEntryAndProof L T decode c leafIndex treeSize = wrap_fail ''get entry and proof''
     (client_do L T decode c GetEntryAndProofPath (entry_proof_opts c leafIndex treeSize))"

definition client_HealthCheck :: "lib \<Rightarrow> transport \<Rightarrow> Client \<Rightarrow> unit outcome" where
  "client_HealthCheck L T c =
     (case url_Parse L (endpoint c) of
        Inl e \<Rightarrow> Fail e
      | Inr u \<Rightarrow>
          (let p = Scheme u @ ''://'' @ Host u @ HealthCheckPath
           in case NewRequest T ''GET'' p of
                Some e \<Rightarrow> Fail (wrapf ''new request with context'' e)
              | None \<Rightarrow>
                  (case Do T \<lparr>out_method = ''GET'', out_url = p, out_body = None, out_auth = None\<rparr> of
                     Inl e \<Rightarrow> Fail (wrapf ''http do'' e)
                   | Inr (status, body) \<Rightarrow> if status \<noteq> 200 then getError T body else Ok ())))"

subsection \<open>Hashes and receipts\<close>

record verifier =
  HashLeaf :: "bytes \<Rightarrow> bytes"
  Unmarshal_DigitallySigned :: "bytes \<Rightarrow> err + DigitallySigned option"
  PubKeyBytesToHandle :: "bytes \<Rightarrow> string \<Rightarrow> err + KeyHandle"
  Verify :: "bytes \<Rightarrow> bytes \<Rightarrow> KeyHandle \<Rightarrow> err option"

definition CalculateLeafHash :: "lib \<Rightarrow> verifier \<Rightarrow> uint64 \<Rightarrow> bytes \<Rightarrow> DocumentLoader \<Rightarrow> string outcome" where
  "CalculateLeafHash L V timestamp vcBytes loader =
     (case CreateLeaf L timestamp vcBytes loader of
        Panic \<Rightarrow> Panic
      | Fail e \<Rightarrow> Fail (wrapf ''create leaf'' e)
      | Ok leaf \<Rightarrow>
          (case MarshalCanonical (strconv L) (Inr (Marshal_MerkleTreeLeaf leaf)) of
             Inl e \<Rightarrow> Fail (wrapf ''marshal leaf'' e)
           | Inr leafData \<Rightarrow> Ok (EncodeToString (HashLeaf V leafData))))"

definition VerifyVCTimestampSignature ::
  "lib \<Rightarrow> verifier \<Rightarrow> bytes \<Rightarrow> bytes \<Rightarrow> uint64 \<Rightarrow> bytes \<Rightarrow> DocumentLoader \<Rightarrow> unit outcome" where
  "VerifyVCTimestampSignature L V signature pubKey timestamp vcBytes loader =
     (case Unmarshal_DigitallySigned V signature of
        Inl e \<Rightarrow> Fail (wrapf ''unmarshal signature'' e)
      | Inr sig \<Rightarrow>
          (case CreateLeaf L timestamp vcBytes loader of
             Panic \<Rightarrow> Panic
           | Fail e \<Rightarrow> Fail (wrapf ''create leaf'' e)
           | Ok leaf \<Rightarrow>
               (case CreateVCTimestampSignature leaf of
                  Panic \<Rightarrow> Panic
                | Fail e \<Rightarrow> Fail e
                | Ok vcts \<Rightarrow>
                    (case MarshalCanonical (strconv L) (Inr (Marshal_VCTimestampSignature vcts)) of
                       Inl e \<Rightarrow> Fail (wrapf ''marshal VC timestamp signature'' e)
                     | Inr data \<Rightarrow>
                         (case sig of
                            None \<Rightarrow> Panic
                          | Some sg \<Rightarrow>
                              (case PubKeyBytesToHandle V pubKey (alg_Type (ds_Algorithm sg)) of
                                 Inl e \<Rightarrow> Fail (wrapf ''pub key to handle'' e)
                               | Inr h \<Rightarrow>
                                   (case Verify V (ds_Signature sg) data h of
                                      Some e \<Rightarrow> Fail e | None \<Rightarrow> Ok ())))))))"

subsection \<open>Properties\<close>

lemma opt_values_simps [simp]:
  "apply_opts (consistency_opts c a b) = \<lparr>opt_method = ''GET'', opt_body = None,
     opt_values = [(''first'', FormatUint a), (''second'', FormatUint b)], opt_token = authReadToken c\<rparr>"
  "apply_opts (entries_opts c a b) = \<lparr>opt_method = ''GET'', opt_body = None,
     opt_values = [(''start'', FormatUint a), (''end'', FormatUint b)], opt_token = authReadToken c\<rparr>"
  "apply_opts (entry_proof_opts c a b) = \<lparr>opt_method = ''GET'', opt_body = None,
     opt_values = [(''leaf_index'', FormatUint a), (''tree_size'', FormatUint b)], opt_token = authReadToken c\<rparr>"
  "apply_opts (proof_opts c h b) = \<lparr>opt_method = ''GET'', opt_body = None,
     opt_values = [(''hash'', h), (''tree_size'', FormatUint b)], opt_token = authReadToken c\<rparr>"
  by (simp_all add: apply_opts_def consistency_opts_def entries_opts_def entry_proof_opts_def proof_opts_def
      withValueAdd_def withToken_def Values_Add_def)

lemma FormValue_pair:
  assumes "form r = ParseQuery (Values_Encode [(k1, v1), (k2, v2)])" "k1 \<noteq> k2"
  shows "FormValue r k1 = v1" "FormValue r k2 = v2"
  using assms Values_Get_Encode [of "[(k1, v1), (k2, v2)]"] by (simp_all add: FormValue_def Values_Get_def)

text \<open>The reading of two numeric parameters, as every handler with two of them does it.\<close>

definition two_numbers :: "(err \<Rightarrow> rpc_code option) \<Rightarrow> lib \<Rightarrow> string \<Rightarrow> string \<Rightarrow> uint64 \<Rightarrow> uint64 \<Rightarrow>
    'a reply \<times> 's \<times> counters \<Rightarrow> 's \<Rightarrow> counters \<Rightarrow> 'a reply \<times> 's \<times> counters" where
  "two_numbers fe L k1 k2 a b result s m =
     (if 2 ^ 63 \<le> unat a then (sendError fe (not_a_number L k1), s, m)
      else if 2 ^ 63 \<le> unat b then (sendError fe (not_a_number L k2), s, m) else result)"

text \<open>
  C22: the numbers of a client request arrive. The query string that the client appends to the URL for
  \<open>GetEntries\<close>, \<open>GetEntryAndProof\<close> and \<open>GetSTHConsistency\<close>, read by the server, makes the server run the
  command with exactly the two numbers the caller gave; a number of 2^63 or more, which the client
  accepts, is rejected by the server with a validation error instead of being misread.
\<close>

theorem client_numbers_reach_command:
  assumes "form r1 = ParseQuery (Values_Encode (opt_values (apply_opts (entries_opts c a b))))"
    and "form r2 = ParseQuery (Values_Encode (opt_values (apply_opts (entry_proof_opts c a b))))"
    and "form r3 = ParseQuery (Values_Encode (opt_values (apply_opts (consistency_opts c a b))))"
  shows "rest_GetEntries L fe cmd r1 s m = two_numbers fe L ''start'' ''end'' a b
      (execute fe ''get_entries'' (alias_var r1)
        (GetEntries L cmd (Inr (Some \<lparr>ge_Alias = recode (alias_var r1), ge_Start = a, ge_End = b\<rparr>)) s) m) s m \<and>
    rest_GetEntryAndProof L fe cmd r2 s m = two_numbers fe L ''leaf_index'' ''tree_size'' a b
      (execute fe ''get_entry_and_proof'' (alias_var r2)
        (GetEntryAndProof L cmd (Inr (Some \<lparr>eap_Alias = recode (alias_var r2), eap_LeafIndex = a, eap_TreeSize = b\<rparr>)) s) m) s m \<and>
    rest_GetSTHConsistency L fe cmd r3 s m = two_numbers fe L ''first'' ''second'' a b
      (execute fe ''get_sth_consistency'' (alias_var r3)
        (GetSTHConsistency L cmd (Inr (Some \<lparr>sc_Alias = recode (alias_var r3), sc_FirstTreeSize = a, sc_SecondTreeSize = b\<rparr>)) s) m) s m"
  using FormValue_pair [OF assms(1) [simplified]] FormValue_pair [OF assms(2) [simplified]]
    FormValue_pair [OF assms(3) [simplified]]
  by (auto simp: rest_GetEntries_def rest_GetEntryAndProof_def rest_GetSTHConsistency_def two_numbers_def
      ParseInt_FormatUint)

theorem client_numbers_reach_command_witness:
  "\<exists>r1. rest_GetEntries sample_lib direct_FromError (sample_cmd ''r'') r1 4 (\<lambda>_ _. 0) =
     (SentError (StatusCodeFromError direct_FromError (not_a_number sample_lib ''start''))
        (Error (not_a_number sample_lib ''start'')), 4, (\<lambda>_ _. 0))"
proof -
  let ?c = "client_New ''https://vct.example/maple'' []" and ?a = "0x8000000000000000 :: uint64"
  let ?r = "\<lambda>o'. \<lparr>alias_var = ''maple'', form = ParseQuery (Values_Encode (opt_values (apply_opts o'))), req_body = Inr []\<rparr>"
  show ?thesis
    using client_numbers_reach_command [of "?r (entries_opts ?c ?a 5)" ?c ?a 5 "?r (entry_proof_opts ?c ?a 5)"
        "?r (consistency_opts ?c ?a 5)" sample_lib direct_FromError "sample_cmd ''r''" 4 "\<lambda>_ _. 0"]
    by (intro exI [of _ "?r (entries_opts ?c ?a 5)"]) (simp add: two_numbers_def sendError_def)
qed



text \<open>
  What is assumed of the log service and of the decoding of stored leaves: an answer to \<open>QueueLeaf\<close>
  carries a leaf that was queued for this credential, at this or at an earlier time.
\<close>

definition answers_own_leaf :: "lib \<Rightarrow> 's Log \<Rightarrow> bytes \<Rightarrow> DocumentLoader \<Rightarrow> bool" where
  "answers_own_leaf L log vcBytes loader \<longleftrightarrow>
     (\<forall>q s r s' leaf. rpc_QueueLeaf (Client log) q s = (Inr (Some r), s') \<longrightarrow> ql_Leaf r = Some leaf \<longrightarrow>
        (\<exists>t l. CreateLeaf L t vcBytes loader = Ok l \<and> Unmarshal_MerkleTreeLeaf L (LeafValue leaf) = Inr l))"

text \<open>What is assumed of the cryptography: signatures verify under the exported public key.\<close>

definition key_matches :: "'s Cmd \<Rightarrow> verifier \<Rightarrow> bool" where
  "key_matches c V \<longleftrightarrow> (\<exists>h. PubKeyBytesToHandle V (PubKey c) (alg_Type (alg c)) = Inr h \<and>
     (\<forall>data sig. Sign (crypto c) data (kh c) = Inr sig \<longrightarrow> Verify V sig data h = None))"

lemma CreateLeaf_Ok:
  assumes "CreateLeaf L t b loader = Ok l"
  shows "\<exists>e. mtl_TimestampedEntry l = Some e \<and> te_Timestamp e = t"
  using assms by (auto simp: CreateLeaf_def split: sum.splits option.splits)


definition signed_prefix :: "SignatureAndHashAlgorithm \<Rightarrow> string" where
  "signed_prefix a = ''{'' @ json_string ''algorithm'' @ '':'' @
     json_object [(''signature'', json_string (alg_Signature a)), (''type'', json_string (alg_Type a))] @
     '','' @ json_string ''signature'' @ '':'' @ [CHR 0x22]"

lemma Marshal_signed:
  "Marshal_DigitallySigned \<lparr>ds_Algorithm = a, ds_Signature = sig\<rparr> =
     signed_prefix a @ EncodeToString sig @ [CHR 0x22, CHR ''}'']"
  unfolding Marshal_DigitallySigned_def json_object_def [of "[(''algorithm'', _), _]"] signed_prefix_def
  by (simp add: json_bytes_def)

definition sample_verifier :: verifier where
  "sample_verifier = \<lparr>HashLeaf = (\<lambda>b. b),
     Unmarshal_DigitallySigned = (\<lambda>b.
       let a = \<lparr>alg_Signature = ECDSASignature, alg_Type = ''a''\<rparr>; t = drop (length (signed_prefix a)) b
       in case DecodeString (take (length t - 2) t) of
            Inl e \<Rightarrow> Inl e | Inr sig \<Rightarrow> Inr (Some \<lparr>ds_Algorithm = a, ds_Signature = sig\<rparr>)),
     PubKeyBytesToHandle = (\<lambda>p t. Inr 0), Verify = (\<lambda>sig data h. if sig = data then None else Some (ErrorString ''bad''))\<rparr>"

lemma sample_decodes:
  "Unmarshal_DigitallySigned sample_verifier (Marshal_DigitallySigned \<lparr>ds_Algorithm = alg (sample_cmd p), ds_Signature = sig\<rparr>) =
     Inr (Some \<lparr>ds_Algorithm = alg (sample_cmd p), ds_Signature = sig\<rparr>)"
  by (simp add: sample_verifier_def Marshal_signed sample_cmd_sel Let_def)

lemma sample_CreateLeaf: "CreateLeaf sample_lib 5 b loader = Ok sample_leaf"
  by (simp add: CreateLeaf_def sample_lib_sel sample_leaf_def)

lemma sample_AddVC:
  "\<exists>resp. AddVC sample_lib (sample_cmd ''rw'') now (Inr \<lparr>av_Alias = ''maple'', av_VCEntry = ''vc''\<rparr>) n = (Ok resp, Suc n)"
proof -
  let ?req = "\<lparr>av_Alias = ''maple'', av_VCEntry = ''vc''\<rparr>"
  have "AddVC_checks sample_lib (sample_cmd ''rw'') ?req =
      Inr (sample_log ''rw'', \<lambda>u. Inr JNull, \<lparr>IssuerID = ''did:ex'', Proofs = []\<rparr>)"
    by (simp add: AddVC_checks_def hasPermissions_def sample_defs)
  moreover have "\<exists>r. AddVC_response sample_lib (sample_cmd ''rw'') (Some \<lparr>ql_Leaf = Some l, ql_Status = None\<rparr>) = Ok r" for l
    by (simp add: AddVC_response_def signV1VCTS_def CreateVCTimestampSignature_def sample_lib_sel sample_cmd_sel
        sample_leaf_def MarshalCanonical_vcts [OF sample_integers])
  ultimately show ?thesis
    by (simp add: AddVC_def sample_AddVC_leaf) (simp add: sample_log_def sample_client_def)
qed


text \<open>
  C23: client and server agree on the leaf. The hash that \<open>CalculateLeafHash\<close> computes on the client from the
  timestamp and the credential is the base64 of the Merkle leaf hash of exactly the leaf value that
  \<open>AddVC\<close> sends to the log at that time, so that a proof asked for by this hash is a proof for that leaf.
\<close>

theorem client_leaf_hash:
  assumes "AddVC_leaf L now req loader vc = Ok leaf"
  shows "CalculateLeafHash L V (sdiv64 now Millisecond) (av_VCEntry req) loader = Ok (EncodeToString (HashLeaf V (LeafValue leaf))) \<and>
    DecodeString (EncodeToString (HashLeaf V (LeafValue leaf))) = Inr (HashLeaf V (LeafValue leaf))"
  using assms by (auto simp: AddVC_leaf_def CalculateLeafHash_def split: outcome.splits sum.splits option.splits if_splits)

theorem client_leaf_hash_witness:
  "\<exists>h. CalculateLeafHash sample_lib sample_verifier (sdiv64 7000000 Millisecond) ''vc'' (\<lambda>u. Inr JNull) = Ok (EncodeToString h)"
  using client_leaf_hash [OF sample_AddVC_leaf [of 7000000 "\<lparr>av_Alias = ''maple'', av_VCEntry = ''vc''\<rparr>" "\<lambda>u. Inr JNull" "''did:ex''"],
      of sample_verifier] by auto

end
