(* ===== verification/Tables.thy ===== *)
theory Tables
  imports Trillian
begin

text \<open>
  The relational schema of \<open>pkg/storage/postgres/schema/storage.sql\<close>. A table is the list of its
  rows, a row is a record with the columns of the table, and a statement is a function on the
  database that returns an error or a result with the changed database. The constraints that the
  schema declares are checked by the statements: primary keys, foreign keys (with their cascading
  deletes), the enumeration types of \<open>trees\<close> and the 32-bit column \<open>subtree_revision\<close>. The three
  stored functions of the schema are translated as they are written, their \<open>EXCEPTION\<close> clauses
  included. A query without \<open>ORDER BY\<close> returns its rows in the order of the table; no lemma relies
  on that order. \<open>wf_db\<close> says that a database satisfies its constraints.
\<close>

named_theorems wf_intros \<open>preservation of the schema constraints\<close>

section \<open>Rows\<close>

record trees_row =
  tr_tree_id :: int64
  tree_state :: string
  tree_type :: string
  hash_strategy :: string
  hash_algorithm :: string
  signature_algorithm :: string
  display_name :: string
  description :: string
  create_time_millis :: int64
  update_time_millis :: int64
  max_root_duration_millis :: int64
  private_key :: bytes
  public_key :: bytes
  deleted :: bool
  delete_time_millis :: "int64 option"
  current_tree_data :: "bytes option"
  root_signature :: "bytes option"

record tree_control_row =
  tc_tree_id :: int64
  signing_enabled :: bool
  sequencing_enabled :: bool
  sequence_interval_seconds :: int

record subtree_row =
  st_tree_id :: int64
  subtree_id :: bytes
  nodes :: bytes
  subtree_revision :: int64

record tree_head_row =
  th_tree_id :: int64
  tree_head_timestamp :: int64
  tree_size :: int64
  root_hash :: bytes
  th_root_signature :: bytes
  tree_revision :: int64

record leaf_data_row =
  ld_tree_id :: int64
  ld_identity :: bytes
  leaf_value :: bytes
  extra_data :: bytes
  ld_queue_nanos :: int64

record sequenced_row =
  sq_tree_id :: int64
  sequence_number :: int64
  sq_identity :: bytes
  sq_merkle :: bytes
  integrate_nanos :: int64

record unsequenced_row =
  uq_tree_id :: int64
  bucket :: int
  uq_identity :: bytes
  uq_merkle :: bytes
  uq_queue_nanos :: int64

record database =
  trees :: "trees_row list"
  tree_control :: "tree_control_row list"
  subtree :: "subtree_row list"
  tree_head :: "tree_head_row list"
  leaf_data :: "leaf_data_row list"
  sequenced_leaf_data :: "sequenced_row list"
  unsequenced :: "unsequenced_row list"

definition empty_db :: database where
  "empty_db = \<lparr>trees = [], tree_control = [], subtree = [], tree_head = [], leaf_data = [],
     sequenced_leaf_data = [], unsequenced = []\<rparr>"

section \<open>Constraints\<close>

definition E_TREE_STATE :: "string list" where
  "E_TREE_STATE = [''ACTIVE'', ''FROZEN'', ''DRAINING'']"

definition E_TREE_TYPE :: "string list" where
  "E_TREE_TYPE = [''LOG'', ''MAP'', ''PREORDERED_LOG'']"

text \<open>The primary keys.\<close>

abbreviation subtree_key :: "subtree_row \<Rightarrow> int64 \<times> bytes \<times> int64" where
  "subtree_key r \<equiv> (st_tree_id r, subtree_id r, subtree_revision r)"

abbreviation tree_head_key :: "tree_head_row \<Rightarrow> int64 \<times> int64" where
  "tree_head_key r \<equiv> (th_tree_id r, tree_revision r)"

abbreviation leaf_key :: "leaf_data_row \<Rightarrow> int64 \<times> bytes" where
  "leaf_key r \<equiv> (ld_tree_id r, ld_identity r)"

abbreviation sequenced_key :: "sequenced_row \<Rightarrow> int64 \<times> int64" where
  "sequenced_key r \<equiv> (sq_tree_id r, sequence_number r)"

abbreviation unsequenced_key :: "unsequenced_row \<Rightarrow> int64 \<times> int \<times> int64 \<times> bytes" where
  "unsequenced_key r \<equiv> (uq_tree_id r, bucket r, uq_queue_nanos r, uq_identity r)"

definition tree_ids :: "database \<Rightarrow> int64 set" where
  "tree_ids d = tr_tree_id ` set (trees d)"

definition fits_int4 :: "int64 \<Rightarrow> bool" where
  "fits_int4 r \<longleftrightarrow> - (2 ^ 31) \<le> sint r \<and> sint r < 2 ^ 31"

definition keys_ok :: "database \<Rightarrow> bool" where
  "keys_ok d \<longleftrightarrow> distinct (map tr_tree_id (trees d)) \<and> distinct (map tc_tree_id (tree_control d)) \<and>
     distinct (map subtree_key (subtree d)) \<and> distinct (map tree_head_key (tree_head d)) \<and>
     distinct (map leaf_key (leaf_data d)) \<and> distinct (map sequenced_key (sequenced_leaf_data d)) \<and>
     distinct (map unsequenced_key (unsequenced d))"

definition references_ok :: "database \<Rightarrow> bool" where
  "references_ok d \<longleftrightarrow>
     tc_tree_id ` set (tree_control d) \<subseteq> tree_ids d \<and> st_tree_id ` set (subtree d) \<subseteq> tree_ids d \<and>
     th_tree_id ` set (tree_head d) \<subseteq> tree_ids d \<and> ld_tree_id ` set (leaf_data d) \<subseteq> tree_ids d \<and>
     sq_tree_id ` set (sequenced_leaf_data d) \<subseteq> tree_ids d \<and>
     (\<lambda>r. (sq_tree_id r, sq_identity r)) ` set (sequenced_leaf_data d) \<subseteq> leaf_key ` set (leaf_data d)"

definition columns_ok :: "database \<Rightarrow> bool" where
  "columns_ok d \<longleftrightarrow> tree_state ` set (trees d) \<subseteq> set E_TREE_STATE \<and>
     tree_type ` set (trees d) \<subseteq> set E_TREE_TYPE \<and> (\<forall>r\<in>set (subtree d). fits_int4 (subtree_revision r))"

definition wf_db :: "database \<Rightarrow> bool" where
  "wf_db d \<longleftrightarrow> keys_ok d \<and> references_ok d \<and> columns_ok d"

lemmas wf_defs = wf_db_def keys_ok_def references_ok_def columns_ok_def

section \<open>Errors of the server\<close>

definition unique_violation :: err where
  "unique_violation = ErrorString ''pq: duplicate key value violates unique constraint''"

definition foreign_key_violation :: err where
  "foreign_key_violation = ErrorString ''pq: insert or update on table violates foreign key constraint''"

definition invalid_text :: err where
  "invalid_text = ErrorString ''pq: invalid input value for enum''"

definition numeric_out_of_range :: err where
  "numeric_out_of_range = ErrorString ''pq: value out of range for type integer''"

definition no_return :: err where
  "no_return = ErrorString ''pq: control reached end of function without RETURN''"

section \<open>Statements\<close>

type_synonym 'a stmt = "database \<Rightarrow> err + 'a \<times> database"

definition insert_tree :: "trees_row \<Rightarrow> unit stmt" where
  "insert_tree r d =
     (if tree_state r \<notin> set E_TREE_STATE \<or> tree_type r \<notin> set E_TREE_TYPE then Inl invalid_text
      else if tr_tree_id r \<in> tree_ids d then Inl unique_violation
      else Inr ((), d\<lparr>trees := trees d @ [r]\<rparr>))"

definition insert_tree_control :: "tree_control_row \<Rightarrow> unit stmt" where
  "insert_tree_control r d =
     (if tc_tree_id r \<in> tc_tree_id ` set (tree_control d) then Inl unique_violation
      else if tc_tree_id r \<notin> tree_ids d then Inl foreign_key_violation
      else Inr ((), d\<lparr>tree_control := tree_control d @ [r]\<rparr>))"

text \<open>One \<open>INSERT\<close> with several rows either inserts all of them or fails.\<close>

fun insert_subtrees :: "subtree_row list \<Rightarrow> unit stmt" where
  "insert_subtrees [] d = Inr ((), d)"
| "insert_subtrees (r # rs) d =
     (if \<not> fits_int4 (subtree_revision r) then Inl numeric_out_of_range
      else if subtree_key r \<in> subtree_key ` set (subtree d) then Inl unique_violation
      else if st_tree_id r \<notin> tree_ids d then Inl foreign_key_violation
      else insert_subtrees rs (d\<lparr>subtree := subtree d @ [r]\<rparr>))"

definition insert_tree_head :: "tree_head_row \<Rightarrow> int stmt" where
  "insert_tree_head r d =
     (if tree_head_key r \<in> tree_head_key ` set (tree_head d) then Inl unique_violation
      else if th_tree_id r \<notin> tree_ids d then Inl foreign_key_violation
      else Inr (1, d\<lparr>tree_head := tree_head d @ [r]\<rparr>))"

text \<open>
  The stored functions. Their handler answers \<open>false\<close> to a duplicate key; for any other error it
  only raises a notice, so that the end of the function is reached without \<open>RETURN\<close>, which is an
  error of its own.
\<close>

definition insert_leaf_data_ignore_duplicates :: "leaf_data_row \<Rightarrow> bool stmt" where
  "insert_leaf_data_ignore_duplicates r d =
     (if leaf_key r \<in> leaf_key ` set (leaf_data d) then Inr (False, d)
      else if ld_tree_id r \<notin> tree_ids d then Inl no_return
      else Inr (True, d\<lparr>leaf_data := leaf_data d @ [r]\<rparr>))"

definition insert_unsequenced_ignore_duplicates :: "int64 \<Rightarrow> bytes \<Rightarrow> bytes \<Rightarrow> int64 \<Rightarrow> bool stmt" where
  "insert_unsequenced_ignore_duplicates tid ident merkle nanos d =
     (let r = \<lparr>uq_tree_id = tid, bucket = 0, uq_identity = ident, uq_merkle = merkle,
                uq_queue_nanos = nanos\<rparr>
      in if unsequenced_key r \<in> unsequenced_key ` set (unsequenced d) then Inr (False, d)
         else Inr (True, d\<lparr>unsequenced := unsequenced d @ [r]\<rparr>))"

definition insert_sequenced_leaf_data_ignore_duplicates :: "sequenced_row \<Rightarrow> bool stmt" where
  "insert_sequenced_leaf_data_ignore_duplicates r d =
     (if sequenced_key r \<in> sequenced_key ` set (sequenced_leaf_data d) then Inr (False, d)
      else if sq_tree_id r \<notin> tree_ids d \<or> (sq_tree_id r, sq_identity r) \<notin> leaf_key ` set (leaf_data d)
      then Inl no_return
      else Inr (True, d\<lparr>sequenced_leaf_data := sequenced_leaf_data d @ [r]\<rparr>))"

text \<open>Updates and deletes, with the number of rows they affect.\<close>

definition update_trees :: "int64 \<Rightarrow> (trees_row \<Rightarrow> trees_row) \<Rightarrow> int stmt" where
  "update_trees tid f d =
     (let new = map (\<lambda>r. if tr_tree_id r = tid then f r else r) (trees d)
      in if \<exists>r\<in>set new. tree_state r \<notin> set E_TREE_STATE \<or> tree_type r \<notin> set E_TREE_TYPE
         then Inl invalid_text
         else Inr (int (length (filter (\<lambda>r. tr_tree_id r = tid) (trees d))), d\<lparr>trees := new\<rparr>))"

definition delete_tree_control :: "int64 \<Rightarrow> int stmt" where
  "delete_tree_control tid d =
     Inr (int (length (filter (\<lambda>r. tc_tree_id r = tid) (tree_control d))),
          d\<lparr>tree_control := filter (\<lambda>r. tc_tree_id r \<noteq> tid) (tree_control d)\<rparr>)"

definition delete_tree :: "int64 \<Rightarrow> int stmt" where
  "delete_tree tid d =
     Inr (int (length (filter (\<lambda>r. tr_tree_id r = tid) (trees d))),
          if tid \<notin> tree_ids d then d
          else d\<lparr>trees := filter (\<lambda>r. tr_tree_id r \<noteq> tid) (trees d),
                 tree_control := filter (\<lambda>r. tc_tree_id r \<noteq> tid) (tree_control d),
                 subtree := filter (\<lambda>r. st_tree_id r \<noteq> tid) (subtree d),
                 tree_head := filter (\<lambda>r. th_tree_id r \<noteq> tid) (tree_head d),
                 leaf_data := filter (\<lambda>r. ld_tree_id r \<noteq> tid) (leaf_data d),
                 sequenced_leaf_data := filter (\<lambda>r. sq_tree_id r \<noteq> tid) (sequenced_leaf_data d)\<rparr>)"

definition delete_unsequenced :: "int64 \<Rightarrow> int64 \<Rightarrow> bytes \<Rightarrow> int stmt" where
  "delete_unsequenced tid nanos ident d =
     (let hit = (\<lambda>r. uq_tree_id r = tid \<and> bucket r = 0 \<and> uq_queue_nanos r = nanos \<and> uq_identity r = ident)
      in Inr (int (length (filter hit (unsequenced d))),
              d\<lparr>unsequenced := filter (\<lambda>r. \<not> hit r) (unsequenced d)\<rparr>))"

section \<open>Statements keep the constraints\<close>

lemma filter_key_unique:
  "distinct (map f xs) \<Longrightarrow> x \<in> set xs \<Longrightarrow> filter (\<lambda>y. f y = f x) xs = [x]"
proof (induction xs)
  case (Cons a xs)
  then show ?case by (cases "a = x") (auto simp: filter_empty_conv image_iff)
qed simp

definition keeps :: "(database \<Rightarrow> bool) \<Rightarrow> 'a stmt \<Rightarrow> bool" where
  "keeps P st \<longleftrightarrow> (\<forall>d a d'. P d \<longrightarrow> st d = Inr (a, d') \<longrightarrow> P d')"

lemma keepsI: "(\<And>d a d'. P d \<Longrightarrow> st d = Inr (a, d') \<Longrightarrow> P d') \<Longrightarrow> keeps P st"
  by (auto simp: keeps_def)

lemma keepsD: "keeps P st \<Longrightarrow> P d \<Longrightarrow> st d = Inr (a, d') \<Longrightarrow> P d'"
  by (auto simp: keeps_def)

lemma tree_ids_simps [simp]:
  "tree_ids (d\<lparr>tree_control := a\<rparr>) = tree_ids d" "tree_ids (d\<lparr>subtree := b\<rparr>) = tree_ids d"
  "tree_ids (d\<lparr>tree_head := c\<rparr>) = tree_ids d" "tree_ids (d\<lparr>leaf_data := e\<rparr>) = tree_ids d"
  "tree_ids (d\<lparr>sequenced_leaf_data := f\<rparr>) = tree_ids d" "tree_ids (d\<lparr>unsequenced := g\<rparr>) = tree_ids d"
  "tree_ids (d\<lparr>trees := h\<rparr>) = tr_tree_id ` set h"
  by (auto simp: tree_ids_def)

lemma wf_insert_tree [wf_intros]: "keeps wf_db (insert_tree r)"
  by (rule keepsI) (clarsimp simp: insert_tree_def wf_defs subset_insertI2 simp flip: tree_ids_def split: if_splits)

lemma wf_insert_tree_control [wf_intros]: "keeps wf_db (insert_tree_control r)"
  by (rule keepsI) (clarsimp simp: insert_tree_control_def wf_defs split: if_splits)

lemma wf_insert_subtrees [wf_intros]: "keeps wf_db (insert_subtrees rs)"
proof (rule keepsI)
  fix d a d' assume "wf_db d" and "insert_subtrees rs d = Inr (a, d')"
  then show "wf_db d'"
  proof (induction rs arbitrary: d)
    case Nil then show ?case by simp
  next
    case (Cons r rs)
    from Cons.prems have "wf_db (d\<lparr>subtree := subtree d @ [r]\<rparr>)"
      by (clarsimp simp: wf_defs split: if_splits)
    with Cons show ?case by (auto split: if_splits)
  qed
qed

lemma wf_insert_tree_head [wf_intros]: "keeps wf_db (insert_tree_head r)"
  by (rule keepsI) (clarsimp simp: insert_tree_head_def wf_defs split: if_splits)

lemma wf_insert_leaf_data [wf_intros]: "keeps wf_db (insert_leaf_data_ignore_duplicates r)"
  by (rule keepsI) (clarsimp simp: insert_leaf_data_ignore_duplicates_def wf_defs subset_insertI2 split: if_splits)

lemma wf_insert_unsequenced [wf_intros]:
  "keeps wf_db (insert_unsequenced_ignore_duplicates tid ident merkle nanos)"
  by (rule keepsI)
    (clarsimp simp: insert_unsequenced_ignore_duplicates_def Let_def wf_defs split: if_splits)

lemma wf_insert_sequenced [wf_intros]:
  "keeps wf_db (insert_sequenced_leaf_data_ignore_duplicates r)"
  by (rule keepsI)
    (clarsimp simp: insert_sequenced_leaf_data_ignore_duplicates_def wf_defs split: if_splits)

lemma wf_update_trees [wf_intros]:
  assumes "\<And>r. tr_tree_id (f r) = tr_tree_id r"
  shows "keeps wf_db (update_trees tid f)"
proof (rule keepsI)
  fix d a d' assume wf: "wf_db d" and upd: "update_trees tid f d = Inr (a, d')"
  define new where "new = map (\<lambda>r. if tr_tree_id r = tid then f r else r) (trees d)"
  have ids: "map tr_tree_id new = map tr_tree_id (trees d)" by (simp add: new_def assms)
  have set_ids: "tr_tree_id ` set new = tree_ids d"
    unfolding tree_ids_def using arg_cong [OF ids, of set] by simp
  from upd have d': "d' = d\<lparr>trees := new\<rparr>"
    and cols: "\<not> (\<exists>r\<in>set new. tree_state r \<notin> set E_TREE_STATE \<or> tree_type r \<notin> set E_TREE_TYPE)"
    unfolding update_trees_def Let_def new_def [symmetric] by (simp_all split: if_split_asm)
  have "keys_ok d'" using wf by (simp add: d' wf_db_def keys_ok_def ids)
  moreover have "references_ok d'" using wf by (simp add: d' wf_db_def references_ok_def set_ids)
  moreover have "columns_ok d'" using wf cols by (auto simp: d' wf_db_def columns_ok_def)
  ultimately show "wf_db d'" by (simp add: wf_db_def)
qed

lemma wf_delete_tree_control [wf_intros]: "keeps wf_db (delete_tree_control tid)"
  by (rule keepsI) (clarsimp simp: delete_tree_control_def wf_defs distinct_map_filter image_subset_iff)

lemma filter_key_subset: "f ` set xs \<subseteq> A \<Longrightarrow> f ` set (filter (\<lambda>r. f r \<noteq> t) xs) \<subseteq> A - {t}"
  by auto

lemma filter_key_image: "f ` set (filter (\<lambda>r. f r \<noteq> t) xs) = f ` set xs - {t}"
  by auto

lemma filter_pair_subset:
  "(\<lambda>r. (f r, g r)) ` set xs \<subseteq> (\<lambda>r. (h r, k r)) ` set ys \<Longrightarrow>
     (\<lambda>r. (f r, g r)) ` set (filter (\<lambda>r. f r \<noteq> t) xs) \<subseteq> (\<lambda>r. (h r, k r)) ` set (filter (\<lambda>r. h r \<noteq> t) ys)"
  by (fastforce simp: image_iff)

lemma wf_delete_tree [wf_intros]: "keeps wf_db (delete_tree tid)"
proof (rule keepsI)
  fix d a d' assume wf: "wf_db d" and del: "delete_tree tid d = Inr (a, d')"
  show "wf_db d'"
  proof (cases "tid \<in> tree_ids d")
    case False with wf del show ?thesis by (simp add: delete_tree_def)
  next
    case True
    with del have d': "d' = d\<lparr>trees := filter (\<lambda>r. tr_tree_id r \<noteq> tid) (trees d),
                 tree_control := filter (\<lambda>r. tc_tree_id r \<noteq> tid) (tree_control d),
                 subtree := filter (\<lambda>r. st_tree_id r \<noteq> tid) (subtree d),
                 tree_head := filter (\<lambda>r. th_tree_id r \<noteq> tid) (tree_head d),
                 leaf_data := filter (\<lambda>r. ld_tree_id r \<noteq> tid) (leaf_data d),
                 sequenced_leaf_data := filter (\<lambda>r. sq_tree_id r \<noteq> tid) (sequenced_leaf_data d)\<rparr>"
      by (simp add: delete_tree_def)
    have ids: "tree_ids d' = tree_ids d - {tid}"
      by (simp add: d' tree_ids_def filter_key_image del: set_filter)
    have "keys_ok d'"
      using wf by (simp add: d' wf_db_def keys_ok_def distinct_map_filter)
    moreover have "references_ok d'"
      unfolding references_ok_def ids using wf
      by (simp add: d' wf_db_def references_ok_def filter_key_subset filter_pair_subset del: set_filter)
    moreover have "columns_ok d'"
      using wf by (auto simp: d' wf_db_def columns_ok_def)
    ultimately show ?thesis by (simp add: wf_db_def)
  qed
qed

lemma wf_delete_unsequenced [wf_intros]: "keeps wf_db (delete_unsequenced tid nanos ident)"
  by (rule keepsI) (clarsimp simp: delete_unsequenced_def Let_def wf_defs distinct_map_filter)

lemma wf_empty_db [simp]: "wf_db empty_db"
  by (simp add: empty_db_def wf_defs)

end
