(* ===== verification/Action.thy ===== *)
theory Action
  imports Errors
begin

text \<open>
  Operations that may fail on a state: \<open>bnd\<close> runs one after another and stops at the first error, which
  is Go's \<open>if err != nil { return nil, err }\<close>. The state is a parameter: the database session for the
  storage, the outside world for the start of the server.
\<close>

named_theorems act_simps \<open>evaluation of actions\<close>

type_synonym ('s, 'a) action = "'s \<Rightarrow> (err + 'a) \<times> 's"

definition ret :: "'a \<Rightarrow> ('s, 'a) action" where
  "ret a s = (Inr a, s)"

definition throw :: "err \<Rightarrow> ('s, 'a) action" where
  "throw e s = (Inl e, s)"

definition bnd :: "('s, 'a) action \<Rightarrow> ('a \<Rightarrow> ('s, 'b) action) \<Rightarrow> ('s, 'b) action" where
  "bnd m k s = (case m s of (Inl e, s') \<Rightarrow> (Inl e, s') | (Inr a, s') \<Rightarrow> k a s')"

text \<open>The result of a call as a value: for errors the code inspects or ignores.\<close>

definition attempt :: "('s, 'a) action \<Rightarrow> ('s, err + 'a) action" where
  "attempt m s = (case m s of (r, s') \<Rightarrow> (Inr r, s'))"

definition wrapping :: "string \<Rightarrow> ('s, 'a) action \<Rightarrow> ('s, 'a) action" where
  "wrapping t m s = (case m s of (Inl e, s') \<Rightarrow> (Inl (wrapf t e), s') | (Inr a, s') \<Rightarrow> (Inr a, s'))"

definition modify :: "('s \<Rightarrow> 's) \<Rightarrow> ('s, unit) action" where
  "modify f s = (Inr (), f s)"

definition lift :: "err + 'a \<Rightarrow> ('s, 'a) action" where
  "lift r s = (r, s)"

fun loop :: "('a \<Rightarrow> 'b \<Rightarrow> ('s, 'b) action) \<Rightarrow> 'a list \<Rightarrow> 'b \<Rightarrow> ('s, 'b) action" where
  "loop f [] acc = ret acc"
| "loop f (x # xs) acc = bnd (f x acc) (loop f xs)"

lemma loop_collect:
  "(\<And>x acc s. x \<in> set xs \<Longrightarrow> f x acc s = (Inr (acc @ [g x]), s)) \<Longrightarrow>
     loop f xs acc s = (Inr (acc @ map g xs), s)"
  by (induction xs arbitrary: acc s) (simp_all add: ret_def bnd_def)

section \<open>Calls that may not return\<close>

text \<open>\<open>None\<close>: the call waits forever, or the process ends in it and no deferred function runs.\<close>

type_synonym ('w, 'a) proc = "'w \<Rightarrow> ((err + 'a) \<times> 'w) option"

definition call :: "('w, 'a) action \<Rightarrow> ('w, 'a) proc" where
  "call m w = Some (m w)"

definition seq :: "('w, 'a) proc \<Rightarrow> ('a \<Rightarrow> ('w, 'b) proc) \<Rightarrow> ('w, 'b) proc" where
  "seq m k w = (case m w of None \<Rightarrow> None | Some (Inl e, w') \<Rightarrow> Some (Inl e, w') | Some (Inr a, w') \<Rightarrow> k a w')"

definition wrapped :: "string \<Rightarrow> ('w, 'a) proc \<Rightarrow> ('w, 'a) proc" where
  "wrapped t m w = (case m w of Some (Inl e, w') \<Rightarrow> Some (Inl (wrapf t e), w') | x \<Rightarrow> x)"

text \<open>Go's \<open>defer\<close>.\<close>

definition deferring :: "('w \<Rightarrow> 'w) \<Rightarrow> ('w, 'a) proc \<Rightarrow> ('w, 'a) proc" where
  "deferring f m w = map_option (\<lambda>(r, w'). (r, f w')) (m w)"

lemma seq_Some:
  "seq m k w = Some (Inr b, w') \<longleftrightarrow> (\<exists>a w1. m w = Some (Inr a, w1) \<and> k a w1 = Some (Inr b, w'))"
  by (auto simp: seq_def split: option.splits sum.splits)

end
