(* ===== verification/Session.thy ===== *)
theory Session
  imports Tables Action
begin

text \<open>
  Transactions of \<open>database/sql\<close> on the schema of \<open>Tables\<close>, as package \<open>pkg/storage/postgres\<close> uses
  them. A \<open>sess\<close> holds the committed database, the state of the current transaction (its private
  copy \<open>work\<close>, its savepoints, whether a statement has failed in it and whether it is still active),
  the number of transactions that were begun and not finished, the counters of the package and the
  statements that \<open>pgTreeStorage\<close> has prepared, each represented by its text.
  Transactions run one after the other. Every call of the driver may fail: the list \<open>faults\<close> says
  what happens at the next calls, and every theorem without a condition on it holds for all of them.
  \<open>StmtFault e\<close> fails the call with \<open>e\<close>; \<open>RowsFault n e\<close> lets a query deliver \<open>n\<close> rows before
  \<open>rows.Err\<close> reports \<open>e\<close>. After a failed statement the server refuses every further statement of the
  transaction, and its commit rolls back. A commit that reports an error has not taken effect.

  An operation is an \<open>action\<close> on the session.
\<close>

datatype fault = NoFault | StmtFault err | RowsFault nat err

record sess =
  committed :: database
  work :: database
  saved :: "database list"
  aborted :: bool
  active :: bool
  opened :: nat
  faults :: "fault list"
  queuedCounter :: "string \<Rightarrow> nat"
  queuedDupCounter :: "string \<Rightarrow> nat"
  dequeuedCounter :: "string \<Rightarrow> nat"
  statements :: "string \<rightharpoonup> (int \<rightharpoonup> string)"

type_synonym 'a act = "(sess, 'a) action"

definition new_sess :: "database \<Rightarrow> sess" where
  "new_sess d = \<lparr>committed = d, work = d, saved = [], aborted = False, active = False, opened = 0,
     faults = [], queuedCounter = (\<lambda>_. 0), queuedDupCounter = (\<lambda>_. 0), dequeuedCounter = (\<lambda>_. 0), statements = Map.empty\<rparr>"

section \<open>Counters\<close>

definition queued_Add :: "string \<Rightarrow> nat \<Rightarrow> unit act" where
  "queued_Add label n = modify (\<lambda>s. s\<lparr>queuedCounter := (queuedCounter s)(label := queuedCounter s label + n)\<rparr>)"

definition queuedDup_Inc :: "string \<Rightarrow> unit act" where
  "queuedDup_Inc label = modify (\<lambda>s. s\<lparr>queuedDupCounter := (queuedDupCounter s)(label := Suc (queuedDupCounter s label))\<rparr>)"

definition dequeued_Add :: "string \<Rightarrow> nat \<Rightarrow> unit act" where
  "dequeued_Add label n = modify (\<lambda>s. s\<lparr>dequeuedCounter := (dequeuedCounter s)(label := dequeuedCounter s label + n)\<rparr>)"

lemmas counter_defs = queued_Add_def queuedDup_Inc_def dequeued_Add_def modify_def

section \<open>The driver\<close>

definition ErrTxDone :: err where
  "ErrTxDone = ErrorString ''sql: transaction has already been committed or rolled back''"

definition ErrNoRows :: err where
  "ErrNoRows = ErrorString ''sql: no rows in result set''"

definition in_failed_sql_transaction :: err where
  "in_failed_sql_transaction = ErrorString
     ''pq: current transaction is aborted, commands ignored until end of transaction block''"

definition commit_failed :: err where
  "commit_failed = ErrorString ''pq: Could not complete operation in a failed transaction''"

definition no_savepoint :: err where
  "no_savepoint = ErrorString ''pq: savepoint does not exist''"

definition pop :: "sess \<Rightarrow> fault \<times> sess" where
  "pop s = (case faults s of [] \<Rightarrow> (NoFault, s) | f # fs \<Rightarrow> (f, s\<lparr>faults := fs\<rparr>))"

text \<open>A call on the connection pool, outside the transaction (\<open>PingContext\<close>, \<open>PrepareContext\<close>).\<close>

definition db_call :: "unit act" where
  "db_call s = (case pop s of (NoFault, s') \<Rightarrow> (Inr (), s') | (StmtFault e, s') \<Rightarrow> (Inl e, s')
     | (RowsFault _ e, s') \<Rightarrow> (Inl e, s'))"

definition BeginTx :: "unit act" where
  "BeginTx = bnd db_call (\<lambda>_. modify (\<lambda>s. s\<lparr>work := committed s, saved := [], aborted := False,
     active := True, opened := Suc (opened s)\<rparr>))"

text \<open>A statement in the transaction; \<open>run\<close> is its effect when neither side fails.\<close>

definition in_tx :: "(sess \<Rightarrow> err + 'a \<times> sess) \<Rightarrow> 'a act" where
  "in_tx run s =
     (if \<not> active s then (Inl ErrTxDone, s)
      else case pop s of
        (StmtFault e, s') \<Rightarrow> (Inl e, s'\<lparr>aborted := True\<rparr>)
      | (RowsFault _ e, s') \<Rightarrow> (Inl e, s'\<lparr>aborted := True\<rparr>)
      | (NoFault, s') \<Rightarrow>
          if aborted s' then (Inl in_failed_sql_transaction, s')
          else (case run s' of
             Inl e \<Rightarrow> (Inl e, s'\<lparr>aborted := True\<rparr>)
           | Inr (a, s'') \<Rightarrow> (Inr a, s'')))"

definition ExecContext :: "'a stmt \<Rightarrow> 'a act" where
  "ExecContext st = in_tx (\<lambda>s. case st (work s) of Inl e \<Rightarrow> Inl e | Inr (a, d) \<Rightarrow> Inr (a, s\<lparr>work := d\<rparr>))"

definition PrepareContext :: "unit act" where
  "PrepareContext = in_tx (\<lambda>s. Inr ((), s))"

definition Savepoint :: "unit act" where
  "Savepoint = in_tx (\<lambda>s. Inr ((), s\<lparr>saved := work s # saved s\<rparr>))"

definition RollbackTo :: "unit act" where
  "RollbackTo = in_tx (\<lambda>s. case saved s of [] \<Rightarrow> Inl no_savepoint | d # _ \<Rightarrow> Inr ((), s\<lparr>work := d\<rparr>))"

definition Release :: "unit act" where
  "Release = in_tx (\<lambda>s. case saved s of [] \<Rightarrow> Inl no_savepoint | _ # ds \<Rightarrow> Inr ((), s\<lparr>saved := ds\<rparr>))"

text \<open>A query: the rows it delivers, and what \<open>rows.Err\<close> reports after the last of them.\<close>

definition QueryContext :: "(database \<Rightarrow> 'r list) \<Rightarrow> ('r list \<times> err option) act" where
  "QueryContext q s =
     (if \<not> active s then (Inl ErrTxDone, s)
      else case pop s of
        (StmtFault e, s') \<Rightarrow> (Inl e, s'\<lparr>aborted := True\<rparr>)
      | (RowsFault n e, s') \<Rightarrow>
          if aborted s' then (Inl in_failed_sql_transaction, s')
          else (Inr (take n (q (work s')), Some e), s'\<lparr>aborted := True\<rparr>)
      | (NoFault, s') \<Rightarrow>
          if aborted s' then (Inl in_failed_sql_transaction, s')
          else (Inr (q (work s'), None), s'))"

text \<open>A query that calls a stored function with side effects.\<close>

definition QueryFunc :: "'a stmt \<Rightarrow> ('a list \<times> err option) act" where
  "QueryFunc st s =
     (if \<not> active s then (Inl ErrTxDone, s)
      else case pop s of
        (StmtFault e, s') \<Rightarrow> (Inl e, s'\<lparr>aborted := True\<rparr>)
      | (RowsFault _ e, s') \<Rightarrow>
          if aborted s' then (Inl in_failed_sql_transaction, s')
          else (Inr ([], Some e), s'\<lparr>aborted := True\<rparr>)
      | (NoFault, s') \<Rightarrow>
          if aborted s' then (Inl in_failed_sql_transaction, s')
          else (case st (work s') of
             Inl e \<Rightarrow> (Inl e, s'\<lparr>aborted := True\<rparr>)
           | Inr (a, d) \<Rightarrow> (Inr ([a], None), s'\<lparr>work := d\<rparr>)))"

definition rows_Err :: "err option \<Rightarrow> 'a \<Rightarrow> 'a act" where
  "rows_Err e a = (case e of None \<Rightarrow> ret a | Some x \<Rightarrow> throw x)"

text \<open>\<open>QueryRowContext\<close> and \<open>Scan\<close>: the first row, \<open>ErrNoRows\<close> without one.\<close>

definition QueryRow :: "(database \<Rightarrow> 'r list) \<Rightarrow> 'r act" where
  "QueryRow q = bnd (QueryContext q) (\<lambda>(rows, e). case rows of
       r # _ \<Rightarrow> ret r
     | [] \<Rightarrow> (case e of Some x \<Rightarrow> throw x | None \<Rightarrow> throw ErrNoRows))"

definition end_tx :: "sess \<Rightarrow> sess" where
  "end_tx s = s\<lparr>active := False, saved := [], aborted := False, opened := opened s - 1\<rparr>"

definition tx_Commit :: "unit act" where
  "tx_Commit s =
     (if \<not> active s then (Inl ErrTxDone, s)
      else case pop s of
        (StmtFault e, s') \<Rightarrow> (Inl e, end_tx s')
      | (RowsFault _ e, s') \<Rightarrow> (Inl e, end_tx s')
      | (NoFault, s') \<Rightarrow>
          if aborted s' then (Inl commit_failed, end_tx s')
          else (Inr (), end_tx (s'\<lparr>committed := work s'\<rparr>)))"

definition tx_Rollback :: "unit act" where
  "tx_Rollback s =
     (if \<not> active s then (Inl ErrTxDone, s)
      else case pop s of
        (StmtFault e, s') \<Rightarrow> (Inl e, end_tx s')
      | (RowsFault _ e, s') \<Rightarrow> (Inl e, end_tx s')
      | (NoFault, s') \<Rightarrow> (Inr (), end_tx s'))"

text \<open>The driver's result of a statement is itself asked for the number of rows, which may fail.\<close>

type_synonym SQLResult = "err + int"

definition checkResultOkAndRowCountIs :: "err + SQLResult \<Rightarrow> int \<Rightarrow> unit act" where
  "checkResultOkAndRowCountIs res cnt =
     (case res of
        Inl e \<Rightarrow> throw e
      | Inr (Inl rowsError) \<Rightarrow> throw rowsError
      | Inr (Inr rowsAffected) \<Rightarrow>
          if rowsAffected \<noteq> cnt
          then throw (ErrorString (''expected '' @ FormatInt (word_of_int cnt) @
                 '' row(s) to be affected but saw: '' @ FormatInt (word_of_int rowsAffected)))
          else ret ())"

section \<open>What actions guarantee\<close>

text \<open>
  \<open>guarantees R m\<close>: the state after \<open>m\<close> is related by \<open>R\<close> to the state before, whether \<open>m\<close> succeeds
  or not. The rules hold for every preorder; an invariant \<open>I\<close> is the preorder \<open>maintains I\<close>.
\<close>

definition guarantees :: "(sess \<Rightarrow> sess \<Rightarrow> bool) \<Rightarrow> 'a act \<Rightarrow> bool" where
  "guarantees R m \<longleftrightarrow> (\<forall>s. R s (snd (m s)))"

definition maintains :: "(sess \<Rightarrow> bool) \<Rightarrow> sess \<Rightarrow> sess \<Rightarrow> bool" where
  "maintains I s s' \<longleftrightarrow> (I s \<longrightarrow> I s')"

locale guarantee =
  fixes R :: "sess \<Rightarrow> sess \<Rightarrow> bool"
  assumes R_refl: "R s s"
    and R_trans: "R s s' \<Longrightarrow> R s' s'' \<Longrightarrow> R s s''"
begin

lemma ret: "guarantees R (ret a)"
  by (simp add: guarantees_def ret_def R_refl)

lemma throw: "guarantees R (throw e)"
  by (simp add: guarantees_def throw_def R_refl)

lemma lift: "guarantees R (lift r)"
  by (simp add: guarantees_def lift_def R_refl)

lemma rows_Err: "guarantees R (rows_Err e a)"
  by (cases e) (simp_all add: rows_Err_def ret throw)

lemma bnd: "guarantees R m \<Longrightarrow> (\<And>a. guarantees R (k a)) \<Longrightarrow> guarantees R (bnd m k)"
  unfolding guarantees_def bnd_def
  by (auto split: prod.splits sum.splits) (metis R_trans snd_conv)+

lemma attempt: "guarantees R m \<Longrightarrow> guarantees R (attempt m)"
  by (auto simp: guarantees_def attempt_def split: prod.splits) (metis snd_conv)

lemma wrapping: "guarantees R m \<Longrightarrow> guarantees R (wrapping t m)"
  by (auto simp: guarantees_def wrapping_def split: prod.splits sum.splits) (metis snd_conv)+

lemma loop: "(\<And>x acc. guarantees R (f x acc)) \<Longrightarrow> guarantees R (loop f xs acc)"
  by (induction xs arbitrary: acc) (simp_all add: ret bnd)

lemma checkResult: "guarantees R (checkResultOkAndRowCountIs res cnt)"
  by (simp add: checkResultOkAndRowCountIs_def ret throw split: sum.splits)

lemmas rules = ret throw lift rows_Err bnd attempt wrapping loop checkResult

end

text \<open>No statement of a transaction touches the committed database or ends the transaction.\<close>

definition confined :: "sess \<Rightarrow> sess \<Rightarrow> bool" where
  "confined s s' \<longleftrightarrow> committed s' = committed s \<and> active s' = active s \<and> opened s' = opened s"

interpretation confined: guarantee confined
  by unfold_locales (simp_all add: confined_def)

lemma pop_simps [simp]:
  "committed (snd (pop s)) = committed s" "work (snd (pop s)) = work s" "saved (snd (pop s)) = saved s"
  "aborted (snd (pop s)) = aborted s" "active (snd (pop s)) = active s" "opened (snd (pop s)) = opened s"
  "queuedCounter (snd (pop s)) = queuedCounter s" "queuedDupCounter (snd (pop s)) = queuedDupCounter s"
  "dequeuedCounter (snd (pop s)) = dequeuedCounter s"
  by (auto simp: pop_def split: list.splits)

lemma pop_eqD:
  assumes "pop s = (f, s')"
  shows "committed s' = committed s" "work s' = work s" "saved s' = saved s" "aborted s' = aborted s"
    "active s' = active s" "opened s' = opened s"
  using pop_simps [of s] assms by simp_all

lemma in_tx_post:
  "snd (in_tx run s) = s \<or> (\<exists>f s'. pop s = (f, s') \<and>
     (snd (in_tx run s) \<in> {s', s'\<lparr>aborted := True\<rparr>} \<or> (\<exists>a. run s' = Inr (a, snd (in_tx run s)))))"
  by (cases "pop s") (auto simp: in_tx_def split: fault.splits sum.splits)

lemma QueryContext_post:
  "snd (QueryContext q s) = s \<or>
     (\<exists>f s'. pop s = (f, s') \<and> snd (QueryContext q s) \<in> {s', s'\<lparr>aborted := True\<rparr>})"
  by (cases "pop s") (auto simp: QueryContext_def split: fault.splits)

lemma QueryFunc_post:
  "snd (QueryFunc st s) = s \<or> (\<exists>f s'. pop s = (f, s') \<and>
     (snd (QueryFunc st s) \<in> {s', s'\<lparr>aborted := True\<rparr>} \<or>
      (\<exists>a d. st (work s') = Inr (a, d) \<and> snd (QueryFunc st s) = s'\<lparr>work := d\<rparr>)))"
  by (cases "pop s") (auto simp: QueryFunc_def split: fault.splits sum.splits)

lemma db_call_post: "snd (db_call s) = snd (pop s)"
  by (auto simp: db_call_def split: prod.splits fault.splits)

lemma confined_pop: "pop s = (f, s') \<Longrightarrow> confined s s'"
  by (simp add: confined_def pop_eqD)

lemma confined_in_tx:
  "(\<And>s a s'. run s = Inr (a, s') \<Longrightarrow> confined s s') \<Longrightarrow> guarantees confined (in_tx run)"
  unfolding guarantees_def
proof
  fix s
  assume run: "\<And>s a s'. run s = Inr (a, s') \<Longrightarrow> confined s s'"
  show "confined s (snd (in_tx run s))"
    using in_tx_post [of run s] confined_pop [of s] run unfolding confined_def by fastforce
qed

lemma confined_ExecContext: "guarantees confined (ExecContext st)"
  unfolding ExecContext_def by (rule confined_in_tx) (auto simp: confined_def split: sum.splits)

lemma confined_PrepareContext: "guarantees confined PrepareContext"
  unfolding PrepareContext_def by (rule confined_in_tx) (auto simp: confined_def)

lemma confined_Savepoint: "guarantees confined Savepoint"
  unfolding Savepoint_def by (rule confined_in_tx) (auto simp: confined_def)

lemma confined_RollbackTo: "guarantees confined RollbackTo"
  unfolding RollbackTo_def by (rule confined_in_tx) (auto simp: confined_def split: list.splits)

lemma confined_Release: "guarantees confined Release"
  unfolding Release_def by (rule confined_in_tx) (auto simp: confined_def split: list.splits)

lemma confined_QueryContext: "guarantees confined (QueryContext q)"
  unfolding guarantees_def
proof
  fix s show "confined s (snd (QueryContext q s))"
    using QueryContext_post [of q s] confined_pop [of s] unfolding confined_def by fastforce
qed

lemma confined_QueryFunc: "guarantees confined (QueryFunc st)"
  unfolding guarantees_def
proof
  fix s show "confined s (snd (QueryFunc st s))"
    using QueryFunc_post [of st s] confined_pop [of s] unfolding confined_def by fastforce
qed

lemma confined_QueryRow: "guarantees confined (QueryRow q)"
  unfolding QueryRow_def
  by (rule confined.bnd [OF confined_QueryContext])
    (auto intro: confined.rules split: prod.splits list.splits option.splits)

lemma confined_db_call: "guarantees confined db_call"
  by (simp add: guarantees_def confined_def db_call_post)

lemma confined_counters:
  "guarantees confined (queued_Add l n)" "guarantees confined (queuedDup_Inc l)"
  "guarantees confined (dequeued_Add l n)"
  by (simp_all add: guarantees_def confined_def counter_defs)

lemmas confined_rules = confined_counters confined.rules confined_ExecContext confined_PrepareContext
  confined_Savepoint confined_RollbackTo confined_Release confined_QueryContext confined_QueryRow
  confined_QueryFunc
  confined_db_call

text \<open>
  A property of databases that the statements keep holds of the committed database, of the
  transaction's copy and of its savepoints.
\<close>

definition tx_inv :: "(database \<Rightarrow> bool) \<Rightarrow> sess \<Rightarrow> bool" where
  "tx_inv P s \<longleftrightarrow> P (committed s) \<and> P (work s) \<and> (\<forall>d\<in>set (saved s). P d)"

interpretation tx_inv: guarantee "maintains (tx_inv P)" for P
  by unfold_locales (auto simp: maintains_def)

lemma tx_inv_in_tx:
  "(\<And>s a s'. run s = Inr (a, s') \<Longrightarrow> tx_inv P s \<Longrightarrow> tx_inv P s') \<Longrightarrow>
     guarantees (maintains (tx_inv P)) (in_tx run)"
  unfolding guarantees_def
proof
  fix s
  assume run: "\<And>s a s'. run s = Inr (a, s') \<Longrightarrow> tx_inv P s \<Longrightarrow> tx_inv P s'"
  show "maintains (tx_inv P) s (snd (in_tx run s))"
    unfolding maintains_def
  proof
    assume I: "tx_inv P s"
    have "tx_inv P s'" if "pop s = (f, s')" for f s'
      using I pop_eqD [OF that] by (simp add: tx_inv_def)
    then show "tx_inv P (snd (in_tx run s))"
      using in_tx_post [of run s] I by (auto simp: tx_inv_def dest: run)
  qed
qed

lemma tx_inv_ExecContext: "keeps P st \<Longrightarrow> guarantees (maintains (tx_inv P)) (ExecContext st)"
  unfolding ExecContext_def
  by (rule tx_inv_in_tx) (auto simp: tx_inv_def dest: keepsD split: sum.splits)

lemma tx_inv_aborted [simp]: "tx_inv P (s\<lparr>aborted := b\<rparr>) = tx_inv P s"
  by (simp add: tx_inv_def)

lemma tx_inv_pop: "pop s = (f, s') \<Longrightarrow> tx_inv P s' \<longleftrightarrow> tx_inv P s"
  by (simp add: tx_inv_def pop_eqD)

lemma tx_inv_PrepareContext: "guarantees (maintains (tx_inv P)) PrepareContext"
  unfolding PrepareContext_def by (rule tx_inv_in_tx) (auto simp: tx_inv_def)

lemma tx_inv_Savepoint: "guarantees (maintains (tx_inv P)) Savepoint"
  unfolding Savepoint_def by (rule tx_inv_in_tx) (auto simp: tx_inv_def)

lemma tx_inv_RollbackTo: "guarantees (maintains (tx_inv P)) RollbackTo"
  unfolding RollbackTo_def by (rule tx_inv_in_tx) (auto simp: tx_inv_def split: list.splits)

lemma tx_inv_Release: "guarantees (maintains (tx_inv P)) Release"
  unfolding Release_def by (rule tx_inv_in_tx) (auto simp: tx_inv_def split: list.splits)

lemma tx_inv_QueryContext: "guarantees (maintains (tx_inv P)) (QueryContext q)"
  unfolding guarantees_def maintains_def
proof (intro allI impI)
  fix s assume "tx_inv P s" then show "tx_inv P (snd (QueryContext q s))"
    using QueryContext_post [of q s] by (auto simp: tx_inv_pop)
qed

lemma tx_inv_QueryFunc:
  assumes "keeps P st" shows "guarantees (maintains (tx_inv P)) (QueryFunc st)"
  unfolding guarantees_def maintains_def
proof (intro allI impI)
  fix s assume I: "tx_inv P s"
  have "tx_inv P s'" if "pop s = (f, s')" for f s' using I that by (simp add: tx_inv_pop)
  moreover have "tx_inv P (s'\<lparr>work := d\<rparr>)" if "tx_inv P s'" "st (work s') = Inr (a, d)" for s' a d
    using that keepsD [OF assms] by (auto simp: tx_inv_def)
  ultimately show "tx_inv P (snd (QueryFunc st s))"
    using QueryFunc_post [of st s] I by auto
qed

lemma tx_inv_QueryRow: "guarantees (maintains (tx_inv P)) (QueryRow q)"
  unfolding QueryRow_def
  by (rule tx_inv.bnd [OF tx_inv_QueryContext])
    (auto intro: tx_inv.rules split: prod.splits list.splits option.splits)

lemma tx_inv_db_call: "guarantees (maintains (tx_inv P)) db_call"
  by (simp add: guarantees_def maintains_def tx_inv_def db_call_post)

lemma tx_inv_modify:
  "(\<And>s. tx_inv P s \<Longrightarrow> tx_inv P (f s)) \<Longrightarrow> guarantees (maintains (tx_inv P)) (modify f)"
  by (simp add: guarantees_def maintains_def modify_def)

lemma tx_inv_BeginTx: "guarantees (maintains (tx_inv P)) BeginTx"
  unfolding BeginTx_def
  by (intro tx_inv.bnd tx_inv_db_call tx_inv_modify) (simp add: tx_inv_def)

lemma tx_inv_tx_end:
  "guarantees (maintains (tx_inv P)) tx_Commit" "guarantees (maintains (tx_inv P)) tx_Rollback"
  unfolding guarantees_def maintains_def tx_Commit_def tx_Rollback_def
  by (auto simp: tx_inv_def end_tx_def pop_eqD split: prod.splits fault.splits)

lemma tx_inv_counters:
  "guarantees (maintains (tx_inv P)) (queued_Add l n)" "guarantees (maintains (tx_inv P)) (queuedDup_Inc l)"
  "guarantees (maintains (tx_inv P)) (dequeued_Add l n)"
  by (simp_all add: guarantees_def maintains_def tx_inv_def counter_defs)

lemmas tx_inv_rules = tx_inv_counters tx_inv.rules tx_inv_ExecContext tx_inv_PrepareContext
  tx_inv_Savepoint tx_inv_RollbackTo tx_inv_Release tx_inv_QueryContext tx_inv_QueryRow
  tx_inv_QueryFunc
  tx_inv_db_call tx_inv_BeginTx tx_inv_tx_end

section \<open>Running on a session without faults\<close>

definition ready :: "sess \<Rightarrow> bool" where
  "ready s \<longleftrightarrow> active s \<and> \<not> aborted s \<and> faults s = []"

lemma ready_simps [simp]:
  "ready (s\<lparr>work := d\<rparr>) = ready s" "ready (s\<lparr>saved := ds\<rparr>) = ready s"
  "ready (s\<lparr>queuedCounter := c\<rparr>) = ready s" "ready (s\<lparr>queuedDupCounter := c\<rparr>) = ready s"
  "ready (s\<lparr>dequeuedCounter := c\<rparr>) = ready s" "ready (s\<lparr>statements := st\<rparr>) = ready s"
  by (simp_all add: ready_def)

lemma in_tx_ready [act_simps]:
  "ready s \<Longrightarrow> in_tx run s = (case run s of Inl e \<Rightarrow> (Inl e, s\<lparr>aborted := True\<rparr>) | Inr (a, s') \<Rightarrow> (Inr a, s'))"
  by (simp add: in_tx_def ready_def pop_def)

lemma ExecContext_ready [act_simps]:
  "ready s \<Longrightarrow> ExecContext st s =
     (case st (work s) of Inl e \<Rightarrow> (Inl e, s\<lparr>aborted := True\<rparr>) | Inr (a, d) \<Rightarrow> (Inr a, s\<lparr>work := d\<rparr>))"
  by (simp add: ExecContext_def in_tx_ready split: sum.splits prod.splits)

lemma PrepareContext_ready [act_simps]: "ready s \<Longrightarrow> PrepareContext s = (Inr (), s)"
  by (simp add: PrepareContext_def in_tx_ready)

lemma QueryContext_ready [act_simps]: "ready s \<Longrightarrow> QueryContext q s = (Inr (q (work s), None), s)"
  by (simp add: QueryContext_def ready_def pop_def)

lemma QueryFunc_ready [act_simps]:
  "ready s \<Longrightarrow> QueryFunc st s =
     (case st (work s) of Inl e \<Rightarrow> (Inl e, s\<lparr>aborted := True\<rparr>) | Inr (a, d) \<Rightarrow> (Inr ([a], None), s\<lparr>work := d\<rparr>))"
  by (simp add: QueryFunc_def ready_def pop_def)

lemma QueryRow_ready [act_simps]:
  "ready s \<Longrightarrow> QueryRow q s = (case q (work s) of [] \<Rightarrow> (Inl ErrNoRows, s) | r # _ \<Rightarrow> (Inr r, s))"
  by (simp add: QueryRow_def bnd_def QueryContext_ready ret_def throw_def split: list.splits)

lemma db_call_ready [act_simps]: "faults s = [] \<Longrightarrow> db_call s = (Inr (), s)"
  by (simp add: db_call_def pop_def)

lemma ready_no_faults [simp]: "ready s \<Longrightarrow> faults s = []"
  by (simp add: ready_def)

lemma act_steps [act_simps]:
  "ret a s = (Inr a, s)" "throw e s = (Inl e, s)" "lift r s = (r, s)"
  "attempt m s = (Inr (fst (m s)), snd (m s))"
  by (simp_all add: ret_def throw_def lift_def attempt_def split: prod.splits)

text \<open>A failed commit and a rollback leave the committed database as it was.\<close>

lemma tx_Commit_error: "tx_Commit s = (Inl e, s') \<Longrightarrow> committed s' = committed s"
  by (auto simp: tx_Commit_def end_tx_def pop_eqD split: if_splits prod.splits fault.splits)

lemma tx_Commit_ok: "tx_Commit s = (Inr u, s') \<Longrightarrow> committed s' = work s \<and> \<not> aborted s"
  by (auto simp: tx_Commit_def end_tx_def pop_eqD split: if_splits prod.splits fault.splits)

lemma tx_Rollback_committed [simp]: "committed (snd (tx_Rollback s)) = committed s"
  by (auto simp: tx_Rollback_def end_tx_def pop_eqD split: prod.splits fault.splits)

lemma tx_ends:
  "active s \<Longrightarrow> opened (snd (tx_Commit s)) = opened s - 1 \<and> \<not> active (snd (tx_Commit s))"
  "active s \<Longrightarrow> opened (snd (tx_Rollback s)) = opened s - 1 \<and> \<not> active (snd (tx_Rollback s))"
  by (auto simp: tx_Commit_def tx_Rollback_def end_tx_def pop_eqD split: prod.splits fault.splits)

text \<open>A transaction begins on the committed database.\<close>

definition begun :: "sess \<Rightarrow> sess \<Rightarrow> bool" where
  "begun s s' \<longleftrightarrow> committed s' = committed s \<and> work s' = committed s \<and> saved s' = [] \<and> active s' \<and>
     \<not> aborted s' \<and> opened s' = Suc (opened s)"

lemma BeginTx_post:
  "(\<exists>s'. BeginTx s = (Inr (), s') \<and> begun s s') \<or> (\<exists>e s'. BeginTx s = (Inl e, s') \<and> confined s s')"
proof (cases "db_call s")
  case (Pair r s1)
  then have s1: "s1 = snd (pop s)" using db_call_post [of s] by simp
  show ?thesis
  proof (cases r)
    case (Inl e)
    with Pair s1 show ?thesis by (auto simp: BeginTx_def bnd_def confined_def)
  next
    case (Inr u)
    with Pair s1 show ?thesis by (auto simp: BeginTx_def bnd_def modify_def begun_def)
  qed
qed

lemma BeginTx_cases [consumes 0, case_names ok fail]:
  obtains (ok) s' where "BeginTx s = (Inr (), s')" "begun s s'"
    | (fail) e s' where "BeginTx s = (Inl e, s')" "confined s s'"
  using BeginTx_post by blast

section \<open>A sample database\<close>

text \<open>One live log tree, in a transaction without faults.\<close>

definition sample_row :: trees_row where
  "sample_row = \<lparr>tr_tree_id = 5, tree_state = ''ACTIVE'', tree_type = ''LOG'',
      hash_strategy = ''RFC6962_SHA256'', hash_algorithm = ''SHA256'', signature_algorithm = ''ECDSA'',
      display_name = ''maple'', description = [], create_time_millis = 1000, update_time_millis = 1000,
      max_root_duration_millis = 3600000, private_key = [], public_key = [], deleted = False,
      delete_time_millis = None, current_tree_data = None, root_signature = None\<rparr>"

definition sample_tree :: Tree where
  "sample_tree = \<lparr>TreeId = 5, TreeState = TreeState_ACTIVE, TreeType = TreeType_LOG, DisplayName = ''maple'',
     Description = [], StorageSettings = None, MaxRootDuration = Some 3600000000000,
     CreateTime = None, UpdateTime = None, Deleted = False, DeleteTime = None\<rparr>"

definition sample_db :: database where
  "sample_db = empty_db\<lparr>trees := [sample_row]\<rparr>"

definition sample_sess :: "database \<Rightarrow> sess" where
  "sample_sess d = (new_sess d)\<lparr>active := True, opened := 1\<rparr>"

lemma new_sess_sel [simp]: "committed (new_sess d) = d" "opened (new_sess d) = 0"
  by (simp_all add: new_sess_def)

lemma sample_ready [simp]: "ready (sample_sess d)" "work (sample_sess d) = d"
  by (simp_all add: sample_sess_def new_sess_def ready_def)

lemma sample_row_sel [simp]:
  "tr_tree_id sample_row = 5" "tree_state sample_row = ''ACTIVE''" "tree_type sample_row = ''LOG''"
  "deleted sample_row = False" "delete_time_millis sample_row = None"
  by (simp_all add: sample_row_def)

lemma sample_db_wf [simp]: "wf_db sample_db"
  by (simp add: sample_db_def empty_db_def wf_defs E_TREE_STATE_def E_TREE_TYPE_def)

lemma sample_db_trees [simp]: "trees sample_db = [sample_row]"
  by (simp add: sample_db_def)

end
