(* ===== verification/AdminStorage.thy ===== *)
theory AdminStorage
  imports Session
begin

text \<open>
  \<open>pkg/storage/postgres/admin_storage.go\<close>: the administration of trees in the tables \<open>trees\<close> and
  \<open>tree_control\<close>. A method of \<open>adminTX\<close> is an action on the session; only \<open>Commit\<close>, \<open>Rollback\<close> and
  \<open>Close\<close> also change the flag \<open>closed\<close>. The functions of Trillian's package \<open>storage\<close> that the code
  calls are the fields of \<open>adminlib\<close>; the fresh identifier of \<open>storage.NewTreeID\<close> and the clock
  reading in milliseconds are arguments. The mutex of \<open>adminTX\<close> is not modelled, as one goroutine uses
  a transaction at a time in the model.
\<close>

record adminlib =
  ValidateTreeForCreation :: "Tree \<Rightarrow> err option"
  ValidateTreeForUpdate :: "Tree \<Rightarrow> Tree \<Rightarrow> err option"
  ReadTree :: "trees_row \<Rightarrow> err + Tree"
  FromMillisSinceEpoch :: "int64 \<Rightarrow> int64"

section \<open>Statements\<close>

definition defaultSequenceIntervalSeconds :: int where
  "defaultSequenceIntervalSeconds = 60"

definition selectTrees :: "database \<Rightarrow> trees_row list" where
  "selectTrees d = trees d"

definition selectNonDeletedTrees :: "database \<Rightarrow> trees_row list" where
  "selectNonDeletedTrees d = filter (\<lambda>r. \<not> deleted r) (trees d)"

definition selectTreeByID :: "int64 \<Rightarrow> database \<Rightarrow> trees_row list" where
  "selectTreeByID tid d = filter (\<lambda>r. tr_tree_id r = tid) (trees d)"

definition selectDeletedSQL :: "int64 \<Rightarrow> database \<Rightarrow> bool list" where
  "selectDeletedSQL tid d = map deleted (filter (\<lambda>r. tr_tree_id r = tid) (trees d))"

definition insertSQL :: "Tree \<Rightarrow> int64 \<Rightarrow> int64 \<Rightarrow> unit stmt" where
  "insertSQL tree nowMillis rootMillis = insert_tree
     \<lparr>tr_tree_id = TreeId tree, tree_state = TreeState_String (TreeState tree),
      tree_type = TreeType_String (TreeType tree), hash_strategy = ''RFC6962_SHA256'',
      hash_algorithm = ''SHA256'', signature_algorithm = ''ECDSA'', display_name = DisplayName tree,
      description = Description tree, create_time_millis = nowMillis, update_time_millis = nowMillis,
      max_root_duration_millis = rootMillis, private_key = [], public_key = [], deleted = False,
      delete_time_millis = None, current_tree_data = None, root_signature = None\<rparr>"

definition insertTreeControlSQL :: "int64 \<Rightarrow> bool \<Rightarrow> bool \<Rightarrow> int \<Rightarrow> unit stmt" where
  "insertTreeControlSQL tid signing sequencing interval = insert_tree_control
     \<lparr>tc_tree_id = tid, signing_enabled = signing, sequencing_enabled = sequencing,
      sequence_interval_seconds = interval\<rparr>"

definition updateTreeSQL :: "Tree \<Rightarrow> int64 \<Rightarrow> int64 \<Rightarrow> int stmt" where
  "updateTreeSQL tree nowMillis rootMillis = update_trees (TreeId tree) (\<lambda>r. r
     \<lparr>tree_state := TreeState_String (TreeState tree), tree_type := TreeType_String (TreeType tree),
      display_name := DisplayName tree, description := Description tree,
      update_time_millis := nowMillis, max_root_duration_millis := rootMillis, private_key := []\<rparr>)"

definition softDeleteSQL :: "bool \<Rightarrow> int64 option \<Rightarrow> int64 \<Rightarrow> int stmt" where
  "softDeleteSQL del delTime tid = update_trees tid (\<lambda>r. r\<lparr>deleted := del, delete_time_millis := delTime\<rparr>)"

section \<open>Transactions\<close>

record adminTX =
  closed :: bool

definition admin_beginInternal :: "adminTX act" where
  "admin_beginInternal = bnd BeginTx (\<lambda>_. ret \<lparr>closed = False\<rparr>)"

definition admin_Commit :: "adminTX \<Rightarrow> sess \<Rightarrow> (err + unit) \<times> adminTX \<times> sess" where
  "admin_Commit t s = (case tx_Commit s of (r, s') \<Rightarrow> (r, t\<lparr>closed := True\<rparr>, s'))"

definition admin_Rollback :: "adminTX \<Rightarrow> sess \<Rightarrow> (err + unit) \<times> adminTX \<times> sess" where
  "admin_Rollback t s = (case tx_Rollback s of (r, s') \<Rightarrow> (r, t\<lparr>closed := True\<rparr>, s'))"

definition IsClosed :: "adminTX \<Rightarrow> bool" where
  "IsClosed t = closed t"

definition admin_Close :: "adminTX \<Rightarrow> sess \<Rightarrow> (err + unit) \<times> adminTX \<times> sess" where
  "admin_Close t s = (if \<not> closed t then admin_Rollback t s else (Inr (), t, s))"

definition admin_ReadWriteTransaction :: "(adminTX \<Rightarrow> unit act) \<Rightarrow> unit act" where
  "admin_ReadWriteTransaction f = bnd admin_beginInternal (\<lambda>tx s.
     case f tx s of
       (Inl e, s') \<Rightarrow> (Inl e, snd (snd (admin_Close tx s')))
     | (Inr _, s') \<Rightarrow>
         (case admin_Commit tx s' of (r, tx', s'') \<Rightarrow> (r, snd (snd (admin_Close tx' s'')))))"

definition admin_CheckDatabaseAccessible :: "unit act" where
  "admin_CheckDatabaseAccessible = db_call"

definition admin_Snapshot :: "adminTX act" where
  "admin_Snapshot = admin_beginInternal"

section \<open>Operations\<close>

definition tree_not_found :: "int64 \<Rightarrow> err" where
  "tree_not_found tid = status_Errorf codes_NotFound ''NotFound'' (''tree '' @ FormatInt tid @ '' not found'')"

definition GetTree :: "adminlib \<Rightarrow> int64 \<Rightarrow> Tree act" where
  "GetTree L tid = bnd PrepareContext (\<lambda>_.
     bnd (attempt (bnd (QueryRow (selectTreeByID tid)) (\<lambda>row. lift (ReadTree L row)))) (\<lambda>r.
       case r of
         Inl e \<Rightarrow> if errors_Is e ErrNoRows then throw (tree_not_found tid)
                  else throw (wrapf (''error reading tree '' @ FormatInt tid) e)
       | Inr tree \<Rightarrow> ret tree))"

definition ListTrees :: "adminlib \<Rightarrow> bool \<Rightarrow> Tree list act" where
  "ListTrees L includeDeleted = bnd PrepareContext (\<lambda>_.
     bnd (QueryContext (if includeDeleted then selectTrees else selectNonDeletedTrees)) (\<lambda>(rows, e).
       bnd (loop (\<lambda>row ts. bnd (lift (ReadTree L row)) (\<lambda>tree. ret (ts @ [tree]))) rows []) (\<lambda>ts.
         rows_Err e ts)))"

definition validateStorageSettings :: "Tree \<Rightarrow> err option" where
  "validateStorageSettings tree =
     (case StorageSettings tree of
        None \<Rightarrow> None
      | Some x \<Rightarrow> Some (ErrorString (''storage_settings not supported, but got '' @ x)))"

definition check :: "err option \<Rightarrow> unit act" where
  "check e = (case e of None \<Rightarrow> ret () | Some x \<Rightarrow> throw x)"

text \<open>\<open>rootDuration / time.Millisecond\<close>: division of signed integers, truncated towards zero; the
  duration of a missing message is zero.\<close>

definition rootMillis :: "Tree \<Rightarrow> int64" where
  "rootMillis tree =
     (let ns = (case MaxRootDuration tree of None \<Rightarrow> 0 | Some n \<Rightarrow> sint n)
      in word_of_int (sgn ns * (\<bar>ns\<bar> div 1000000)))"

definition CreateTree :: "adminlib \<Rightarrow> err + int64 \<Rightarrow> int64 \<Rightarrow> Tree \<Rightarrow> Tree act" where
  "CreateTree L NewTreeID nowMillis tree =
     bnd (check (ValidateTreeForCreation L tree)) (\<lambda>_.
     bnd (check (validateStorageSettings tree)) (\<lambda>_.
     bnd (lift NewTreeID) (\<lambda>tid.
       let now = FromMillisSinceEpoch L nowMillis;
           newTree = tree\<lparr>TreeId := tid, CreateTime := Some now, UpdateTime := Some now\<rparr>
       in bnd PrepareContext (\<lambda>_.
          bnd (ExecContext (insertSQL newTree nowMillis (rootMillis newTree))) (\<lambda>_.
          bnd PrepareContext (\<lambda>_.
          bnd (ExecContext (insertTreeControlSQL (TreeId newTree) True True
                 defaultSequenceIntervalSeconds)) (\<lambda>_.
          ret newTree)))))))"

definition UpdateTree :: "adminlib \<Rightarrow> int64 \<Rightarrow> int64 \<Rightarrow> (Tree \<Rightarrow> Tree) \<Rightarrow> Tree act" where
  "UpdateTree L nowMillis tid updateFunc =
     bnd (GetTree L tid) (\<lambda>beforeUpdate.
       let tree = updateFunc beforeUpdate
       in bnd (check (ValidateTreeForUpdate L beforeUpdate tree)) (\<lambda>_.
          bnd (check (validateStorageSettings tree)) (\<lambda>_.
            let tree' = tree\<lparr>UpdateTime := Some (FromMillisSinceEpoch L nowMillis)\<rparr>
            in bnd PrepareContext (\<lambda>_.
               bnd (ExecContext (updateTreeSQL tree' nowMillis (rootMillis tree'))) (\<lambda>_.
               ret tree')))))"

definition validateDeleted :: "int64 \<Rightarrow> bool \<Rightarrow> unit act" where
  "validateDeleted tid wantDeleted =
     bnd (attempt (QueryRow (selectDeletedSQL tid))) (\<lambda>r.
       case r of
         Inl e \<Rightarrow> if errors_Is e ErrNoRows then throw (tree_not_found tid) else throw e
       | Inr d \<Rightarrow>
           if wantDeleted \<and> \<not> d
           then throw (status_Errorf codes_FailedPrecondition ''FailedPrecondition''
                  (''tree '' @ FormatInt tid @ '' is not soft deleted''))
           else if \<not> wantDeleted \<and> d
           then throw (status_Errorf codes_FailedPrecondition ''FailedPrecondition''
                  (''tree '' @ FormatInt tid @ '' already soft deleted''))
           else ret ())"

definition updateDeleted :: "adminlib \<Rightarrow> int64 \<Rightarrow> bool \<Rightarrow> int64 option \<Rightarrow> Tree act" where
  "updateDeleted L tid del deleteTimeMillis =
     bnd (validateDeleted tid (\<not> del)) (\<lambda>_.
     bnd (ExecContext (softDeleteSQL del deleteTimeMillis tid)) (\<lambda>_.
     GetTree L tid))"

definition SoftDeleteTree :: "adminlib \<Rightarrow> int64 \<Rightarrow> int64 \<Rightarrow> Tree act" where
  "SoftDeleteTree L nowMillis tid = updateDeleted L tid True (Some nowMillis)"

definition UndeleteTree :: "adminlib \<Rightarrow> int64 \<Rightarrow> Tree act" where
  "UndeleteTree L tid = updateDeleted L tid False None"

definition HardDeleteTree :: "int64 \<Rightarrow> unit act" where
  "HardDeleteTree tid =
     bnd (validateDeleted tid True) (\<lambda>_.
     bnd (ExecContext (delete_tree_control tid)) (\<lambda>_.
     bnd (ExecContext (delete_tree tid)) (\<lambda>_. ret ())))"

section \<open>The operations stay inside the transaction and keep the constraints\<close>

lemma confined_check: "guarantees confined (check e)"
  by (cases e) (simp_all add: check_def confined.ret confined.throw)

lemma tx_inv_check: "guarantees (maintains (tx_inv P)) (check e)"
  by (cases e) (simp_all add: check_def tx_inv.ret tx_inv.throw)

lemma confined_validateDeleted: "guarantees confined (validateDeleted tid w)"
  unfolding validateDeleted_def
  by (intro confined_rules) (auto intro: confined.rules split: sum.splits)

lemma confined_GetTree: "guarantees confined (GetTree L tid)"
  unfolding GetTree_def by (intro confined_rules) (auto intro: confined.rules split: sum.splits)

lemma confined_updateDeleted: "guarantees confined (updateDeleted L tid del t)"
  unfolding updateDeleted_def by (intro confined_rules confined_validateDeleted confined_GetTree)

lemma admin_confined:
  "guarantees confined (GetTree L tid)" "guarantees confined (ListTrees L incl)"
  "guarantees confined (CreateTree L new now tree)" "guarantees confined (UpdateTree L now tid f)"
  "guarantees confined (SoftDeleteTree L now tid)" "guarantees confined (UndeleteTree L tid)"
  "guarantees confined (HardDeleteTree tid)"
  unfolding ListTrees_def CreateTree_def UpdateTree_def SoftDeleteTree_def UndeleteTree_def
    HardDeleteTree_def Let_def
  by (intro confined_rules confined_validateDeleted confined_GetTree confined_updateDeleted
      confined_check; auto intro: confined_rules split: prod.splits)+

lemma keeps_updates [wf_intros]:
  "keeps wf_db (updateTreeSQL tree now ms)" "keeps wf_db (softDeleteSQL del t tid)"
  "keeps wf_db (insertSQL tree now ms)" "keeps wf_db (insertTreeControlSQL tid a b i)"
  by (simp_all add: updateTreeSQL_def softDeleteSQL_def insertSQL_def insertTreeControlSQL_def wf_intros)

lemma tx_inv_validateDeleted: "guarantees (maintains (tx_inv P)) (validateDeleted tid w)"
  unfolding validateDeleted_def
  by (intro tx_inv_rules) (auto intro: tx_inv.rules split: sum.splits)

lemma tx_inv_GetTree: "guarantees (maintains (tx_inv P)) (GetTree L tid)"
  unfolding GetTree_def by (intro tx_inv_rules) (auto intro: tx_inv.rules split: sum.splits)

lemma wf_updateDeleted: "guarantees (maintains (tx_inv wf_db)) (updateDeleted L tid del t)"
  unfolding updateDeleted_def
  by (intro tx_inv_rules tx_inv_validateDeleted tx_inv_GetTree wf_intros)

lemma admin_keeps_wf:
  "guarantees (maintains (tx_inv wf_db)) (GetTree L tid)"
  "guarantees (maintains (tx_inv wf_db)) (ListTrees L incl)"
  "guarantees (maintains (tx_inv wf_db)) (CreateTree L new now tree)"
  "guarantees (maintains (tx_inv wf_db)) (UpdateTree L now tid f)"
  "guarantees (maintains (tx_inv wf_db)) (SoftDeleteTree L now tid)"
  "guarantees (maintains (tx_inv wf_db)) (UndeleteTree L tid)"
  "guarantees (maintains (tx_inv wf_db)) (HardDeleteTree tid)"
  unfolding ListTrees_def CreateTree_def UpdateTree_def SoftDeleteTree_def UndeleteTree_def
    HardDeleteTree_def Let_def
  by (intro tx_inv_rules tx_inv_validateDeleted tx_inv_GetTree wf_updateDeleted tx_inv_check wf_intros;
      auto intro: tx_inv_rules split: prod.splits)+

section \<open>Behaviour of the operations\<close>

lemma selectTreeByID_row:
  "wf_db d \<Longrightarrow> r \<in> set (trees d) \<Longrightarrow> tr_tree_id r = tid \<Longrightarrow> selectTreeByID tid d = [r]"
  using filter_key_unique [of tr_tree_id "trees d" r]
  by (auto simp: selectTreeByID_def wf_db_def keys_ok_def)

lemma selectTreeByID_none: "tid \<notin> tree_ids d \<Longrightarrow> selectTreeByID tid d = []"
  by (auto simp: selectTreeByID_def tree_ids_def filter_empty_conv)

lemma selectDeletedSQL_eq: "selectDeletedSQL tid d = map deleted (selectTreeByID tid d)"
  by (simp add: selectDeletedSQL_def selectTreeByID_def)

lemma GetTree_row:
  "ready s \<Longrightarrow> wf_db (work s) \<Longrightarrow> r \<in> set (trees (work s)) \<Longrightarrow> tr_tree_id r = tid \<Longrightarrow>
     ReadTree L r = Inr t \<Longrightarrow> GetTree L tid s = (Inr t, s)"
  by (simp add: GetTree_def bnd_def act_simps selectTreeByID_row)

lemma GetTree_missing:
  "ready s \<Longrightarrow> tid \<notin> tree_ids (work s) \<Longrightarrow> GetTree L tid s = (Inl (tree_not_found tid), s)"
  by (simp add: GetTree_def bnd_def act_simps selectTreeByID_none)

lemma validateDeleted_row:
  "ready s \<Longrightarrow> wf_db (work s) \<Longrightarrow> r \<in> set (trees (work s)) \<Longrightarrow> tr_tree_id r = tid \<Longrightarrow>
     validateDeleted tid (deleted r) s = (Inr (), s)"
  by (simp add: validateDeleted_def bnd_def act_simps selectDeletedSQL_eq selectTreeByID_row)

lemma validateDeleted_missing:
  "ready s \<Longrightarrow> tid \<notin> tree_ids (work s) \<Longrightarrow> validateDeleted tid w s = (Inl (tree_not_found tid), s)"
  by (simp add: validateDeleted_def bnd_def act_simps selectDeletedSQL_eq selectTreeByID_none)

lemma validateDeleted_refused:
  "ready s \<Longrightarrow> wf_db (work s) \<Longrightarrow> r \<in> set (trees (work s)) \<Longrightarrow> tr_tree_id r = tid \<Longrightarrow>
     w \<noteq> deleted r \<Longrightarrow> \<exists>text. validateDeleted tid w s = (Inl (RPCError codes_FailedPrecondition text), s)"
  by (cases w)
    (auto simp: validateDeleted_def bnd_def act_simps selectDeletedSQL_eq selectTreeByID_row status_Errorf_def)

definition set_deleted :: "bool \<Rightarrow> int64 option \<Rightarrow> trees_row \<Rightarrow> trees_row" where
  "set_deleted del t r = r\<lparr>deleted := del, delete_time_millis := t\<rparr>"

definition map_tree :: "int64 \<Rightarrow> (trees_row \<Rightarrow> trees_row) \<Rightarrow> database \<Rightarrow> database" where
  "map_tree tid f d = d\<lparr>trees := map (\<lambda>r. if tr_tree_id r = tid then f r else r) (trees d)\<rparr>"

lemma softDeleteSQL_ok:
  assumes "wf_db d"
  shows "\<exists>n. softDeleteSQL del t tid d = Inr (n, map_tree tid (set_deleted del t) d)"
proof -
  define new where "new = trees (map_tree tid (set_deleted del t) d)"
  have "\<not> (\<exists>r\<in>set new. tree_state r \<notin> set E_TREE_STATE \<or> tree_type r \<notin> set E_TREE_TYPE)"
    using assms by (auto simp: wf_db_def columns_ok_def new_def map_tree_def set_deleted_def)
  moreover have "map_tree tid (set_deleted del t) d = d\<lparr>trees := new\<rparr>"
    by (simp add: new_def map_tree_def)
  moreover have "map (\<lambda>r. if tr_tree_id r = tid then r\<lparr>deleted := del, delete_time_millis := t\<rparr> else r) (trees d) = new"
    by (simp add: new_def map_tree_def set_deleted_def)
  ultimately show ?thesis
    by (simp only: softDeleteSQL_def update_trees_def Let_def if_False) blast
qed

lemma set_deleted_id [simp]: "tr_tree_id (set_deleted del t r) = tr_tree_id r" "deleted (set_deleted del t r) = del"
  by (simp_all add: set_deleted_def)

lemma wf_set_deleted: "wf_db d \<Longrightarrow> wf_db (map_tree tid (set_deleted del t) d)"
  using softDeleteSQL_ok [of d del t tid] keepsD [OF keeps_updates(2), of d] by blast

lemma updateDeleted_ok:
  assumes "ready s" "wf_db (work s)" "r \<in> set (trees (work s))" "tr_tree_id r = tid"
    and "deleted r = (\<not> del)" and "ReadTree L (set_deleted del t r) = Inr tree"
  shows "updateDeleted L tid del t s = (Inr tree, s\<lparr>work := map_tree tid (set_deleted del t) (work s)\<rparr>)"
proof -
  obtain n where sd: "softDeleteSQL del t tid (work s) = Inr (n, map_tree tid (set_deleted del t) (work s))"
    using softDeleteSQL_ok assms(2) by blast
  let ?s = "s\<lparr>work := map_tree tid (set_deleted del t) (work s)\<rparr>"
  have "wf_db (work ?s)" using wf_set_deleted assms(2) by simp
  moreover have "set_deleted del t r \<in> set (trees (work ?s))"
    using assms(3,4) by (auto simp: map_tree_def image_iff intro!: bexI [of _ r])
  ultimately have "GetTree L tid ?s = (Inr tree, ?s)"
    using assms(1,4,6) by (intro GetTree_row) auto
  moreover have "validateDeleted tid (\<not> del) s = (Inr (), s)"
    using validateDeleted_row [OF assms(1-4)] assms(5) by simp
  ultimately show ?thesis
    using assms(1) by (simp add: updateDeleted_def bnd_def act_simps sd)
qed

lemma map_tree_map_tree:
  "(\<And>r. tr_tree_id (f r) = tr_tree_id r) \<Longrightarrow> map_tree tid g (map_tree tid f d) = map_tree tid (g \<circ> f) d"
  by (simp add: map_tree_def)

lemma map_tree_id: "(\<And>r. r \<in> set (trees d) \<Longrightarrow> tr_tree_id r = tid \<Longrightarrow> f r = r) \<Longrightarrow> map_tree tid f d = d"
  by (simp add: map_tree_def map_idI)

text \<open>
  C34: Deleting a tree softly and undeleting it leaves the database exactly as it was. Both calls
  return the tree as its row then reads, and between the two the row carries the time of deletion.
\<close>

theorem soft_delete_undelete:
  assumes "ready s" "wf_db (work s)" and row: "r \<in> set (trees (work s))" "tr_tree_id r = tid"
    and live: "\<not> deleted r" "delete_time_millis r = None"
    and reads: "ReadTree L r = Inr tree" "ReadTree L (set_deleted True (Some now) r) = Inr tree'"
  shows "\<exists>s'. SoftDeleteTree L now tid s = (Inr tree', s') \<and>
           set_deleted True (Some now) r \<in> set (trees (work s')) \<and> UndeleteTree L tid s' = (Inr tree, s)"
proof -
  let ?s = "s\<lparr>work := map_tree tid (set_deleted True (Some now)) (work s)\<rparr>"
  have soft: "SoftDeleteTree L now tid s = (Inr tree', ?s)"
    unfolding SoftDeleteTree_def using assms by (intro updateDeleted_ok) auto
  have row': "set_deleted True (Some now) r \<in> set (trees (work ?s))"
    using row by (auto simp: map_tree_def image_iff intro!: bexI [of _ r])
  have unique: "r' = r" if "r' \<in> set (trees (work s))" "tr_tree_id r' = tid" for r'
    using that row assms(2) by (auto simp: wf_db_def keys_ok_def distinct_map inj_on_def)
  have r: "set_deleted False None (set_deleted True (Some now) r) = r"
    using live by (simp add: set_deleted_def)
  have again: "map_tree tid (set_deleted False None) (work ?s) = work s"
  proof -
    have "map_tree tid (set_deleted False None) (work ?s)
        = map_tree tid (set_deleted False None \<circ> set_deleted True (Some now)) (work s)"
      by (simp add: map_tree_map_tree set_deleted_id)
    also have "\<dots> = work s" by (rule map_tree_id) (use unique r in auto)
    finally show ?thesis .
  qed
  have "wf_db (work ?s)" using wf_set_deleted assms(2) by simp
  then have "UndeleteTree L tid ?s = (Inr tree, s)"
    unfolding UndeleteTree_def using assms row' again r
    by (subst updateDeleted_ok [where r = "set_deleted True (Some now) r"]) auto
  with soft row' show ?thesis by blast
qed

text \<open>The database without the rows of a tree, in the tables that refer to it.\<close>

definition purge :: "int64 \<Rightarrow> database \<Rightarrow> database" where
  "purge tid d = \<lparr>trees = [r \<leftarrow> trees d. tr_tree_id r \<noteq> tid],
     tree_control = [r \<leftarrow> tree_control d. tc_tree_id r \<noteq> tid],
     subtree = [r \<leftarrow> subtree d. st_tree_id r \<noteq> tid], tree_head = [r \<leftarrow> tree_head d. th_tree_id r \<noteq> tid],
     leaf_data = [r \<leftarrow> leaf_data d. ld_tree_id r \<noteq> tid],
     sequenced_leaf_data = [r \<leftarrow> sequenced_leaf_data d. sq_tree_id r \<noteq> tid], unsequenced = unsequenced d\<rparr>"

text \<open>
  C33: A tree is removed only after it was deleted softly. Then its row and every row that refers to
  it (control, subtrees, tree heads, leaf data, sequenced leaves) are gone, and the rows of other
  trees are kept; so are the tree's rows in \<open>unsequenced\<close>, which has no foreign key. An unknown tree
  gives \<open>NotFound\<close>, a live one \<open>FailedPrecondition\<close>, and the database is unchanged.
\<close>

theorem hard_delete:
  assumes "ready s" "wf_db (work s)"
  shows "(tid \<notin> tree_ids (work s) \<longrightarrow> HardDeleteTree tid s = (Inl (tree_not_found tid), s)) \<and>
     (\<forall>r\<in>set (trees (work s)). tr_tree_id r = tid \<longrightarrow>
        (if deleted r then HardDeleteTree tid s = (Inr (), s\<lparr>work := purge tid (work s)\<rparr>)
         else \<exists>text. HardDeleteTree tid s = (Inl (RPCError codes_FailedPrecondition text), s)))"
proof (intro conjI impI ballI)
  assume "tid \<notin> tree_ids (work s)"
  then show "HardDeleteTree tid s = (Inl (tree_not_found tid), s)"
    using assms by (simp add: HardDeleteTree_def bnd_def validateDeleted_missing)
next
  fix r assume row: "r \<in> set (trees (work s))" "tr_tree_id r = tid"
  then have known: "tid \<in> tree_ids (work s)" by (auto simp: tree_ids_def)
  show "if deleted r then HardDeleteTree tid s = (Inr (), s\<lparr>work := purge tid (work s)\<rparr>)
         else \<exists>text. HardDeleteTree tid s = (Inl (RPCError codes_FailedPrecondition text), s)"
  proof (cases "deleted r")
    case True
    then have "validateDeleted tid True s = (Inr (), s)"
      using validateDeleted_row [OF assms row] by simp
    with True known assms(1) show ?thesis
      by (simp add: HardDeleteTree_def bnd_def act_simps delete_tree_control_def delete_tree_def purge_def)
  next
    case False
    then obtain msg where "validateDeleted tid True s = (Inl (RPCError codes_FailedPrecondition msg), s)"
      using validateDeleted_refused [OF assms row, of True] by auto
    with False show ?thesis by (simp add: HardDeleteTree_def bnd_def)
  qed
qed

definition tree_row_of :: "Tree \<Rightarrow> int64 \<Rightarrow> trees_row" where
  "tree_row_of tree nowMillis =
     \<lparr>tr_tree_id = TreeId tree, tree_state = TreeState_String (TreeState tree),
      tree_type = TreeType_String (TreeType tree), hash_strategy = ''RFC6962_SHA256'',
      hash_algorithm = ''SHA256'', signature_algorithm = ''ECDSA'', display_name = DisplayName tree,
      description = Description tree, create_time_millis = nowMillis, update_time_millis = nowMillis,
      max_root_duration_millis = rootMillis tree, private_key = [], public_key = [], deleted = False,
      delete_time_millis = None, current_tree_data = None, root_signature = None\<rparr>"

text \<open>
  What \<open>storage.ReadTree\<close> documents: it reads back the columns that \<open>CreateTree\<close> writes. A tree has
  these columns when its duration is a whole number of milliseconds and it is not deleted.
\<close>

definition reads_back :: "adminlib \<Rightarrow> Tree \<Rightarrow> int64 \<Rightarrow> bool" where
  "reads_back L tree nowMillis \<longleftrightarrow>
     ReadTree L (tree_row_of tree nowMillis) = Inr (tree
       \<lparr>CreateTime := Some (FromMillisSinceEpoch L nowMillis),
        UpdateTime := Some (FromMillisSinceEpoch L nowMillis)\<rparr>)"

text \<open>
  C35: A tree that \<open>CreateTree\<close> returns has the fresh identifier and the time of creation, is listed
  as not deleted, has its row in \<open>tree_control\<close> with signing and sequencing enabled, and is what
  \<open>GetTree\<close> then reads under its identifier.
\<close>

theorem create_then_get:
  assumes "ready s" "wf_db (work s)"
    and valid: "ValidateTreeForCreation L tree = None" "StorageSettings tree = None"
    and state: "TreeState tree = TreeState_ACTIVE" "TreeType tree = TreeType_LOG"
    and fresh: "tid \<notin> tree_ids (work s)"
    and reads: "reads_back L (tree\<lparr>TreeId := tid\<rparr>) now"
  shows "\<exists>new s'. CreateTree L (Inr tid) now tree s = (Inr new, s') \<and> TreeId new = tid \<and>
           CreateTime new = Some (FromMillisSinceEpoch L now) \<and> GetTree L tid s' = (Inr new, s') \<and>
           tree_row_of new now \<in> set (selectNonDeletedTrees (work s')) \<and>
           \<lparr>tc_tree_id = tid, signing_enabled = True, sequencing_enabled = True,
            sequence_interval_seconds = 60\<rparr> \<in> set (tree_control (work s'))"
proof -
  define now' where "now' = FromMillisSinceEpoch L now"
  define new where "new = tree\<lparr>TreeId := tid, CreateTime := Some now', UpdateTime := Some now'\<rparr>"
  define ctl where "ctl = \<lparr>tc_tree_id = tid, signing_enabled = True, sequencing_enabled = True,
            sequence_interval_seconds = 60\<rparr>"
  let ?d = "(work s)\<lparr>trees := trees (work s) @ [tree_row_of new now]\<rparr>"
  let ?s = "s\<lparr>work := ?d\<lparr>tree_control := tree_control (work s) @ [ctl]\<rparr>\<rparr>"
  have row: "insertSQL new now (rootMillis new) (work s) = Inr ((), ?d)"
    using fresh state
    by (simp add: insertSQL_def insert_tree_def tree_row_of_def new_def E_TREE_STATE_def E_TREE_TYPE_def)
  have tid: "tid \<notin> tc_tree_id ` set (tree_control (work s))"
    using fresh assms(2) by (auto simp: wf_db_def references_ok_def)
  have control: "insertTreeControlSQL tid True True 60 ?d = Inr ((), work ?s)"
    using tid by (auto simp: insertTreeControlSQL_def insert_tree_control_def ctl_def tree_row_of_def new_def)
  have "CreateTree L (Inr tid) now tree s = (Inr new, ?s)"
    using assms(1) valid row control
    by (simp add: CreateTree_def bnd_def act_simps check_def validateStorageSettings_def Let_def
        new_def now'_def defaultSequenceIntervalSeconds_def)
  moreover have "GetTree L tid ?s = (Inr new, ?s)"
  proof (rule GetTree_row)
    show "wf_db (work ?s)"
      using keepsD [OF keeps_updates(4) keepsD [OF keeps_updates(3) assms(2) row] control] .
    show "tree_row_of new now \<in> set (trees (work ?s))" by simp
    show "ReadTree L (tree_row_of new now) = Inr new"
      using reads by (simp add: reads_back_def new_def now'_def tree_row_of_def rootMillis_def)
  qed (use assms(1) in \<open>simp_all add: tree_row_of_def new_def\<close>)
  moreover have "tree_row_of new now \<in> set (selectNonDeletedTrees (work ?s))"
    by (simp add: selectNonDeletedTrees_def tree_row_of_def)
  ultimately show ?thesis
    by (intro exI [of _ new] exI [of _ ?s]) (simp add: new_def now'_def ctl_def)
qed

section \<open>Transactions are atomic\<close>

lemma admin_beginInternal_ok:
  "admin_beginInternal s = (Inr tx, s') \<Longrightarrow> tx = \<lparr>closed = False\<rparr> \<and> begun s s'"
  by (cases s rule: BeginTx_cases) (auto simp: admin_beginInternal_def bnd_def ret_def)

lemma admin_beginInternal_error: "admin_beginInternal s = (Inl e, s') \<Longrightarrow> confined s s'"
  by (cases s rule: BeginTx_cases) (auto simp: admin_beginInternal_def bnd_def ret_def)

lemma admin_Close_open [simp]:
  "committed (snd (snd (admin_Close \<lparr>closed = False\<rparr> s))) = committed s"
  "active s \<Longrightarrow> opened (snd (snd (admin_Close \<lparr>closed = False\<rparr> s))) = opened s - 1"
  using tx_ends(2) [of s] by (auto simp: admin_Close_def admin_Rollback_def split: prod.splits)
    (metis tx_Rollback_committed snd_conv)+

lemma admin_Close_closed [simp]: "closed t \<Longrightarrow> snd (snd (admin_Close t s)) = s"
  by (simp add: admin_Close_def)

text \<open>
  C32: A read-write transaction of the administration storage takes effect as a whole or not at all.
  When it reports an error, from the function it runs, from the driver or from the commit, the
  committed database is the one before. When it succeeds, the committed database is the one the
  function has produced from it. In both cases the transaction is finished.
\<close>

theorem admin_transaction_atomic:
  assumes "\<And>tx. guarantees confined (f tx)"
  shows "case admin_ReadWriteTransaction f s of
       (Inl _, s') \<Rightarrow> committed s' = committed s \<and> opened s' = opened s
     | (Inr _, s') \<Rightarrow> \<exists>s1 s2. begun s s1 \<and> f \<lparr>closed = False\<rparr> s1 = (Inr (), s2) \<and>
                        committed s' = work s2 \<and> opened s' = opened s"
proof (cases "admin_beginInternal s")
  case (Pair r s1)
  show ?thesis
  proof (cases r)
    case (Inl e)
    with Pair have "admin_beginInternal s = (Inl e, s1)" by simp
    from admin_beginInternal_error [OF this] show ?thesis
      using Pair Inl by (simp add: admin_ReadWriteTransaction_def bnd_def confined_def)
  next
    case (Inr tx)
    with Pair have "admin_beginInternal s = (Inr tx, s1)" by simp
    from admin_beginInternal_ok [OF this] have tx: "tx = \<lparr>closed = False\<rparr>" and s1: "begun s s1" by auto
    obtain r2 s2 where f: "f tx s1 = (r2, s2)" by fastforce
    with assms [of tx] have s2: "confined s1 s2" by (auto simp: guarantees_def dest: spec [of _ s1])
    obtain r3 s3 where c: "tx_Commit s2 = (r3, s3)" by fastforce
    have live: "active s2" "opened s2 = Suc (opened s)" "committed s2 = committed s"
      using s1 s2 by (auto simp: begun_def confined_def)
    have ended: "opened s3 = opened s" using tx_ends(1) [OF live(1)] c live(2) by simp
    have failed: "committed s3 = committed s" if "r3 = Inl e" for e
      using tx_Commit_error [of s2 e s3] c that live(3) by simp
    have finished: "committed s3 = work s2" if "r3 = Inr u" for u
      using tx_Commit_ok [of s2 u s3] c that by simp
    have start: "admin_beginInternal s = (Inr \<lparr>closed = False\<rparr>, s1)" using Pair Inr tx by simp
    show ?thesis
    proof (cases r2)
      case (Inl e)
      with start f tx live show ?thesis by (simp add: admin_ReadWriteTransaction_def bnd_def)
    next
      case (Inr u)
      with start f tx c have eq: "admin_ReadWriteTransaction f s = (r3, s3)"
        by (simp add: admin_ReadWriteTransaction_def bnd_def admin_Commit_def)
      show ?thesis
      proof (cases r3)
        case (Inl e) with eq ended failed show ?thesis by simp
      next
        case r3: (Inr v)
        have "f \<lparr>closed = False\<rparr> s1 = (Inr (), s2)" using f tx Inr by simp
        with eq ended finished [OF r3] r3 s1 show ?thesis by auto
      qed
    qed
  qed
qed

section \<open>Instances\<close>

text \<open>
  A concrete library: every tree is valid, rows are read column by column, and a millisecond is a
  million nanoseconds.
\<close>

definition sample_read :: "trees_row \<Rightarrow> err + Tree" where
  "sample_read r = Inr \<lparr>TreeId = tr_tree_id r,
     TreeState = (if tree_state r = ''ACTIVE'' then TreeState_ACTIVE else TreeState_Other (tree_state r)),
     TreeType = (if tree_type r = ''LOG'' then TreeType_LOG else TreeType_Other (tree_type r)),
     DisplayName = display_name r, Description = description r, StorageSettings = None,
     MaxRootDuration = Some (max_root_duration_millis r * 1000000),
     CreateTime = Some (create_time_millis r * 1000000), UpdateTime = Some (update_time_millis r * 1000000),
     Deleted = deleted r, DeleteTime = map_option (\<lambda>t. t * 1000000) (delete_time_millis r)\<rparr>"

definition sample_adminlib :: adminlib where
  "sample_adminlib = \<lparr>ValidateTreeForCreation = (\<lambda>_. None), ValidateTreeForUpdate = (\<lambda>_ _. None),
     ReadTree = sample_read, FromMillisSinceEpoch = (\<lambda>m. m * 1000000)\<rparr>"

theorem soft_delete_undelete_witness:
  "\<exists>tree tree' s'. SoftDeleteTree sample_adminlib 7 5 (sample_sess sample_db) = (Inr tree', s') \<and>
     set_deleted True (Some 7) sample_row \<in> set (trees (work s')) \<and>
     UndeleteTree sample_adminlib 5 s' = (Inr tree, sample_sess sample_db)"
proof -
  obtain tree where "ReadTree sample_adminlib sample_row = Inr tree"
    by (simp add: sample_adminlib_def sample_read_def)
  moreover obtain tree' where "ReadTree sample_adminlib (set_deleted True (Some 7) sample_row) = Inr tree'"
    by (simp add: sample_adminlib_def sample_read_def)
  ultimately show ?thesis
    using soft_delete_undelete [of "sample_sess sample_db" sample_row 5 sample_adminlib tree 7 tree']
    by simp blast
qed

theorem hard_delete_witness:
  "HardDeleteTree 9 (sample_sess sample_db) = (Inl (tree_not_found 9), sample_sess sample_db) \<and>
   (\<exists>msg. HardDeleteTree 5 (sample_sess sample_db)
      = (Inl (RPCError codes_FailedPrecondition msg), sample_sess sample_db))"
  using hard_delete [of "sample_sess sample_db" 9] hard_delete [of "sample_sess sample_db" 5]
  by (simp add: tree_ids_def)

theorem create_then_get_witness:
  "\<exists>new s'. CreateTree sample_adminlib (Inr 5) 1000 sample_tree (sample_sess empty_db) = (Inr new, s') \<and>
     GetTree sample_adminlib 5 s' = (Inr new, s')"
proof -
  have "rootMillis sample_tree = 3600000"
    by (simp add: rootMillis_def sample_tree_def)
  then have "reads_back sample_adminlib (sample_tree\<lparr>TreeId := 5\<rparr>) 1000"
    by (simp add: reads_back_def sample_adminlib_def sample_read_def tree_row_of_def sample_tree_def rootMillis_def)
  moreover have "ValidateTreeForCreation sample_adminlib sample_tree = None" "StorageSettings sample_tree = None"
    "TreeState sample_tree = TreeState_ACTIVE" "TreeType sample_tree = TreeType_LOG"
    by (simp_all add: sample_adminlib_def sample_tree_def)
  moreover have "5 \<notin> tree_ids (work (sample_sess empty_db))" "wf_db (work (sample_sess empty_db))"
    by (simp_all add: tree_ids_def) (simp add: empty_db_def)
  ultimately show ?thesis
    using create_then_get [OF sample_ready(1)] by blast
qed

theorem admin_transaction_atomic_witness:
  "case admin_ReadWriteTransaction (\<lambda>_. bnd (HardDeleteTree 5) ret) (new_sess sample_db) of
       (Inl _, s') \<Rightarrow> committed s' = sample_db \<and> opened s' = 0
     | (Inr _, s') \<Rightarrow> \<exists>s1 s2. begun (new_sess sample_db) s1 \<and> bnd (HardDeleteTree 5) ret s1 = (Inr (), s2) \<and>
                        committed s' = work s2 \<and> opened s' = 0"
  using admin_transaction_atomic [of "\<lambda>_. bnd (HardDeleteTree 5) ret" "new_sess sample_db",
      OF confined.bnd [OF admin_confined(7) confined.ret]]
  by (simp only: new_sess_sel)

end
