(* ===== verification/TreeStorage.thy ===== *)
theory TreeStorage
  imports Session
begin

text \<open>
  \<open>pkg/storage/postgres/tree_storage.go\<close>: the expansion and the cache of prepared statements, and the
  versioned store of subtrees. A prepared statement is represented by its text; \<open>select_subtree\<close> is
  what the statement \<open>selectSubtreeSQL\<close> computes from its arguments. The subtree cache and the
  protobuf codec of Trillian are the fields of \<open>cachelib\<close>: a function that takes a callback is a tree
  of its calls, which the code answers from the database. A panic is an error here: it unwinds through
  the same deferred calls, and nothing in the package recovers from it.
\<close>

record SubtreeProto =
  Prefix :: "bytes option"
  proto_rest :: bytes

record NodeID =
  Level :: nat
  Index :: uint64

record Node =
  node_ID :: NodeID
  node_Hash :: bytes

section \<open>Callbacks\<close>

datatype ('q, 'r, 'a) calling = Return 'a | Fails err | Calls 'q "err + 'r \<Rightarrow> ('q, 'r, 'a) calling"

primrec answering :: "('q \<Rightarrow> 'r act) \<Rightarrow> ('q, 'r, 'a) calling \<Rightarrow> 'a act" where
  "answering h (Return a) = ret a"
| "answering h (Fails e) = throw e"
| "answering h (Calls q k) = bnd (attempt (h q)) (\<lambda>r. answering h (k r))"

record 'c cachelib =
  NewLogSubtreeCache :: 'c
  cache_Flush :: "'c \<Rightarrow> (SubtreeProto list, unit, 'c) calling"
  cache_SetNodeHash :: "'c \<Rightarrow> NodeID \<Rightarrow> bytes \<Rightarrow> (bytes, SubtreeProto option, 'c) calling"
  cache_GetNodes :: "'c \<Rightarrow> NodeID list \<Rightarrow> (bytes list, SubtreeProto list, Node list \<times> 'c) calling"
  proto_Marshal :: "SubtreeProto \<Rightarrow> err + bytes"
  proto_Unmarshal :: "bytes \<Rightarrow> err + SubtreeProto"

section \<open>Statements\<close>

text \<open>\<open>fmt.Sprintf\<close> of a format with the verb \<open>%s\<close> only.\<close>

fun Sprintf :: "string \<Rightarrow> string list \<Rightarrow> string" where
  "Sprintf [] [] = []"
| "Sprintf [] (a # as) = ''%!(EXTRA string='' @ a @ concat (map (\<lambda>x. '', string='' @ x) as) @ '')''"
| "Sprintf (c # cs) args =
     (if c = CHR ''%'' \<and> cs \<noteq> [] \<and> hd cs = CHR ''s'' then
        (case args of
           [] \<Rightarrow> ''%!s(MISSING)'' @ Sprintf (tl cs) []
         | a # as \<Rightarrow> a @ Sprintf (tl cs) as)
      else c # Sprintf cs args)"

definition Itoa :: "int \<Rightarrow> string" where
  "Itoa i = (if i < 0 then CHR ''-'' # FormatNat (nat (- i)) else FormatNat (nat i))"

definition placeholderSQL :: string where
  "placeholderSQL = ''<placeholder>''"

definition insertSubtreeMultiSQL :: string where
  "insertSubtreeMultiSQL =
     ''INSERT INTO subtree(tree_id, subtree_id, nodes, subtree_revision) '' @ placeholderSQL"

definition text_line :: "nat \<Rightarrow> string \<Rightarrow> string" where
  "text_line n s = CHR 0x0A # replicate n (CHR 0x09) @ s"

definition selectSubtreeSQL :: string where
  "selectSubtreeSQL =
     text_line 2 ''SELECT x.subtree_id, x.max_revision, subtree.nodes'' @
     text_line 2 ''FROM ('' @
     text_line 3 ''SELECT n.subtree_id, max(n.subtree_revision) AS max_revision'' @
     text_line 3 ''FROM subtree n'' @
     text_line 3 ''WHERE n.subtree_id IN ('' @ placeholderSQL @ '') AND'' @
     text_line 3 ''n.tree_id = <param> AND n.subtree_revision <= <param>'' @
     text_line 3 ''GROUP BY n.subtree_id'' @
     text_line 2 '') AS x'' @
     text_line 2 ''INNER JOIN subtree'' @
     text_line 2 ''ON subtree.subtree_id = x.subtree_id'' @
     text_line 2 ''AND subtree.subtree_revision = x.max_revision'' @
     text_line 2 ''AND subtree.tree_id = <param>''"

record statementSkeleton =
  sk_sql :: string
  firstInsertion :: string
  firstPlaceholders :: nat
  restInsertion :: string
  restPlaceholders :: nat
  num :: int

definition expandPlaceholderSQL :: "statementSkeleton \<Rightarrow> err + string" where
  "expandPlaceholderSQL sk =
     (if num sk \<le> 0
      then Inl (ErrorString (''trying to expand SQL placeholder with <= 0 parameters: '' @ sk_sql sk))
      else
        let restCount = nat (num sk - 1);
            totalArray = map (\<lambda>i. CHR ''$'' # FormatNat (Suc i))
                           [0..<firstPlaceholders sk + restPlaceholders sk * restCount];
            toInsert = Sprintf (firstInsertion sk) (take (firstPlaceholders sk) totalArray) @
                       Sprintf (concat (replicate restCount (CHR '','' # restInsertion sk)))
                         (drop (firstPlaceholders sk) totalArray)
        in Inr (Replace1 (sk_sql sk) placeholderSQL toInsert))"

lemma Replace1_split:
  "Contains s old \<Longrightarrow> old \<noteq> [] \<Longrightarrow>
     \<exists>pre post. s = pre @ old @ post \<and> Replace1 s old new = pre @ new @ post"
proof (induction s)
  case Nil then show ?case by simp
next
  case (Cons c cs)
  show ?case
  proof (cases "prefix old (c # cs)")
    case True
    then obtain zs where zs: "c # cs = old @ zs" by (auto simp: prefix_def)
    have "Replace1 (c # cs) old new = new @ zs" using True arg_cong [OF zs, of "drop (length old)"] by simp
    with zs show ?thesis by (metis append_Nil)
  next
    case False
    with Cons obtain pre post where "cs = pre @ old @ post" "Replace1 cs old new = pre @ new @ post"
      by auto
    with False show ?thesis by (intro exI [of _ "c # pre"] exI [of _ post]) simp
  qed
qed

lemma FormatNat_digits: "c \<in> set (FormatNat n) \<Longrightarrow> \<exists>d<10. c = digit_char d"
proof (induction n rule: FormatNat.induct)
  case (1 n)
  then show ?case using FormatNat.simps [of n]
    by (auto split: if_splits intro: exI [of _ "n mod 10"])
qed

lemma Itoa_no_bracket: "CHR ''<'' \<notin> set (Itoa i)"
proof
  have no: "digit_char d \<noteq> CHR ''<''" if "d < 10" for d
    using that digit_val_digit_char [of d] by (auto simp: digit_val_def)
  assume "CHR ''<'' \<in> set (Itoa i)"
  then obtain n where "CHR ''<'' \<in> set (FormatNat n)" by (auto simp: Itoa_def split: if_splits)
  from FormatNat_digits [OF this] no show False by metis
qed

text \<open>Every turn of the loop removes a bracket, and the number it writes has none.\<close>

function expandParams :: "string \<Rightarrow> int \<Rightarrow> string" where
  "expandParams statement counter =
     (if Contains statement ''<param>''
      then expandParams (Replace1 statement ''<param>'' (CHR ''$'' # Itoa counter)) (counter + 1)
      else statement)"
  by pat_completeness auto
termination
proof (relation "measure (\<lambda>(s, _). length (filter ((=) CHR ''<'') s))"; clarsimp)
  fix s and i :: int
  assume "Contains s ''<param>''"
  then obtain pre post where "s = pre @ ''<param>'' @ post"
    and "Replace1 s ''<param>'' (CHR ''$'' # Itoa i) = pre @ (CHR ''$'' # Itoa i) @ post"
    using Replace1_split [of s "''<param>''" "CHR ''$'' # Itoa i"] by auto
  moreover have "filter ((=) CHR ''<'') (Itoa i) = []"
    using Itoa_no_bracket [of i] by (auto simp: filter_empty_conv)
  ultimately show "length (filter ((=) CHR ''<'') (Replace1 s ''<param>'' (CHR ''$'' # Itoa i)))
      < length (filter ((=) CHR ''<'') s)"
    by simp
qed

declare expandParams.simps [simp del]

definition statement_text :: "statementSkeleton \<Rightarrow> err + string" where
  "statement_text sk =
     (case expandPlaceholderSQL sk of
        Inl e \<Rightarrow> Inl e
      | Inr statement \<Rightarrow> Inr (expandParams statement (int (restPlaceholders sk) * num sk + 1)))"

definition prepare_stmt :: "statementSkeleton \<Rightarrow> (int \<rightharpoonup> string) \<Rightarrow> string act" where
  "prepare_stmt sk row =
     bnd (modify (\<lambda>s. s\<lparr>statements := (statements s)(sk_sql sk \<mapsto> row)\<rparr>)) (\<lambda>_.
     bnd (lift (statement_text sk)) (\<lambda>statement.
     bnd db_call (\<lambda>_.
     bnd (modify (\<lambda>s. s\<lparr>statements := (statements s)(sk_sql sk \<mapsto> row(num sk \<mapsto> statement))\<rparr>)) (\<lambda>_.
     ret statement))))"

definition getStmt :: "statementSkeleton \<Rightarrow> string act" where
  "getStmt sk s =
     (let row = (case statements s (sk_sql sk) of None \<Rightarrow> Map.empty | Some m \<Rightarrow> m)
      in case row (num sk) of Some stmt \<Rightarrow> (Inr stmt, s) | None \<Rightarrow> prepare_stmt sk row s)"

text \<open>The skeleton of a query: one placeholder for each of its \<open>n\<close> values.\<close>

definition select_skeleton :: "string \<Rightarrow> int \<Rightarrow> statementSkeleton" where
  "select_skeleton q n = \<lparr>sk_sql = q, firstInsertion = ''%s'', firstPlaceholders = 1,
     restInsertion = ''%s'', restPlaceholders = 1, num = n\<rparr>"

definition getSubtreeStmt :: "int \<Rightarrow> string act" where
  "getSubtreeStmt n = getStmt (select_skeleton selectSubtreeSQL n)"

definition set_subtree_skeleton :: "int \<Rightarrow> statementSkeleton" where
  "set_subtree_skeleton n = \<lparr>sk_sql = insertSubtreeMultiSQL, firstInsertion = ''VALUES(%s, %s, %s, %s)'',
     firstPlaceholders = 4, restInsertion = ''(%s, %s, %s, %s)'', restPlaceholders = 4, num = n\<rparr>"

definition setSubtreeStmt :: "int \<Rightarrow> string act" where
  "setSubtreeStmt n = getStmt (set_subtree_skeleton n)"

section \<open>Transactions on a tree\<close>

text \<open>
  What \<open>selectSubtreeSQL\<close> computes: for each of the identifiers, the row of the tree with the
  greatest revision that is at most the given one.
\<close>

definition select_subtree :: "bytes list \<Rightarrow> int64 \<Rightarrow> int64 \<Rightarrow> database \<Rightarrow> subtree_row list" where
  "select_subtree ids tid atRev d =
     (let candidates = filter (\<lambda>r. subtree_id r \<in> set ids \<and> st_tree_id r = tid \<and> subtree_revision r \<le>s atRev) (subtree d)
      in filter (\<lambda>r. \<forall>r'\<in>set candidates. subtree_id r' = subtree_id r \<longrightarrow> subtree_revision r' \<le>s subtree_revision r)
           candidates)"

record 'c treeTX =
  ttx_closed :: bool
  treeID :: int64
  treeType :: TreeType
  hashSizeBytes :: nat
  subtreeCache :: 'c
  writeRevision :: int64

definition beginTreeTx :: "Tree \<Rightarrow> nat \<Rightarrow> 'c \<Rightarrow> 'c treeTX act" where
  "beginTreeTx tree hashSize stCache = bnd BeginTx (\<lambda>_. ret
     \<lparr>ttx_closed = False, treeID = TreeId tree, treeType = TreeType tree, hashSizeBytes = hashSize,
      subtreeCache = stCache, writeRevision = -1\<rparr>)"

definition getSubtrees :: "'c cachelib \<Rightarrow> ('c, 'm) treeTX_scheme \<Rightarrow> int64 \<Rightarrow> bytes list \<Rightarrow> SubtreeProto list act" where
  "getSubtrees C t treeRevision ids =
     (if ids = [] then ret []
      else bnd (getSubtreeStmt (int (length ids))) (\<lambda>_.
           bnd (QueryContext (select_subtree ids (treeID t) treeRevision)) (\<lambda>(rows, e).
           bnd (loop (\<lambda>row acc. bnd (lift (proto_Unmarshal C (nodes row))) (\<lambda>st.
                  ret (acc @ [if Prefix st = None then st\<lparr>Prefix := Some []\<rparr> else st]))) rows []) (\<lambda>acc.
           rows_Err e acc))))"

definition getSubtree :: "'c cachelib \<Rightarrow> ('c, 'm) treeTX_scheme \<Rightarrow> int64 \<Rightarrow> bytes \<Rightarrow> SubtreeProto option act" where
  "getSubtree C t treeRevision ident =
     bnd (getSubtrees C t treeRevision [ident]) (\<lambda>s. case s of
         [] \<Rightarrow> ret None
       | [x] \<Rightarrow> ret (Some x)
       | _ \<Rightarrow> throw (ErrorString (''got '' @ FormatNat (length s) @ '' subtrees, but expected 1'')))"

text \<open>The rows that \<open>storeSubtrees\<close> inserts: its loop over the subtrees.\<close>

definition marshal_rows :: "'c cachelib \<Rightarrow> ('c, 'm) treeTX_scheme \<Rightarrow> SubtreeProto list \<Rightarrow> subtree_row list act" where
  "marshal_rows C t sts = loop (\<lambda>st args. case Prefix st of
        None \<Rightarrow> throw (ErrorString ''panic: nil prefix'')
      | Some p \<Rightarrow> bnd (lift (proto_Marshal C st)) (\<lambda>subtreeBytes.
          ret (args @ [\<lparr>st_tree_id = treeID t, subtree_id = p, nodes = subtreeBytes,
                        subtree_revision = writeRevision t\<rparr>]))) sts []"

definition storeSubtrees :: "'c cachelib \<Rightarrow> ('c, 'm) treeTX_scheme \<Rightarrow> SubtreeProto list \<Rightarrow> unit act" where
  "storeSubtrees C t subtrees =
     (if subtrees = [] then ret ()
      else bnd (marshal_rows C t subtrees) (\<lambda>args.
           bnd (setSubtreeStmt (int (length subtrees))) (\<lambda>_.
           bnd (ExecContext (insert_subtrees args)) (\<lambda>_. ret ()))))"

definition tree_Commit :: "'c cachelib \<Rightarrow> ('c, 'm) treeTX_scheme \<Rightarrow> sess \<Rightarrow> (err + unit) \<times> ('c, 'm) treeTX_scheme \<times> sess" where
  "tree_Commit C t s =
     (case (if -1 <s writeRevision t
            then answering (storeSubtrees C t) (cache_Flush C (subtreeCache t)) s
            else (Inr (subtreeCache t), s)) of
        (Inl e, s') \<Rightarrow> (Inl e, t, s')
      | (Inr c, s') \<Rightarrow>
          (case tx_Commit s' of (r, s'') \<Rightarrow> (r, t\<lparr>subtreeCache := c, ttx_closed := True\<rparr>, s'')))"

definition tree_Rollback :: "('c, 'm) treeTX_scheme \<Rightarrow> sess \<Rightarrow> (err + unit) \<times> ('c, 'm) treeTX_scheme \<times> sess" where
  "tree_Rollback t s = (case tx_Rollback s of (r, s') \<Rightarrow> (r, t\<lparr>ttx_closed := True\<rparr>, s'))"

definition tree_Close :: "('c, 'm) treeTX_scheme \<Rightarrow> sess \<Rightarrow> (err + unit) \<times> ('c, 'm) treeTX_scheme \<times> sess" where
  "tree_Close t s = (if \<not> ttx_closed t then tree_Rollback t s else (Inr (), t, s))"

definition SetMerkleNodes :: "'c cachelib \<Rightarrow> ('c, 'm) treeTX_scheme \<Rightarrow> Node list \<Rightarrow> ('c, 'm) treeTX_scheme act" where
  "SetMerkleNodes C t ns =
     loop (\<lambda>n t. bnd (answering (getSubtree C t (writeRevision t))
                    (cache_SetNodeHash C (subtreeCache t) (node_ID n) (node_Hash n))) (\<lambda>c.
             ret (t\<lparr>subtreeCache := c\<rparr>))) ns t"

definition IsOpen :: "('c, 'm) treeTX_scheme \<Rightarrow> bool" where
  "IsOpen t \<longleftrightarrow> \<not> ttx_closed t"

definition getSubtreesAtRev :: "'c cachelib \<Rightarrow> ('c, 'm) treeTX_scheme \<Rightarrow> int64 \<Rightarrow> bytes list \<Rightarrow> SubtreeProto list act" where
  "getSubtreesAtRev C t = getSubtrees C t"

section \<open>Guarantees\<close>

lemma confined_answering: "(\<And>q. guarantees confined (h q)) \<Longrightarrow> guarantees confined (answering h c)"
  by (induction c) (auto intro!: confined.rules)

lemma tx_inv_answering:
  "(\<And>q. guarantees (maintains (tx_inv P)) (h q)) \<Longrightarrow> guarantees (maintains (tx_inv P)) (answering h c)"
  by (induction c) (auto intro!: tx_inv.rules)

lemma confined_statements:
  "guarantees confined (modify (\<lambda>s. s\<lparr>statements := f s\<rparr>))"
  by (simp add: guarantees_def modify_def confined_def)

lemma tx_inv_statements:
  "guarantees (maintains (tx_inv P)) (modify (\<lambda>s. s\<lparr>statements := f s\<rparr>))"
  by (simp add: guarantees_def modify_def maintains_def tx_inv_def)

lemma confined_getStmt: "guarantees confined (getStmt sk)"
proof -
  have "guarantees confined (prepare_stmt sk row)" for row
    unfolding prepare_stmt_def by (intro confined_rules confined_statements)
  then show ?thesis
    by (simp add: guarantees_def getStmt_def Let_def confined_def split: option.splits)
qed

lemma tx_inv_getStmt: "guarantees (maintains (tx_inv P)) (getStmt sk)"
proof -
  have "guarantees (maintains (tx_inv P)) (prepare_stmt sk row)" for row
    unfolding prepare_stmt_def by (intro tx_inv_rules tx_inv_statements)
  then show ?thesis
    by (simp add: guarantees_def maintains_def getStmt_def Let_def split: option.splits)
qed

lemma confined_getSubtrees: "guarantees confined (getSubtrees C t at ids)"
  unfolding getSubtrees_def getSubtreeStmt_def
  by (auto intro!: confined_rules confined_getStmt split: prod.splits)

lemma confined_getSubtree: "guarantees confined (getSubtree C t at ident)"
  unfolding getSubtree_def
  by (auto intro!: confined_rules confined_getSubtrees split: list.splits)

lemma confined_storeSubtrees: "guarantees confined (storeSubtrees C t sts)"
  unfolding storeSubtrees_def marshal_rows_def setSubtreeStmt_def
  by (auto intro!: confined_rules confined_getStmt split: option.splits)

lemma confined_SetMerkleNodes: "guarantees confined (SetMerkleNodes C t ns)"
  unfolding SetMerkleNodes_def
  by (auto intro!: confined_rules confined_answering confined_getSubtree)

lemma tx_inv_getSubtrees: "guarantees (maintains (tx_inv P)) (getSubtrees C t at ids)"
  unfolding getSubtrees_def getSubtreeStmt_def
  by (auto intro!: tx_inv_rules tx_inv_getStmt split: prod.splits)

lemma tx_inv_getSubtree: "guarantees (maintains (tx_inv P)) (getSubtree C t at ident)"
  unfolding getSubtree_def
  by (auto intro!: tx_inv_rules tx_inv_getSubtrees split: list.splits)

lemma tx_inv_SetMerkleNodes: "guarantees (maintains (tx_inv P)) (SetMerkleNodes C t ns)"
  unfolding SetMerkleNodes_def
  by (auto intro!: tx_inv_rules tx_inv_answering tx_inv_getSubtree)

lemma wf_storeSubtrees: "guarantees (maintains (tx_inv wf_db)) (storeSubtrees C t sts)"
  unfolding storeSubtrees_def marshal_rows_def setSubtreeStmt_def
  by (auto intro!: tx_inv_rules tx_inv_getStmt wf_intros split: option.splits)

section \<open>The statement cache\<close>

text \<open>The skeletons of the package: its one multi-row insert and its queries.\<close>

definition package_skeleton :: "statementSkeleton \<Rightarrow> bool" where
  "package_skeleton sk \<longleftrightarrow> sk = set_subtree_skeleton (num sk) \<or>
     sk_sql sk \<noteq> insertSubtreeMultiSQL \<and> sk = select_skeleton (sk_sql sk) (num sk)"

lemma skeleton_sql [simp]:
  "sk_sql (set_subtree_skeleton n) = insertSubtreeMultiSQL" "sk_sql (select_skeleton q n) = q"
  "num (set_subtree_skeleton n) = n" "num (select_skeleton q n) = n"
  by (simp_all add: set_subtree_skeleton_def select_skeleton_def)

lemma package_skeleton_unique:
  "package_skeleton sk \<Longrightarrow> package_skeleton sk' \<Longrightarrow> sk_sql sk = sk_sql sk' \<Longrightarrow> num sk = num sk' \<Longrightarrow> sk = sk'"
  unfolding package_skeleton_def by (metis skeleton_sql(1))

definition cached_ok :: "(string \<rightharpoonup> (int \<rightharpoonup> string)) \<Rightarrow> bool" where
  "cached_ok c \<longleftrightarrow> (\<forall>q row n stmt. c q = Some row \<longrightarrow> row n = Some stmt \<longrightarrow>
     (\<exists>sk. package_skeleton sk \<and> sk_sql sk = q \<and> num sk = n \<and> statement_text sk = Inr stmt))"

lemma cached_ok_hit:
  "cached_ok c \<Longrightarrow> package_skeleton sk \<Longrightarrow> c (sk_sql sk) = Some row \<Longrightarrow> row (num sk) = Some stmt \<Longrightarrow>
     statement_text sk = Inr stmt"
  by (metis cached_ok_def package_skeleton_unique)

lemma cached_ok_row: "cached_ok c \<Longrightarrow> cached_ok (c(q \<mapsto> case c q of None \<Rightarrow> Map.empty | Some m \<Rightarrow> m))"
  by (auto simp: cached_ok_def split: option.splits if_splits)

lemma cached_ok_add:
  "cached_ok c \<Longrightarrow> package_skeleton sk \<Longrightarrow> statement_text sk = Inr stmt \<Longrightarrow>
     row = (case c (sk_sql sk) of None \<Rightarrow> Map.empty | Some m \<Rightarrow> m) \<Longrightarrow>
     cached_ok (c(sk_sql sk \<mapsto> row(num sk \<mapsto> stmt)))"
  by (auto simp: cached_ok_def split: option.splits if_splits)

lemma statements_db_call [simp]: "statements (snd (db_call s)) = statements s"
  by (auto simp: db_call_def pop_def split: list.splits fault.splits)

lemma prepare_stmt_eq:
  assumes "s1 = s\<lparr>statements := (statements s)(sk_sql sk \<mapsto> row)\<rparr>" and "db_call s1 = (r, s2)"
  shows "prepare_stmt sk row s =
     (case statement_text sk of
        Inl e \<Rightarrow> (Inl e, s1)
      | Inr stmt \<Rightarrow> (case r of
            Inl e \<Rightarrow> (Inl e, s2)
          | Inr _ \<Rightarrow> (Inr stmt, s2\<lparr>statements := (statements s1)(sk_sql sk \<mapsto> row(num sk \<mapsto> stmt))\<rparr>)))"
proof -
  have "statements s2 = statements s1" using statements_db_call [of s1] assms(2) by simp
  with assms show ?thesis
    by (cases "statement_text sk"; cases r)
      (simp_all add: prepare_stmt_def bnd_def modify_def lift_def ret_def)
qed

lemma prepare_stmt_result:
  assumes "cached_ok (statements s)" "package_skeleton sk"
    and row: "row = (case statements s (sk_sql sk) of None \<Rightarrow> Map.empty | Some m \<Rightarrow> m)"
    and res: "prepare_stmt sk row s = (r, s')"
  shows "cached_ok (statements s') \<and> (\<forall>stmt. r = Inr stmt \<longrightarrow> statement_text sk = Inr stmt) \<and>
    (faults s = [] \<longrightarrow> r = statement_text sk)"
proof -
  define s1 where "s1 = s\<lparr>statements := (statements s)(sk_sql sk \<mapsto> row)\<rparr>"
  have c1: "cached_ok (statements s1)" using cached_ok_row [OF assms(1)] row by (simp add: s1_def)
  obtain r2 s2 where db: "db_call s1 = (r2, s2)" by fastforce
  note eq = res [unfolded prepare_stmt_eq [OF s1_def db]]
  have s2: "statements s2 = statements s1" using statements_db_call [of s1] db by simp
  show ?thesis
  proof (cases "statement_text sk")
    case (Inl e)
    with eq c1 show ?thesis by auto
  next
    case (Inr stm)
    have c2: "cached_ok ((statements s1)(sk_sql sk \<mapsto> row(num sk \<mapsto> stm)))"
      using cached_ok_add [OF assms(1,2) Inr row] by (simp add: s1_def)
    show ?thesis
    proof (cases r2)
      case r2: (Inl e)
      with eq Inr have "r = Inl e" "s' = s2" by simp_all
      moreover have "faults s \<noteq> []" using db r2 by (auto simp: s1_def db_call_ready)
      ultimately show ?thesis using c1 s2 by simp
    next
      case (Inr u)
      with eq \<open>statement_text sk = Inr stm\<close> c2 show ?thesis by auto
    qed
  qed
qed

text \<open>
  C36: The cache of prepared statements is transparent. Whatever was prepared before, \<open>getStmt\<close>
  returns the statement that its skeleton expands to, and without a failure of the driver it
  returns exactly what the expansion gives, error included; and the cache stays of this kind.
\<close>

theorem getStmt_transparent:
  assumes "cached_ok (statements s)" "package_skeleton sk" "getStmt sk s = (r, s')"
  shows "cached_ok (statements s') \<and> (\<forall>stmt. r = Inr stmt \<longrightarrow> statement_text sk = Inr stmt) \<and>
    (faults s = [] \<longrightarrow> r = statement_text sk)"
proof -
  define row where "row = (case statements s (sk_sql sk) of None \<Rightarrow> Map.empty | Some m \<Rightarrow> m)"
  note res = assms(3) [unfolded getStmt_def Let_def row_def [symmetric]]
  show ?thesis
  proof (cases "row (num sk)")
    case None
    with res have "prepare_stmt sk row s = (r, s')" by simp
    from prepare_stmt_result [OF assms(1,2) row_def this] show ?thesis .
  next
    case (Some stmt)
    then obtain m where "statements s (sk_sql sk) = Some m" "m (num sk) = Some stmt"
      by (cases "statements s (sk_sql sk)") (simp_all add: row_def)
    from cached_ok_hit [OF assms(1,2) this] have "statement_text sk = Inr stmt" .
    with Some res assms(1) show ?thesis by auto
  qed
qed

theorem getStmt_transparent_witness:
  "fst (getStmt (set_subtree_skeleton 2) (new_sess empty_db)) = statement_text (set_subtree_skeleton 2)"
proof -
  have "cached_ok (statements (new_sess empty_db))" "package_skeleton (set_subtree_skeleton 2)"
    and "faults (new_sess empty_db) = []"
    by (simp_all add: cached_ok_def package_skeleton_def new_sess_def)
  then show ?thesis using getStmt_transparent [OF _ _ surjective_pairing] by blast
qed

section \<open>Subtree versions\<close>

lemma statement_text_ok: "0 < num sk \<Longrightarrow> \<exists>stmt. statement_text sk = Inr stmt"
  by (simp add: statement_text_def expandPlaceholderSQL_def Let_def)

text \<open>Without faults a statement is always obtained, and only the cache changes.\<close>

lemma getStmt_ready:
  assumes "faults s = []" "0 < num sk"
  obtains stmt c where "getStmt sk s = (Inr stmt, s\<lparr>statements := c\<rparr>)"
proof -
  define row where "row = (case statements s (sk_sql sk) of None \<Rightarrow> Map.empty | Some m \<Rightarrow> m)"
  obtain stm where stm: "statement_text sk = Inr stm" using statement_text_ok assms(2) by blast
  show ?thesis
  proof (cases "row (num sk)")
    case (Some stmt)
    then have "getStmt sk s = (Inr stmt, s)"
      by (simp add: getStmt_def Let_def row_def)
    then show ?thesis using that [of stmt "statements s"] by simp
  next
    case None
    let ?s1 = "s\<lparr>statements := (statements s)(sk_sql sk \<mapsto> row)\<rparr>"
    have "db_call ?s1 = (Inr (), ?s1)" using assms(1) by (simp add: db_call_ready)
    note eq = prepare_stmt_eq [OF refl this]
    have "getStmt sk s = prepare_stmt sk row s"
      using None unfolding getStmt_def Let_def row_def [symmetric] by simp
    then show ?thesis using eq stm that by simp
  qed
qed

lemma insert_subtrees_fresh:
  assumes "distinct (map subtree_key rs)" "subtree_key ` set rs \<inter> subtree_key ` set (subtree d) = {}"
    and "\<forall>r\<in>set rs. fits_int4 (subtree_revision r) \<and> st_tree_id r \<in> tree_ids d"
  shows "insert_subtrees rs d = Inr ((), d\<lparr>subtree := subtree d @ rs\<rparr>)"
  using assms
proof (induction rs arbitrary: d)
  case (Cons r rs)
  have "insert_subtrees rs (d\<lparr>subtree := subtree d @ [r]\<rparr>) = Inr ((), d\<lparr>subtree := subtree d @ [r] @ rs\<rparr>)"
    using Cons.prems by (subst Cons.IH) auto
  with Cons.prems show ?case by auto
qed simp

definition stored_row :: "'c cachelib \<Rightarrow> ('c, 'm) treeTX_scheme \<Rightarrow> SubtreeProto \<Rightarrow> subtree_row" where
  "stored_row C t st = \<lparr>st_tree_id = treeID t, subtree_id = the (Prefix st),
     nodes = (case proto_Marshal C st of Inr b \<Rightarrow> b | Inl _ \<Rightarrow> []), subtree_revision = writeRevision t\<rparr>"

text \<open>The codec documents that it decodes what it has encoded.\<close>

definition codec_ok :: "'c cachelib \<Rightarrow> SubtreeProto \<Rightarrow> bool" where
  "codec_ok C st \<longleftrightarrow> (\<exists>b. proto_Marshal C st = Inr b \<and> proto_Unmarshal C b = Inr st)"

lemma marshal_rows_ok:
  assumes "\<forall>st\<in>set sts. Prefix st \<noteq> None \<and> codec_ok C st"
  shows "marshal_rows C t sts s = (Inr (map (stored_row C t) sts), s)"
proof -
  have "marshal_rows C t sts s = (Inr ([] @ map (stored_row C t) sts), s)"
    unfolding marshal_rows_def
  proof (rule loop_collect)
    fix st and args :: "subtree_row list" and s :: sess
    assume "st \<in> set sts"
    with assms obtain p b where "Prefix st = Some p" "proto_Marshal C st = Inr b"
      by (auto simp: codec_ok_def)
    then show "(case Prefix st of
        None \<Rightarrow> throw (ErrorString ''panic: nil prefix'')
      | Some p \<Rightarrow> bnd (lift (proto_Marshal C st)) (\<lambda>subtreeBytes.
          ret (args @ [\<lparr>st_tree_id = treeID t, subtree_id = p, nodes = subtreeBytes,
                        subtree_revision = writeRevision t\<rparr>]))) s = (Inr (args @ [stored_row C t st]), s)"
      by (simp add: stored_row_def bnd_def lift_def ret_def)
  qed
  then show ?thesis by simp
qed

lemma stored_row_key: "subtree_key (stored_row C t st) = (treeID t, the (Prefix st), writeRevision t)"
  by (simp add: stored_row_def)

lemma stored_row_sel [simp]:
  "st_tree_id (stored_row C t st) = treeID t" "subtree_id (stored_row C t st) = the (Prefix st)"
  "subtree_revision (stored_row C t st) = writeRevision t"
  by (simp_all add: stored_row_def)

lemma stored_rows_distinct:
  assumes "\<forall>st\<in>set sts. Prefix st \<noteq> None" "distinct (map Prefix sts)"
  shows "distinct (map subtree_key (map (stored_row C t) sts))"
  using assms
proof (induction sts)
  case (Cons st sts)
  have "the (Prefix st') \<noteq> the (Prefix st)" if "st' \<in> set sts" for st'
    using Cons.prems that by (metis distinct.simps(2) image_eqI list.set_intros list.set_map list.simps(9) option.expand)
  with Cons show ?case by (auto simp: stored_row_key)
qed simp

lemma stored_rows_fresh:
  assumes "\<forall>r\<in>set (subtree d). st_tree_id r = treeID t \<longrightarrow> subtree_revision r <s writeRevision t"
  shows "subtree_key ` set (map (stored_row C t) sts) \<inter> subtree_key ` set (subtree d) = {}"
proof -
  have "subtree_key (stored_row C t st) \<noteq> subtree_key r" if "r \<in> set (subtree d)" for st r
    using assms that unfolding stored_row_key by auto
  then show ?thesis unfolding set_map image_image disjoint_iff_not_equal by blast
qed

lemma storeSubtrees_ready:
  assumes "ready s" "sts \<noteq> []" "\<forall>st\<in>set sts. Prefix st \<noteq> None \<and> codec_ok C st"
    and "distinct (map Prefix sts)" "fits_int4 (writeRevision t)" "treeID t \<in> tree_ids (work s)"
    and new: "\<forall>r\<in>set (subtree (work s)). st_tree_id r = treeID t \<longrightarrow> subtree_revision r <s writeRevision t"
  shows "\<exists>c. storeSubtrees C t sts s = (Inr (), s\<lparr>statements := c,
           work := (work s)\<lparr>subtree := subtree (work s) @ map (stored_row C t) sts\<rparr>\<rparr>)"
proof -
  obtain stmt c where st: "getStmt (set_subtree_skeleton (int (length sts))) s = (Inr stmt, s\<lparr>statements := c\<rparr>)"
    using getStmt_ready [of s "set_subtree_skeleton (int (length sts))"] assms(1,2) by auto
  have "insert_subtrees (map (stored_row C t) sts) (work s)
      = Inr ((), (work s)\<lparr>subtree := subtree (work s) @ map (stored_row C t) sts\<rparr>)"
    using assms(3-6) stored_rows_fresh [OF new]
    by (intro insert_subtrees_fresh stored_rows_distinct) (auto simp: stored_row_def)
  then show ?thesis
    using assms(1,2) marshal_rows_ok [OF assms(3), of t s] st
    by (intro exI [of _ c]) (simp add: storeSubtrees_def bnd_def setSubtreeStmt_def act_simps)
qed

lemma filter_last: "(\<And>x. x \<in> set xs \<Longrightarrow> \<not> P x) \<Longrightarrow> P y \<Longrightarrow> filter P (xs @ [y]) = [y]"
  by (auto simp: filter_empty_conv)

lemma select_subtree_stored:
  assumes "st \<in> set sts" "\<forall>st\<in>set sts. Prefix st \<noteq> None" "distinct (map Prefix sts)"
    and new: "\<forall>r\<in>set (subtree d). st_tree_id r = treeID t \<longrightarrow> subtree_revision r <s writeRevision t"
  shows "select_subtree [the (Prefix st)] (treeID t) (writeRevision t)
     (d\<lparr>subtree := subtree d @ map (stored_row C t) sts\<rparr>) = [stored_row C t st]"
proof -
  let ?rows = "map (stored_row C t) sts" and ?p = "the (Prefix st)"
  let ?cand = "\<lambda>r. subtree_id r = ?p \<and> st_tree_id r = treeID t \<and> subtree_revision r \<le>s writeRevision t"
  have key: "subtree_id r = ?p \<longleftrightarrow> r = stored_row C t st" if "r \<in> set ?rows" for r
  proof -
    from that obtain st' where st': "st' \<in> set sts" "r = stored_row C t st'" by auto
    then have "the (Prefix st') = ?p \<longleftrightarrow> st' = st"
      using assms(1-3) by (metis distinct_map inj_onD option.expand)
    then show ?thesis using st' by (auto simp: stored_row_def)
  qed
  have "filter ?cand ?rows = filter (\<lambda>r. r = stored_row C t st) ?rows"
    by (rule filter_cong) (use key in \<open>auto simp: stored_row_def int64_simps\<close>)
  moreover have "distinct ?rows"
    using stored_rows_distinct [OF assms(2,3), of C t] unfolding distinct_map [of _ ?rows] by (rule conjunct1)
  ultimately have rows: "filter ?cand ?rows = [stored_row C t st]"
    using assms(1) filter_key_unique [of id ?rows "stored_row C t st"] by simp
  let ?cs = "filter ?cand (subtree d) @ [stored_row C t st]"
  let ?top = "\<lambda>r. \<forall>r'\<in>set ?cs. subtree_id r' = subtree_id r \<longrightarrow> subtree_revision r' \<le>s subtree_revision r"
  have "\<not> ?top r" if "r \<in> set (filter ?cand (subtree d))" for r
    using new that by (auto simp: int64_simps)
  moreover have "?top (stored_row C t st)" by (auto simp: int64_simps)
  ultimately have "filter ?top ?cs = [stored_row C t st]" by (rule filter_last)
  moreover have "filter (\<lambda>r. subtree_id r \<in> set [?p] \<and> st_tree_id r = treeID t \<and> subtree_revision r \<le>s writeRevision t)
      (subtree (d\<lparr>subtree := subtree d @ ?rows\<rparr>)) = ?cs"
    using rows by simp
  ultimately show ?thesis by (simp only: select_subtree_def Let_def)
qed

lemma select_subtree_older:
  assumes "atRev <s writeRevision t"
  shows "select_subtree ids tid atRev (d\<lparr>subtree := subtree d @ map (stored_row C t) sts\<rparr>)
     = select_subtree ids tid atRev d"
proof -
  have "filter (\<lambda>r. subtree_id r \<in> set ids \<and> st_tree_id r = tid \<and> subtree_revision r \<le>s atRev)
      (map (stored_row C t) sts) = []"
    using assms by (auto simp: filter_empty_conv stored_row_def int64_simps)
  then show ?thesis by (simp add: select_subtree_def Let_def)
qed

lemma getSubtree_row:
  assumes "ready s" "select_subtree [p] (treeID t) atRev (work s) = [row]" "proto_Unmarshal C (nodes row) = Inr st"
    and "Prefix st \<noteq> None"
  shows "\<exists>c. getSubtree C t atRev p s = (Inr (Some st), s\<lparr>statements := c\<rparr>)"
proof -
  obtain stmt c where st: "getStmt (select_skeleton selectSubtreeSQL 1) s = (Inr stmt, s\<lparr>statements := c\<rparr>)"
    using getStmt_ready [of s "select_skeleton selectSubtreeSQL 1"] assms(1) by auto
  show ?thesis
    using assms st
    by (intro exI [of _ c]) (simp add: getSubtree_def getSubtrees_def getSubtreeStmt_def bnd_def act_simps rows_Err_def)
qed

text \<open>
  C37: Subtrees are versioned by revision. When a transaction stores subtrees at its write revision,
  newer than all revisions of the tree, each of them is then read back under its prefix, while a read
  at any older revision, of any tree, sees exactly what it saw before.
\<close>

theorem subtree_versions:
  assumes "ready s" "sts \<noteq> []" "\<forall>st\<in>set sts. Prefix st \<noteq> None \<and> codec_ok C st"
    and "distinct (map Prefix sts)" "fits_int4 (writeRevision t)" "treeID t \<in> tree_ids (work s)"
    and "\<forall>r\<in>set (subtree (work s)). st_tree_id r = treeID t \<longrightarrow> subtree_revision r <s writeRevision t"
  shows "\<exists>s'. storeSubtrees C t sts s = (Inr (), s') \<and>
     (\<forall>st\<in>set sts. fst (getSubtree C t (writeRevision t) (the (Prefix st)) s') = Inr (Some st)) \<and>
     (\<forall>ids tid atRev. atRev <s writeRevision t \<longrightarrow>
        select_subtree ids tid atRev (work s') = select_subtree ids tid atRev (work s))"
proof -
  obtain c where store: "storeSubtrees C t sts s = (Inr (), s\<lparr>statements := c,
      work := (work s)\<lparr>subtree := subtree (work s) @ map (stored_row C t) sts\<rparr>\<rparr>)" (is "_ = (_, ?s)")
    using storeSubtrees_ready [OF assms] by blast
  have prefixes: "\<forall>st\<in>set sts. Prefix st \<noteq> None" using assms(3) by simp
  have "fst (getSubtree C t (writeRevision t) (the (Prefix st)) ?s) = Inr (Some st)" if "st \<in> set sts" for st
  proof -
    have "ready ?s" using assms(1) by simp
    moreover have "select_subtree [the (Prefix st)] (treeID t) (writeRevision t) (work ?s) = [stored_row C t st]"
      using select_subtree_stored [OF that prefixes assms(4) assms(7), of C] by simp
    moreover have "proto_Unmarshal C (nodes (stored_row C t st)) = Inr st"
      using that assms(3) by (auto simp: codec_ok_def stored_row_def)
    moreover have "Prefix st \<noteq> None" using that prefixes by blast
    ultimately have "\<exists>c'. getSubtree C t (writeRevision t) (the (Prefix st)) ?s = (Inr (Some st), ?s\<lparr>statements := c'\<rparr>)"
      by (rule getSubtree_row)
    then show ?thesis by (metis fst_conv)
  qed
  with store select_subtree_older show ?thesis by auto
qed

text \<open>A codec that writes the prefix and the rest with a one-byte length, and a store of one subtree.\<close>

definition sample_cachelib :: "unit cachelib" where
  "sample_cachelib = \<lparr>NewLogSubtreeCache = (), cache_Flush = (\<lambda>_. Return ()),
     cache_SetNodeHash = (\<lambda>_ _ _. Return ()), cache_GetNodes = (\<lambda>_ _. Return ([], ())),
     proto_Marshal = (\<lambda>st. Inr (case Prefix st of None \<Rightarrow> [] | Some p \<Rightarrow> char_of (length p) # p @ proto_rest st)),
     proto_Unmarshal = (\<lambda>b. case b of
         [] \<Rightarrow> Inr \<lparr>Prefix = None, proto_rest = []\<rparr>
       | n # r \<Rightarrow> Inr \<lparr>Prefix = Some (take (of_char n) r), proto_rest = drop (of_char n) r\<rparr>)\<rparr>"

definition sample_treeTX :: "unit treeTX" where
  "sample_treeTX = \<lparr>ttx_closed = False, treeID = 5, treeType = TreeType_LOG, hashSizeBytes = 32,
     subtreeCache = (), writeRevision = 3\<rparr>"

theorem subtree_versions_witness:
  "\<exists>s'. storeSubtrees sample_cachelib sample_treeTX [\<lparr>Prefix = Some ''a'', proto_rest = ''n''\<rparr>] (sample_sess sample_db)
       = (Inr (), s') \<and>
     fst (getSubtree sample_cachelib sample_treeTX 3 ''a'' s') = Inr (Some \<lparr>Prefix = Some ''a'', proto_rest = ''n''\<rparr>)"
proof -
  have "codec_ok sample_cachelib \<lparr>Prefix = Some ''a'', proto_rest = ''n''\<rparr>"
    by (simp add: codec_ok_def sample_cachelib_def)
  moreover have "fits_int4 (writeRevision sample_treeTX)" "writeRevision sample_treeTX = 3"
    by (simp_all add: sample_treeTX_def fits_int4_def)
  moreover have "treeID sample_treeTX \<in> tree_ids (work (sample_sess sample_db))"
    by (simp add: sample_treeTX_def tree_ids_def)
  moreover have "subtree (work (sample_sess sample_db)) = []"
    by (simp add: sample_db_def empty_db_def)
  ultimately show ?thesis
    using subtree_versions [of "sample_sess sample_db" "[\<lparr>Prefix = Some ''a'', proto_rest = ''n''\<rparr>]"
        sample_cachelib sample_treeTX] by auto
qed

end
