(* ===== verification/LogStorage.thy ===== *)
theory LogStorage
  imports TreeStorage "HOL-Library.List_Lexorder" "HOL-Library.Product_Lexorder"
begin

text \<open>
  \<open>pkg/storage/postgres/log_storage.go\<close> and \<open>queue.go\<close>: the leaves of a log, queued in \<open>unsequenced\<close>,
  given an index in \<open>sequenced_leaf_data\<close>, and the signed roots of the log. Each \<open>select_\<close> definition
  is what the SQL statement of the same name computes. The latency histograms are not modelled; the
  three counters are. Trillian's codec of log roots, \<open>encoding/json\<close> on them, and \<open>sort.Sort\<close>, whose
  order of equal elements is unspecified, are the fields of \<open>loglib\<close>. A nil byte slice is the empty
  one. A slice bound out of range and a nil dereference are errors, as a panic unwinds like one.
\<close>

record leafAndPosition =
  lap_leaf :: LogLeaf
  lap_idx :: nat

record loglib =
  ErrTreeNeedsInit :: err
  root_MarshalBinary :: "LogRootV1 \<Rightarrow> bytes"
  root_UnmarshalBinary :: "bytes \<Rightarrow> err + LogRootV1"
  root_json :: "LogRootV1 \<Rightarrow> bytes"
  root_of_json :: "bytes \<Rightarrow> LogRootV1"
  Sort :: "(leafAndPosition \<Rightarrow> leafAndPosition \<Rightarrow> bool) \<Rightarrow> leafAndPosition list \<Rightarrow> leafAndPosition list"
  DefaultHasher_Size :: nat

section \<open>Printing of errors\<close>

text \<open>\<open>%v\<close> of a byte slice and of a slice of them, and \<open>%x\<close> of a byte slice.\<close>

definition spaced :: "string list \<Rightarrow> string" where
  "spaced xs = CHR ''['' # concat (map (\<lambda>(i, x). if i = 0 then x else CHR '' '' # x) (enumerate 0 xs)) @ '']''"

definition fmt_bytes :: "bytes \<Rightarrow> string" where
  "fmt_bytes b = spaced (map (\<lambda>c. FormatNat (of_char c)) b)"

definition fmt_hex :: "bytes \<Rightarrow> string" where
  "fmt_hex b = concat (map (\<lambda>c. let n = of_char c :: nat in
     [''0123456789abcdef'' ! (n div 16), ''0123456789abcdef'' ! (n mod 16)]) b)"

section \<open>Statements\<close>

definition dummymerkleLeafHash :: bytes where
  "dummymerkleLeafHash = replicate 32 (CHR ''0'')"

definition selectNonDeletedTreeIDByTypeAndStateSQL :: "string list \<Rightarrow> string list \<Rightarrow> database \<Rightarrow> int64 list" where
  "selectNonDeletedTreeIDByTypeAndStateSQL types states d =
     map tr_tree_id (filter (\<lambda>r. tree_type r \<in> set types \<and> tree_state r \<in> set states \<and> \<not> deleted r) (trees d))"

definition insertLeafDataSQL :: "int64 \<Rightarrow> LogLeaf \<Rightarrow> int64 \<Rightarrow> bool stmt" where
  "insertLeafDataSQL tid leaf nanos = insert_leaf_data_ignore_duplicates
     \<lparr>ld_tree_id = tid, ld_identity = LeafIdentityHash leaf, leaf_value = LeafValue leaf,
      extra_data = ll_ExtraData leaf, ld_queue_nanos = nanos\<rparr>"

definition insertSequencedLeafSQL :: "int64 \<Rightarrow> LogLeaf \<Rightarrow> int64 \<Rightarrow> bool stmt" where
  "insertSequencedLeafSQL tid leaf nanos = insert_sequenced_leaf_data_ignore_duplicates
     \<lparr>sq_tree_id = tid, sequence_number = LeafIndex leaf, sq_identity = LeafIdentityHash leaf,
      sq_merkle = MerkleLeafHash leaf, integrate_nanos = nanos\<rparr>"

definition insertUnsequencedEntrySQL :: "int64 \<Rightarrow> LogLeaf \<Rightarrow> int64 \<Rightarrow> bool stmt" where
  "insertUnsequencedEntrySQL tid leaf nanos =
     insert_unsequenced_ignore_duplicates tid (LeafIdentityHash leaf) (MerkleLeafHash leaf) nanos"

text \<open>A row of the join of \<open>sequenced_leaf_data\<close> and \<open>leaf_data\<close>, scanned into a leaf.\<close>

definition scan_leaf :: "bytes \<Rightarrow> int64 \<Rightarrow> int64 option \<Rightarrow> leaf_data_row \<Rightarrow> LogLeaf" where
  "scan_leaf merkle idx integrated l = \<lparr>MerkleLeafHash = merkle, LeafValue = leaf_value l,
     ll_ExtraData = extra_data l, LeafIndex = idx, LeafIdentityHash = ld_identity l,
     QueueTimestamp = Some (ld_queue_nanos l), IntegrateTimestamp = integrated\<rparr>"

definition join_leaf :: "database \<Rightarrow> sequenced_row \<Rightarrow> LogLeaf list" where
  "join_leaf d s = map (scan_leaf (sq_merkle s) (sequence_number s) (Some (integrate_nanos s)))
     (filter (\<lambda>l. ld_identity l = sq_identity s \<and> ld_tree_id l = sq_tree_id s) (leaf_data d))"

definition selectLeavesByRangeSQL :: "int64 \<Rightarrow> int64 \<Rightarrow> int64 \<Rightarrow> database \<Rightarrow> LogLeaf list" where
  "selectLeavesByRangeSQL start stop tid d = concat (map (join_leaf d)
     (sort_key (\<lambda>s. sint (sequence_number s))
        (filter (\<lambda>s. start \<le>s sequence_number s \<and> sequence_number s <s stop \<and> sq_tree_id s = tid)
           (sequenced_leaf_data d))))"

definition selectLeavesByMerkleHash :: "bytes list \<Rightarrow> bool \<Rightarrow> int64 \<Rightarrow> database \<Rightarrow> LogLeaf list" where
  "selectLeavesByMerkleHash hashes ordered tid d =
     (let hits = filter (\<lambda>s. sq_merkle s \<in> set hashes \<and> sq_tree_id s = tid) (sequenced_leaf_data d)
      in concat (map (join_leaf d) (if ordered then sort_key (\<lambda>s. sint (sequence_number s)) hits else hits)))"

text \<open>The left join gives a leaf that is not sequenced one row, with no time of integration.\<close>

definition selectLeavesByLeafIdentityHash :: "bytes list \<Rightarrow> int64 \<Rightarrow> database \<Rightarrow> LogLeaf list" where
  "selectLeavesByLeafIdentityHash hashes tid d =
     concat (map (\<lambda>l.
        let ss = filter (\<lambda>s. sq_identity s = ld_identity l \<and> sq_tree_id s = ld_tree_id l) (sequenced_leaf_data d)
        in if ss = [] then [scan_leaf dummymerkleLeafHash (-1) None l]
           else map (\<lambda>s. scan_leaf dummymerkleLeafHash (-1) (Some (integrate_nanos s)) l) ss)
      (filter (\<lambda>l. ld_identity l \<in> set hashes \<and> ld_tree_id l = tid) (leaf_data d)))"

definition queue_key :: "unsequenced_row \<Rightarrow> int \<times> nat list" where
  "queue_key r = (sint (uq_queue_nanos r), map of_char (uq_identity r))"

definition selectQueuedLeavesSQL :: "int64 \<Rightarrow> int64 \<Rightarrow> nat \<Rightarrow> database \<Rightarrow> unsequenced_row list" where
  "selectQueuedLeavesSQL tid cutoff limit d = take limit (sort_key queue_key
     (filter (\<lambda>r. uq_tree_id r = tid \<and> bucket r = 0 \<and> uq_queue_nanos r \<le>s cutoff) (unsequenced d)))"

section \<open>Transactions\<close>

record 'c logTreeTX = "'c treeTX" +
  tx_root :: LogRootV1
  slr :: "bytes option"

definition zero_root :: LogRootV1 where
  "zero_root = \<lparr>TreeSize = 0, RootHash = [], TimestampNanos = 0, Revision = 0, Metadata = []\<rparr>"

definition labelForTX :: "('c, 'm) treeTX_scheme \<Rightarrow> string" where
  "labelForTX t = FormatInt (treeID t)"

definition fetchLatestRoot :: "loglib \<Rightarrow> ('c, 'm) treeTX_scheme \<Rightarrow> bytes act" where
  "fetchLatestRoot L t =
     bnd (attempt (QueryRow (\<lambda>d. map current_tree_data (filter (\<lambda>r. tr_tree_id r = treeID t) (trees d))))) (\<lambda>row.
       case row of
         Inr (Some jsonObj) \<Rightarrow> ret (root_MarshalBinary L (root_of_json L jsonObj))
       | _ \<Rightarrow> throw (ErrTreeNeedsInit L))"

text \<open>
  \<open>beginInternal\<close> returns the transaction together with \<open>ErrTreeNeedsInit\<close> when the tree has no root
  yet; the second component is that error.
\<close>

definition log_beginInternal :: "'c cachelib \<Rightarrow> loglib \<Rightarrow> Tree \<Rightarrow> ('c logTreeTX \<times> err option) act" where
  "log_beginInternal C L tree =
     bnd (attempt (beginTreeTx tree (DefaultHasher_Size L) (NewLogSubtreeCache C))) (\<lambda>r. case r of
       Inl e \<Rightarrow> if errors_Is e (ErrTreeNeedsInit L) then throw (ErrorString ''panic: nil pointer dereference'') else throw e
     | Inr ttx \<Rightarrow>
         let ltx = treeTX.extend ttx \<lparr>tx_root = zero_root, slr = None\<rparr>
         in bnd (attempt (fetchLatestRoot L ltx)) (\<lambda>r. case r of
              Inl e \<Rightarrow>
                if errors_Is e (ErrTreeNeedsInit L) then ret (ltx, Some e)
                else bnd (attempt tx_Rollback) (\<lambda>_. throw e)
            | Inr logRoot \<Rightarrow>
                (case root_UnmarshalBinary L logRoot of
                   Inl e \<Rightarrow> bnd (attempt tx_Rollback) (\<lambda>_. throw e)
                 | Inr root \<Rightarrow> ret (ltx\<lparr>slr := Some logRoot, tx_root := root, writeRevision := Revision root + 1\<rparr>, None))))"

definition log_ReadWriteTransaction ::
  "'c cachelib \<Rightarrow> loglib \<Rightarrow> Tree \<Rightarrow> ('c logTreeTX \<Rightarrow> 'c logTreeTX act) \<Rightarrow> unit act" where
  "log_ReadWriteTransaction C L tree f =
     bnd (log_beginInternal C L tree) (\<lambda>(tx, err) s.
       case f tx s of
         (Inl e, s') \<Rightarrow> (Inl e, snd (snd (tree_Close tx s')))
       | (Inr tx', s') \<Rightarrow>
           (case tree_Commit C tx' s' of (r, tx'', s'') \<Rightarrow> (r, snd (snd (tree_Close tx'' s'')))))"

definition SnapshotForTree :: "'c cachelib \<Rightarrow> loglib \<Rightarrow> Tree \<Rightarrow> ('c logTreeTX \<times> err option) act" where
  "SnapshotForTree C L tree = log_beginInternal C L tree"

definition log_CheckDatabaseAccessible :: "unit act" where
  "log_CheckDatabaseAccessible = db_call"

definition log_Snapshot :: "unit act" where
  "log_Snapshot = BeginTx"

definition readOnly_Commit :: "unit act" where
  "readOnly_Commit = tx_Commit"

definition readOnly_Rollback :: "unit act" where
  "readOnly_Rollback = tx_Rollback"

definition readOnly_Close :: "unit act" where
  "readOnly_Close = bnd (attempt readOnly_Rollback) (\<lambda>r. case r of
       Inl e \<Rightarrow> if errors_Is e ErrTxDone then ret () else throw e
     | Inr _ \<Rightarrow> ret ())"

definition GetActiveLogIDs :: "int64 list act" where
  "GetActiveLogIDs =
     bnd (QueryContext (selectNonDeletedTreeIDByTypeAndStateSQL
            [TreeType_String TreeType_LOG, TreeType_String TreeType_PREORDERED_LOG]
            [TreeState_String TreeState_ACTIVE, TreeState_String TreeState_DRAINING])) (\<lambda>(rows, e).
     rows_Err e rows)"

definition ReadRevision :: "('c, 'm) logTreeTX_scheme \<Rightarrow> int64 act" where
  "ReadRevision t = ret (Revision (tx_root t))"

definition WriteRevision :: "('c, 'm) logTreeTX_scheme \<Rightarrow> int64 act" where
  "WriteRevision t =
     (if writeRevision t <s 0 then throw (ErrorString ''logTreeTX write revision not populated'')
      else ret (writeRevision t))"

definition GetMerkleNodes :: "'c cachelib \<Rightarrow> 'c logTreeTX \<Rightarrow> NodeID list \<Rightarrow> (Node list \<times> 'c logTreeTX) act" where
  "GetMerkleNodes C t ids =
     bnd (answering (getSubtreesAtRev C t (Revision (tx_root t))) (cache_GetNodes C (subtreeCache t) ids)) (\<lambda>(ns, c).
       ret (ns, t\<lparr>subtreeCache := c\<rparr>))"

definition LatestSignedLogRoot :: "('c, 'm) logTreeTX_scheme \<Rightarrow> bytes option act" where
  "LatestSignedLogRoot t = ret (slr t)"

section \<open>Reading leaves\<close>

fun range_loop :: "int64 \<Rightarrow> int64 \<Rightarrow> LogLeaf list \<Rightarrow> err option \<Rightarrow> LogLeaf list \<Rightarrow> LogLeaf list act" where
  "range_loop treeSize wantIndex [] e acc = rows_Err e acc"
| "range_loop treeSize wantIndex (leaf # rows) e acc =
     (if LeafIndex leaf \<noteq> wantIndex then
        (if wantIndex <s treeSize
         then throw (ErrorString (''got unexpected index '' @ FormatInt (LeafIndex leaf) @ '', want '' @ FormatInt wantIndex))
         else ret acc)
      else range_loop treeSize (wantIndex + 1) rows e (acc @ [leaf]))"

definition GetLeavesByRange :: "('c, 'm) logTreeTX_scheme \<Rightarrow> int64 \<Rightarrow> int64 \<Rightarrow> LogLeaf list act" where
  "GetLeavesByRange t start cnt =
     (let treeSize = TreeSize (tx_root t) in
      if cnt \<le>s 0 then throw (status_Errorf codes_InvalidArgument ''InvalidArgument''
           (''invalid count '' @ FormatInt cnt @ '', want > 0''))
      else if start <s 0 then throw (status_Errorf codes_InvalidArgument ''InvalidArgument''
           (''invalid start '' @ FormatInt start @ '', want >= 0''))
      else if treeType t = TreeType_LOG \<and> treeSize \<le>s 0
      then throw (status_Errorf codes_OutOfRange ''OutOfRange'' ''empty tree'')
      else if treeType t = TreeType_LOG \<and> treeSize \<le>s start
      then throw (status_Errorf codes_OutOfRange ''OutOfRange''
           (''invalid start '' @ FormatInt start @ '', want < TreeSize('' @ FormatInt treeSize @ '')''))
      else
        let cnt' = (if treeType t = TreeType_LOG \<and> treeSize - start <s cnt then treeSize - start else cnt)
        in bnd (QueryContext (selectLeavesByRangeSQL start (start + cnt') (treeID t))) (\<lambda>(rows, e).
             range_loop treeSize start rows e []))"

definition selectLeavesByMerkleHashSQL :: "bool \<Rightarrow> string" where
  "selectLeavesByMerkleHashSQL ordered =
     ''SELECT s.merkle_leaf_hash,l.leaf_identity_hash,l.leaf_value,s.sequence_number,l.extra_data,l.queue_timestamp_nanos,s.integrate_timestamp_nanos
                        FROM leaf_data l,sequenced_leaf_data s
                        WHERE l.leaf_identity_hash = s.leaf_identity_hash
                        AND s.merkle_leaf_hash IN ('' @ placeholderSQL @ '') AND l.tree_id = <param> AND s.tree_id = l.tree_id'' @
     (if ordered then '' ORDER BY s.sequence_number'' else [])"

definition selectLeavesByLeafIdentityHashSQL :: string where
  "selectLeavesByLeafIdentityHashSQL =
     ''SELECT '' @ [CHR 0x27] @ dummymerkleLeafHash @ [CHR 0x27] @
     '',l.leaf_identity_hash,l.leaf_value,-1,l.extra_data,l.queue_timestamp_nanos,s.integrate_timestamp_nanos
                        FROM leaf_data l LEFT JOIN sequenced_leaf_data s ON (l.leaf_identity_hash = s.leaf_identity_hash AND l.tree_id = s.tree_id)
                        WHERE l.leaf_identity_hash IN ('' @ placeholderSQL @ '') AND l.tree_id = <param>''"

definition getLeavesByMerkleHashStmt :: "int \<Rightarrow> bool \<Rightarrow> string act" where
  "getLeavesByMerkleHashStmt n orderBySequence = getStmt (select_skeleton (selectLeavesByMerkleHashSQL orderBySequence) n)"

definition getLeavesByLeafIdentityHashStmt :: "int \<Rightarrow> string act" where
  "getLeavesByLeafIdentityHashStmt n = getStmt (select_skeleton selectLeavesByLeafIdentityHashSQL n)"

definition getLeavesByHashInternal :: "('c, 'm) treeTX_scheme \<Rightarrow> (int64 \<Rightarrow> database \<Rightarrow> LogLeaf list) \<Rightarrow> string \<Rightarrow> LogLeaf list act" where
  "getLeavesByHashInternal t query desc =
     bnd (QueryContext (query (treeID t))) (\<lambda>(rows, e).
     bnd (loop (\<lambda>leaf acc.
            if length (MerkleLeafHash leaf) \<noteq> hashSizeBytes t
            then throw (ErrorString (''logID: '' @ FormatInt (treeID t) @ '' Scanned leaf '' @ desc @
                   '' does not have hash length '' @ FormatNat (hashSizeBytes t) @ '', got '' @
                   FormatNat (length (MerkleLeafHash leaf))))
            else ret (acc @ [leaf])) rows []) (\<lambda>acc.
     rows_Err e acc))"

definition GetLeavesByHash :: "('c, 'm) treeTX_scheme \<Rightarrow> bytes list \<Rightarrow> bool \<Rightarrow> LogLeaf list act" where
  "GetLeavesByHash t leafHashes orderBySequence =
     bnd (getLeavesByMerkleHashStmt (int (length leafHashes)) orderBySequence) (\<lambda>_.
       getLeavesByHashInternal t (selectLeavesByMerkleHash leafHashes orderBySequence) ''merkle'')"

definition getLeafDataByIdentityHash :: "('c, 'm) treeTX_scheme \<Rightarrow> bytes list \<Rightarrow> LogLeaf list act" where
  "getLeafDataByIdentityHash t leafHashes =
     bnd (getLeavesByLeafIdentityHashStmt (int (length leafHashes))) (\<lambda>_.
       getLeavesByHashInternal t (selectLeavesByLeafIdentityHash leafHashes) ''leaf-identity'')"

section \<open>Taking leaves from the queue\<close>

record dequeuedLeaf =
  queueTimestampNanos :: int64
  leafIdentityHash :: bytes

definition dequeueInfo :: "bytes \<Rightarrow> int64 \<Rightarrow> dequeuedLeaf" where
  "dequeueInfo leafIDHash queueTimestamp = \<lparr>queueTimestampNanos = queueTimestamp, leafIdentityHash = leafIDHash\<rparr>"

text \<open>Every time that is counted in nanoseconds by an \<open>int64\<close> is a valid protobuf timestamp.\<close>

definition dequeueLeaf :: "unsequenced_row \<Rightarrow> LogLeaf \<times> dequeuedLeaf" where
  "dequeueLeaf r =
     (emptyLogLeaf\<lparr>LeafIdentityHash := uq_identity r, MerkleLeafHash := uq_merkle r,
        QueueTimestamp := Some (uq_queue_nanos r)\<rparr>,
      dequeueInfo (uq_identity r) (uq_queue_nanos r))"

definition removeSequencedLeaves :: "('c, 'm) treeTX_scheme \<Rightarrow> dequeuedLeaf list \<Rightarrow> unit act" where
  "removeSequencedLeaves t leaves =
     bnd PrepareContext (\<lambda>_.
       loop (\<lambda>dql _. bnd (attempt (ExecContext (delete_unsequenced (treeID t) (queueTimestampNanos dql) (leafIdentityHash dql)))) (\<lambda>r.
         checkResultOkAndRowCountIs (map_sum id Inr r) 1)) leaves ())"

definition DequeueLeaves :: "('c, 'm) logTreeTX_scheme \<Rightarrow> int64 \<Rightarrow> int64 \<Rightarrow> LogLeaf list act" where
  "DequeueLeaves t limit cutoffTime =
     (if treeType t = TreeType_PREORDERED_LOG then GetLeavesByRange t (TreeSize (tx_root t)) limit
      else bnd PrepareContext (\<lambda>_.
        if limit <s 0 then throw (ErrorString ''panic: makeslice: cap out of range'')
        else
          bnd (QueryContext (selectQueuedLeavesSQL (treeID t) cutoffTime (unat limit))) (\<lambda>(rows, e).
          bnd (loop (\<lambda>row (leaves, dq).
                 let (leaf, dqInfo) = dequeueLeaf row
                 in if length (LeafIdentityHash leaf) \<noteq> hashSizeBytes t
                    then throw (ErrorString ''dequeued a leaf with incorrect hash size'')
                    else ret (leaves @ [leaf], dq @ [dqInfo])) rows ([], [])) (\<lambda>(leaves, dq).
          bnd (rows_Err e ()) (\<lambda>_.
          bnd (if leaves \<noteq> [] then removeSequencedLeaves t dq else ret ()) (\<lambda>_.
          bnd (dequeued_Add (labelForTX t) (length leaves)) (\<lambda>_.
          ret leaves)))))))"

section \<open>Putting leaves into the queue\<close>

definition Less :: "leafAndPosition \<Rightarrow> leafAndPosition \<Rightarrow> bool" where
  "Less a b \<longleftrightarrow> Compare (LeafIdentityHash (lap_leaf a)) (LeafIdentityHash (lap_leaf b)) = -1"

definition sortLeavesForInsert :: "loglib \<Rightarrow> LogLeaf list \<Rightarrow> leafAndPosition list" where
  "sortLeavesForInsert L leaves = Sort L Less (map (\<lambda>(i, leaf). \<lparr>lap_leaf = leaf, lap_idx = i\<rparr>) (enumerate 0 leaves))"

text \<open>The leaves of the caller, with the time at which they are queued.\<close>

definition stamp :: "int64 \<Rightarrow> LogLeaf \<Rightarrow> LogLeaf" where
  "stamp ts leaf = leaf\<lparr>QueueTimestamp := Some ts\<rparr>"

definition queueArgs :: "int64 \<Rightarrow> int64 list" where
  "queueArgs queueTimestamp = [queueTimestamp]"

definition unsequenced_error :: "int64 \<Rightarrow> LogLeaf \<Rightarrow> int64 \<Rightarrow> err \<Rightarrow> err" where
  "unsequenced_error tid leaf ts e = WrapError (''unsequenced: '' @ Error e @ '' -- '' @
     spaced ([FormatInt tid, fmt_bytes (LeafIdentityHash leaf), fmt_bytes (MerkleLeafHash leaf)] @
       map FormatInt (queueArgs ts))) e"

text \<open>One turn of the loop of \<open>QueueLeaves\<close>.\<close>

definition queue_one :: "('c, 'm) treeTX_scheme \<Rightarrow> int64 \<Rightarrow> leafAndPosition \<Rightarrow>
    LogLeaf option list \<times> nat \<Rightarrow> (LogLeaf option list \<times> nat) act" where
  "queue_one t ts ol acc =
     (let (existingLeaves, existingCount) = acc; leaf = lap_leaf ol in
      bnd (wrapping ''dupecheck failed'' (QueryFunc (insertLeafDataSQL (treeID t) leaf ts))) (\<lambda>(rows, e).
      bnd (rows_Err e ()) (\<lambda>_.
        if \<not> (rows \<noteq> [] \<and> last rows)
        then bnd (queuedDup_Inc (labelForTX t)) (\<lambda>_.
               ret (existingLeaves[lap_idx ol := Some leaf], Suc existingCount))
        else bnd (attempt (ExecContext (insertUnsequencedEntrySQL (treeID t) leaf ts))) (\<lambda>r. case r of
               Inl x \<Rightarrow> throw (unsequenced_error (treeID t) leaf ts x)
             | Inr _ \<Rightarrow> ret (existingLeaves, existingCount)))))"

fun find_leaf :: "LogLeaf list \<Rightarrow> bytes \<Rightarrow> LogLeaf option" where
  "find_leaf [] h = None"
| "find_leaf (l # ls) h = (if LeafIdentityHash l = h then Some l else find_leaf ls h)"

definition replace_existing :: "LogLeaf list \<Rightarrow> LogLeaf option list \<Rightarrow> LogLeaf option list act" where
  "replace_existing results existing =
     loop (\<lambda>requested acc. case requested of
         None \<Rightarrow> ret (acc @ [None])
       | Some leaf \<Rightarrow>
           (case find_leaf results (LeafIdentityHash leaf) of
              Some result \<Rightarrow> ret (acc @ [Some result])
            | None \<Rightarrow> throw (ErrorString (''failed to find existing leaf for hash '' @ fmt_hex (LeafIdentityHash leaf)))))
       existing []"

definition tx_QueueLeaves :: "loglib \<Rightarrow> ('c, 'm) treeTX_scheme \<Rightarrow> LogLeaf list \<Rightarrow> int64 \<Rightarrow> LogLeaf option list act" where
  "tx_QueueLeaves L t leaves ts =
     (if \<exists>leaf\<in>set leaves. length (LeafIdentityHash leaf) \<noteq> hashSizeBytes t
      then throw (ErrorString (''queued leaf must have a leaf ID hash of length '' @ FormatNat (hashSizeBytes t)))
      else
        bnd (loop (queue_one t ts) (sortLeavesForInsert L (map (stamp ts) leaves))
               (replicate (length leaves) None, 0)) (\<lambda>(existingLeaves, existingCount).
        bnd (queued_Add (labelForTX t) (length leaves)) (\<lambda>_.
          if existingCount = 0 then ret existingLeaves
          else
            let toRetrieve = map LeafIdentityHash (List.map_filter id existingLeaves)
            in bnd (attempt (getLeafDataByIdentityHash t toRetrieve)) (\<lambda>r. case r of
                 Inl e \<Rightarrow> throw (WrapError (''failed to retrieve existing leaves: '' @ Error e @ '' '' @
                            spaced (map fmt_bytes toRetrieve)) e)
               | Inr results \<Rightarrow>
                   if length results \<noteq> length toRetrieve
                   then throw (ErrorString (''failed to retrieve all existing leaves: got '' @
                          FormatNat (length results) @ '', want '' @ FormatNat (length toRetrieve)))
                   else replace_existing results existingLeaves))))"

definition log_QueueLeaves :: "'c cachelib \<Rightarrow> loglib \<Rightarrow> Tree \<Rightarrow> LogLeaf list \<Rightarrow> int64 \<Rightarrow> QueuedLogLeaf list act" where
  "log_QueueLeaves C L tree leaves queueTimestamp =
     bnd (log_beginInternal C L tree) (\<lambda>(tx, err). case err of
       Some e \<Rightarrow> throw e
     | None \<Rightarrow>
         bnd (tx_QueueLeaves L tx leaves queueTimestamp) (\<lambda>existing s.
           case tree_Commit C tx s of
             (Inl e, _, s') \<Rightarrow> (Inl e, s')
           | (Inr _, _, s') \<Rightarrow> (Inr (map2 (\<lambda>e leaf. case e of
                 Some x \<Rightarrow> \<lparr>ql_Leaf = Some x, ql_Status = Some codes_AlreadyExists\<rparr>
               | None \<Rightarrow> \<lparr>ql_Leaf = Some (stamp queueTimestamp leaf), ql_Status = None\<rparr>) existing leaves), s')))"

section \<open>Sequenced leaves\<close>

definition UpdateSequencedLeaves :: "('c, 'm) treeTX_scheme \<Rightarrow> LogLeaf list \<Rightarrow> unit act" where
  "UpdateSequencedLeaves t leaves =
     loop (\<lambda>leaf _.
       if length (LeafIdentityHash leaf) \<noteq> hashSizeBytes t
       then throw (ErrorString ''sequenced leaf has incorrect hash size'')
       else (case IntegrateTimestamp leaf of
           None \<Rightarrow> throw (wrapf ''got invalid integrate timestamp'' (ErrorString ''invalid nil Timestamp''))
         | Some iTimestamp \<Rightarrow>
             bnd (ExecContext (insertSequencedLeafSQL (treeID t) leaf iTimestamp)) (\<lambda>_. ret ()))) leaves ()"

text \<open>One turn of the loop of \<open>AddSequencedLeaves\<close>.\<close>

definition add_sequenced_one :: "('c, 'm) treeTX_scheme \<Rightarrow> int64 \<Rightarrow> leafAndPosition \<Rightarrow>
    QueuedLogLeaf option list \<Rightarrow> QueuedLogLeaf option list act" where
  "add_sequenced_one t ts ol res =
     (let i = lap_idx ol; leaf = lap_leaf ol in
      if length (LeafIdentityHash leaf) \<noteq> hashSizeBytes t
      then throw (status_Errorf codes_FailedPrecondition ''FailedPrecondition''
             (''leaves['' @ FormatNat i @ ''] has incorrect hash size '' @ FormatNat (length (LeafIdentityHash leaf)) @
              '', want '' @ FormatNat (hashSizeBytes t)))
      else
        bnd Savepoint (\<lambda>_.
        bnd (ExecContext (insertLeafDataSQL (treeID t) leaf ts)) (\<lambda>_.
        bnd (attempt (QueryFunc (insertSequencedLeafSQL (treeID t) leaf 0))) (\<lambda>r. case r of
            Inl e \<Rightarrow> if errors_Is e ErrNoRows then throw (ErrorString ''panic: nil pointer dereference'') else throw e
          | Inr (rows, e) \<Rightarrow>
              bnd (rows_Err e ()) (\<lambda>_.
                if rows \<noteq> [] \<and> \<not> last rows
                then bnd RollbackTo (\<lambda>_.
                       ret (res[i := Some \<lparr>ql_Leaf = None, ql_Status = Some codes_FailedPrecondition\<rparr>]))
                else ret (res[i := Some \<lparr>ql_Leaf = None, ql_Status = Some codes_OK\<rparr>]))))))"

definition tx_AddSequencedLeaves :: "loglib \<Rightarrow> ('c, 'm) treeTX_scheme \<Rightarrow> LogLeaf list \<Rightarrow> int64 \<Rightarrow> QueuedLogLeaf option list act" where
  "tx_AddSequencedLeaves L t leaves timestamp =
     bnd Savepoint (\<lambda>_.
     bnd (loop (add_sequenced_one t timestamp) (sortLeavesForInsert L leaves) (replicate (length leaves) None)) (\<lambda>res.
     bnd Release (\<lambda>_. ret res)))"

definition log_AddSequencedLeaves :: "'c cachelib \<Rightarrow> loglib \<Rightarrow> Tree \<Rightarrow> LogLeaf list \<Rightarrow> int64 \<Rightarrow> QueuedLogLeaf option list act" where
  "log_AddSequencedLeaves C L tree leaves timestamp =
     bnd (log_beginInternal C L tree) (\<lambda>(tx, err). case err of
       Some e \<Rightarrow> throw e
     | None \<Rightarrow>
         bnd (tx_AddSequencedLeaves L tx leaves timestamp) (\<lambda>res s.
           case tree_Commit C tx s of (Inl e, _, s') \<Rightarrow> (Inl e, s') | (Inr _, _, s') \<Rightarrow> (Inr res, s')))"

section \<open>Roots\<close>

text \<open>\<open>database/sql\<close> refuses an unsigned argument with the high bit set.\<close>

definition bigint_args :: "uint64 list \<Rightarrow> unit act" where
  "bigint_args us =
     (if \<exists>u\<in>set us. u <s 0 then throw (ErrorString ''sql: converting argument: uint64 values with high bit set are not supported'')
      else ret ())"

definition insertTreeHeadSQL :: "int64 \<Rightarrow> LogRootV1 \<Rightarrow> int stmt" where
  "insertTreeHeadSQL tid r = insert_tree_head \<lparr>th_tree_id = tid, tree_head_timestamp = TimestampNanos r,
     tree_size = TreeSize r, root_hash = RootHash r, th_root_signature = [], tree_revision = Revision r\<rparr>"

definition StoreSignedLogRoot :: "loglib \<Rightarrow> ('c, 'm) treeTX_scheme \<Rightarrow> bytes \<Rightarrow> unit act" where
  "StoreSignedLogRoot L t root =
     bnd (lift (root_UnmarshalBinary L root)) (\<lambda>logRoot.
       if Metadata logRoot \<noteq> []
       then throw (ErrorString ''unimplemented: postgres storage does not support log root metadata'')
       else
         bnd (attempt (ExecContext (update_trees (treeID t)
                (\<lambda>r. r\<lparr>current_tree_data := Some (root_json L logRoot), root_signature := Some []\<rparr>)))) (\<lambda>_.
         bnd (attempt (bnd (bigint_args [TimestampNanos logRoot, TreeSize logRoot, Revision logRoot]) (\<lambda>_.
                ExecContext (insertTreeHeadSQL (treeID t) logRoot)))) (\<lambda>res.
         checkResultOkAndRowCountIs (map_sum id Inr res) 1)))"

section \<open>Guarantees\<close>

lemma confined_range_loop: "guarantees confined (range_loop n w rows e acc)"
  by (induction n w rows e acc rule: range_loop.induct) (simp_all add: confined.rules)

lemma confined_GetLeavesByRange: "guarantees confined (GetLeavesByRange t start cnt)"
  unfolding GetLeavesByRange_def Let_def
  by (auto intro!: confined_rules confined_range_loop split: prod.splits)

lemma confined_getLeavesByHashInternal: "guarantees confined (getLeavesByHashInternal t q desc)"
  unfolding getLeavesByHashInternal_def by (auto intro!: confined_rules split: prod.splits)

lemma confined_removeSequencedLeaves: "guarantees confined (removeSequencedLeaves t dq)"
  unfolding removeSequencedLeaves_def by (auto intro!: confined_rules)

lemma confined_getLeafDataByIdentityHash: "guarantees confined (getLeafDataByIdentityHash t hs)"
  unfolding getLeafDataByIdentityHash_def getLeavesByLeafIdentityHashStmt_def
  by (intro confined_rules confined_getStmt confined_getLeavesByHashInternal)

lemma confined_replace_existing: "guarantees confined (replace_existing results existing)"
  unfolding replace_existing_def by (auto intro!: confined_rules split: option.splits)

lemma confined_queue_one: "guarantees confined (queue_one t ts ol acc)"
  unfolding queue_one_def Let_def by (auto intro!: confined_rules split: prod.splits sum.splits)

lemma confined_add_sequenced_one: "guarantees confined (add_sequenced_one t ts ol acc)"
  unfolding add_sequenced_one_def Let_def by (auto intro!: confined_rules split: prod.splits sum.splits)

lemma confined_DequeueLeaves: "guarantees confined (DequeueLeaves t limit cutoff)"
  unfolding DequeueLeaves_def Let_def
  by (auto intro!: confined_rules confined_removeSequencedLeaves confined_GetLeavesByRange split: prod.splits)

lemma confined_QueueLeaves: "guarantees confined (tx_QueueLeaves L t leaves ts)"
  unfolding tx_QueueLeaves_def Let_def
  by (auto intro!: confined_rules confined_queue_one confined_getLeafDataByIdentityHash confined_replace_existing
      split: prod.splits sum.splits)

lemma confined_bigint_args: "guarantees confined (bigint_args us)"
  unfolding bigint_args_def by (auto intro!: confined_rules)

lemma log_confined:
  "guarantees confined GetActiveLogIDs" "guarantees confined (GetMerkleNodes C lt ids)"
  "guarantees confined (GetLeavesByHash t hs ord)" "guarantees confined (UpdateSequencedLeaves t leaves)"
  "guarantees confined (tx_AddSequencedLeaves L t leaves ts)" "guarantees confined (StoreSignedLogRoot L t r)"
  "guarantees confined (fetchLatestRoot L t)"
  unfolding GetActiveLogIDs_def GetMerkleNodes_def GetLeavesByHash_def UpdateSequencedLeaves_def
    tx_AddSequencedLeaves_def StoreSignedLogRoot_def fetchLatestRoot_def getLeavesByMerkleHashStmt_def
    getSubtreesAtRev_def
  by (auto intro!: confined_rules confined_answering confined_getSubtrees confined_getStmt
      confined_getLeavesByHashInternal confined_add_sequenced_one confined_bigint_args
      split: prod.splits option.splits sum.splits)

lemma keeps_log_stmts [wf_intros]:
  "keeps wf_db (insertLeafDataSQL tid leaf n)" "keeps wf_db (insertSequencedLeafSQL tid leaf n)"
  "keeps wf_db (insertUnsequencedEntrySQL tid leaf n)" "keeps wf_db (insertTreeHeadSQL tid r)"
  by (simp_all add: insertLeafDataSQL_def insertSequencedLeafSQL_def insertUnsequencedEntrySQL_def
      insertTreeHeadSQL_def wf_intros)

lemma tx_inv_range_loop: "guarantees (maintains (tx_inv P)) (range_loop n w rows e acc)"
  by (induction n w rows e acc rule: range_loop.induct) (simp_all add: tx_inv.rules)

lemma tx_inv_reads:
  "guarantees (maintains (tx_inv P)) (GetLeavesByRange lt start cnt)"
  "guarantees (maintains (tx_inv P)) (getLeavesByHashInternal t q desc)"
  "guarantees (maintains (tx_inv P)) (replace_existing results existing)"
  "guarantees (maintains (tx_inv P)) (bigint_args us)"
  "guarantees (maintains (tx_inv P)) GetActiveLogIDs"
  "guarantees (maintains (tx_inv P)) (fetchLatestRoot L t)"
  unfolding GetLeavesByRange_def Let_def getLeavesByHashInternal_def replace_existing_def bigint_args_def
    GetActiveLogIDs_def fetchLatestRoot_def
  by (auto intro!: tx_inv_rules tx_inv_range_loop split: prod.splits option.splits sum.splits)

lemma tx_inv_lookups:
  "guarantees (maintains (tx_inv P)) (getLeafDataByIdentityHash t hs)"
  "guarantees (maintains (tx_inv P)) (GetLeavesByHash t hs ord)"
  "guarantees (maintains (tx_inv P)) (GetMerkleNodes C lt ids)"
  unfolding getLeafDataByIdentityHash_def getLeavesByLeafIdentityHashStmt_def GetLeavesByHash_def
    getLeavesByMerkleHashStmt_def GetMerkleNodes_def getSubtreesAtRev_def
  by (auto intro!: tx_inv_rules tx_inv_reads tx_inv_getStmt tx_inv_answering tx_inv_getSubtrees split: prod.splits)

lemma wf_loop_bodies:
  "guarantees (maintains (tx_inv wf_db)) (queue_one t ts ol acc)"
  "guarantees (maintains (tx_inv wf_db)) (add_sequenced_one t ts ol res)"
  "guarantees (maintains (tx_inv wf_db)) (removeSequencedLeaves t dq)"
  unfolding queue_one_def add_sequenced_one_def removeSequencedLeaves_def Let_def
  by (auto intro!: tx_inv_rules wf_intros split: prod.splits sum.splits)

lemma log_keeps_wf:
  "guarantees (maintains (tx_inv wf_db)) (DequeueLeaves lt limit cutoff)"
  "guarantees (maintains (tx_inv wf_db)) (tx_QueueLeaves L t leaves ts)"
  "guarantees (maintains (tx_inv wf_db)) (UpdateSequencedLeaves t leaves)"
  "guarantees (maintains (tx_inv wf_db)) (tx_AddSequencedLeaves L t leaves ts)"
  "guarantees (maintains (tx_inv wf_db)) (StoreSignedLogRoot L t r)"
  unfolding DequeueLeaves_def tx_QueueLeaves_def UpdateSequencedLeaves_def tx_AddSequencedLeaves_def
    StoreSignedLogRoot_def Let_def
  by (auto intro!: tx_inv_rules tx_inv_reads tx_inv_lookups wf_loop_bodies wf_intros
      split: prod.splits option.splits sum.splits)

end
