(* ===== verification/LogQueue.thy ===== *)
theory LogQueue
  imports LogStorage "HOL-Library.Multiset"
begin

text \<open>
  What the log storage does to a log. \<open>log_spec\<close> is the log as its clients see it: the leaves that are
  known by their identity hash, the leaves that wait to be integrated, and the entries of the log.
  \<open>abs_log\<close> reads it off the tables. Queueing is shown to implement \<open>spec_queue\<close> on it.
\<close>

section \<open>The abstract log\<close>

record log_spec =
  known :: "bytes \<rightharpoonup> bytes \<times> bytes \<times> int64"
  pending :: "(int64 \<times> bytes \<times> bytes) set"
  entries :: "int64 \<rightharpoonup> bytes \<times> bytes \<times> int64"

definition abs_log :: "int64 \<Rightarrow> database \<Rightarrow> log_spec" where
  "abs_log tid d =
     \<lparr>known = (\<lambda>h. map_option (\<lambda>l. (leaf_value l, extra_data l, ld_queue_nanos l))
        (List.find (\<lambda>l. ld_tree_id l = tid \<and> ld_identity l = h) (leaf_data d))),
      pending = (\<lambda>r. (uq_queue_nanos r, uq_identity r, uq_merkle r)) `
        {r \<in> set (unsequenced d). uq_tree_id r = tid \<and> bucket r = 0},
      entries = (\<lambda>i. map_option (\<lambda>s. (sq_identity s, sq_merkle s, integrate_nanos s))
        (List.find (\<lambda>s. sq_tree_id s = tid \<and> sequence_number s = i) (sequenced_leaf_data d)))\<rparr>"

definition spec_queue :: "LogLeaf list \<Rightarrow> int64 \<Rightarrow> log_spec \<Rightarrow> log_spec" where
  "spec_queue leaves ts A = A
     \<lparr>known := (\<lambda>h. case known A h of
          Some x \<Rightarrow> Some x
        | None \<Rightarrow> map_option (\<lambda>l. (LeafValue l, ll_ExtraData l, ts)) (find_leaf leaves h)),
      pending := pending A \<union> (\<lambda>l. (ts, LeafIdentityHash l, MerkleLeafHash l)) `
          {l \<in> set leaves. known A (LeafIdentityHash l) = None}\<rparr>"

text \<open>The state of a log in the tables: waiting leaves are known, and no leaf is sequenced twice.\<close>

definition known_ids :: "int64 \<Rightarrow> database \<Rightarrow> bytes set" where
  "known_ids tid d = ld_identity ` {l \<in> set (leaf_data d). ld_tree_id l = tid}"

definition log_ok :: "int64 \<Rightarrow> database \<Rightarrow> bool" where
  "log_ok tid d \<longleftrightarrow> wf_db d \<and> tid \<in> tree_ids d \<and>
     (\<forall>r\<in>set (unsequenced d). uq_tree_id r = tid \<longrightarrow> uq_identity r \<in> known_ids tid d) \<and>
     (\<forall>s\<in>set (sequenced_leaf_data d). \<forall>s'\<in>set (sequenced_leaf_data d).
        sq_tree_id s = tid \<longrightarrow> sq_tree_id s' = tid \<longrightarrow> sq_identity s = sq_identity s' \<longrightarrow> s = s')"

section \<open>The contract of sorting\<close>

text \<open>
  \<open>sort.Sort\<close> documents that it sorts in ascending order as determined by \<open>Less\<close>, and that the sort is
  not guaranteed to be stable. Only that it permutes matters here.
\<close>

definition sort_ok :: "loglib \<Rightarrow> bool" where
  "sort_ok L \<longleftrightarrow> (\<forall>xs. mset (Sort L Less xs) = mset xs \<and> sorted_wrt (\<lambda>a b. \<not> Less b a) (Sort L Less xs))"

lemma sort_ok_set: "sort_ok L \<Longrightarrow> set (Sort L Less xs) = set xs"
  by (metis sort_ok_def set_mset_mset)

lemma sort_ok_distinct: "sort_ok L \<Longrightarrow> distinct (map f (Sort L Less xs)) \<longleftrightarrow> distinct (map f xs)"
  by (metis sort_ok_def mset_eq_imp_distinct_iff mset_map)

section \<open>One leaf\<close>

definition leaf_row :: "int64 \<Rightarrow> int64 \<Rightarrow> LogLeaf \<Rightarrow> leaf_data_row" where
  "leaf_row tid ts l = \<lparr>ld_tree_id = tid, ld_identity = LeafIdentityHash l, leaf_value = LeafValue l,
     extra_data = ll_ExtraData l, ld_queue_nanos = ts\<rparr>"

definition queue_row :: "int64 \<Rightarrow> int64 \<Rightarrow> LogLeaf \<Rightarrow> unsequenced_row" where
  "queue_row tid ts l = \<lparr>uq_tree_id = tid, bucket = 0, uq_identity = LeafIdentityHash l,
     uq_merkle = MerkleLeafHash l, uq_queue_nanos = ts\<rparr>"

lemma queue_row_sel [simp]:
  "uq_tree_id (queue_row tid ts l) = tid" "bucket (queue_row tid ts l) = 0"
  "uq_identity (queue_row tid ts l) = LeafIdentityHash l" "uq_merkle (queue_row tid ts l) = MerkleLeafHash l"
  "uq_queue_nanos (queue_row tid ts l) = ts"
  by (simp_all add: queue_row_def)

definition add_leaves :: "int64 \<Rightarrow> int64 \<Rightarrow> LogLeaf list \<Rightarrow> database \<Rightarrow> database" where
  "add_leaves tid ts ls d = d\<lparr>leaf_data := leaf_data d @ map (leaf_row tid ts) ls,
     unsequenced := unsequenced d @ map (queue_row tid ts) ls\<rparr>"

lemma add_leaves_simps [simp]:
  "add_leaves tid ts [] d = d"
  "add_leaves tid ts ls' (add_leaves tid ts ls d) = add_leaves tid ts (ls @ ls') d"
  "trees (add_leaves tid ts ls d) = trees d" "tree_ids (add_leaves tid ts ls d) = tree_ids d"
  "sequenced_leaf_data (add_leaves tid ts ls d) = sequenced_leaf_data d"
  "leaf_data (add_leaves tid ts ls d) = leaf_data d @ map (leaf_row tid ts) ls"
  "unsequenced (add_leaves tid ts ls d) = unsequenced d @ map (queue_row tid ts) ls"
  by (simp_all add: add_leaves_def tree_ids_def)

lemma known_ids_add [simp]:
  "known_ids tid (add_leaves tid ts ls d) = known_ids tid d \<union> LeafIdentityHash ` set ls"
proof -
  have "{l \<in> set (leaf_data d) \<union> leaf_row tid ts ` set ls. ld_tree_id l = tid}
      = {l \<in> set (leaf_data d). ld_tree_id l = tid} \<union> leaf_row tid ts ` set ls"
    by (auto simp: leaf_row_def)
  then show ?thesis by (simp add: known_ids_def image_Un image_image) (simp add: leaf_row_def)
qed

lemma known_ids_key: "(tid, h) \<in> leaf_key ` set (leaf_data d) \<longleftrightarrow> h \<in> known_ids tid d"
  by (auto simp: known_ids_def image_iff)

lemma queue_one_known:
  assumes "ready s" "LeafIdentityHash (lap_leaf ol) \<in> known_ids (treeID t) (work s)"
  shows "\<exists>c. queue_one t ts ol (ex, n) s = (Inr (ex[lap_idx ol := Some (lap_leaf ol)], Suc n), s\<lparr>queuedDupCounter := c\<rparr>)"
proof -
  have "insertLeafDataSQL (treeID t) (lap_leaf ol) ts (work s) = Inr (False, work s)"
    using assms(2) by (simp add: insertLeafDataSQL_def insert_leaf_data_ignore_duplicates_def known_ids_key)
  with assms(1) show ?thesis
    by (simp add: queue_one_def Let_def bnd_def wrapping_def act_simps rows_Err_def queuedDup_Inc_def modify_def)
      blast
qed

lemma queue_one_fresh:
  assumes "ready s" "LeafIdentityHash (lap_leaf ol) \<notin> known_ids (treeID t) (work s)"
    and "treeID t \<in> tree_ids (work s)"
    and "\<forall>r\<in>set (unsequenced (work s)). uq_tree_id r = treeID t \<longrightarrow> uq_identity r \<in> known_ids (treeID t) (work s)"
  shows "queue_one t ts ol (ex, n) s
    = (Inr (ex, n), s\<lparr>work := add_leaves (treeID t) ts [lap_leaf ol] (work s)\<rparr>)"
proof -
  let ?l = "lap_leaf ol" and ?tid = "treeID t"
  let ?d = "(work s)\<lparr>leaf_data := leaf_data (work s) @ [leaf_row ?tid ts ?l]\<rparr>"
  have "insertLeafDataSQL ?tid ?l ts (work s) = Inr (True, ?d)"
    using assms(2,3)
    by (simp add: insertLeafDataSQL_def insert_leaf_data_ignore_duplicates_def known_ids_key leaf_row_def)
  moreover have "unsequenced_key (queue_row ?tid ts ?l) \<notin> unsequenced_key ` set (unsequenced (work s))"
    using assms(2,4) by (auto simp: queue_row_def)
  then have "insertUnsequencedEntrySQL ?tid ?l ts ?d = Inr (True, add_leaves ?tid ts [?l] (work s))"
    by (auto simp: insertUnsequencedEntrySQL_def insert_unsequenced_ignore_duplicates_def Let_def
        add_leaves_def queue_row_def)
  ultimately show ?thesis
    using assms(1) by (simp add: queue_one_def Let_def bnd_def wrapping_def act_simps rows_Err_def)
qed

section \<open>The loop\<close>

definition mark :: "bytes set \<Rightarrow> leafAndPosition \<Rightarrow> LogLeaf option list \<Rightarrow> LogLeaf option list" where
  "mark K ol ex = (if LeafIdentityHash (lap_leaf ol) \<in> K then ex[lap_idx ol := Some (lap_leaf ol)] else ex)"

abbreviation is_known :: "bytes set \<Rightarrow> leafAndPosition \<Rightarrow> bool" where
  "is_known K ol \<equiv> LeafIdentityHash (lap_leaf ol) \<in> K"

lemma queue_loop:
  assumes "ready s" "treeID t \<in> tree_ids (work s)"
    and "\<forall>r\<in>set (unsequenced (work s)). uq_tree_id r = treeID t \<longrightarrow> uq_identity r \<in> known_ids (treeID t) (work s)"
    and "distinct (map (LeafIdentityHash \<circ> lap_leaf) os)"
    and "\<forall>ol\<in>set os. is_known K ol \<longleftrightarrow> is_known (known_ids (treeID t) (work s)) ol"
  shows "\<exists>c. loop (queue_one t ts) os (ex, n) s =
     (Inr (fold (mark K) os ex, n + length (filter (is_known K) os)),
      s\<lparr>queuedDupCounter := c,
        work := add_leaves (treeID t) ts (map lap_leaf (filter (Not \<circ> is_known K) os)) (work s)\<rparr>)"
  using assms
proof (induction os arbitrary: s ex n)
  case Nil
  then show ?case by (auto simp: ret_def intro: exI [of _ "queuedDupCounter s"])
next
  case (Cons ol os)
  show ?case
  proof (cases "is_known K ol")
    case True
    then obtain c where c: "queue_one t ts ol (ex, n) s
        = (Inr (ex[lap_idx ol := Some (lap_leaf ol)], Suc n), s\<lparr>queuedDupCounter := c\<rparr>)"
      using queue_one_known [of s ol t ts ex n] Cons.prems by auto
    then show ?thesis
      using Cons.IH [of "s\<lparr>queuedDupCounter := c\<rparr>" "ex[lap_idx ol := Some (lap_leaf ol)]" "Suc n"] Cons.prems True
      by (auto simp: bnd_def mark_def)
  next
    case False
    let ?s = "s\<lparr>work := add_leaves (treeID t) ts [lap_leaf ol] (work s)\<rparr>"
    have one: "queue_one t ts ol (ex, n) s = (Inr (ex, n), ?s)"
      using Cons.prems False by (intro queue_one_fresh) auto
    have "\<exists>c. loop (queue_one t ts) os (ex, n) ?s =
       (Inr (fold (mark K) os ex, n + length (filter (is_known K) os)),
        ?s\<lparr>queuedDupCounter := c,
          work := add_leaves (treeID t) ts (map lap_leaf (filter (Not \<circ> is_known K) os)) (work ?s)\<rparr>)"
      using Cons.prems False
      by (intro Cons.IH) (auto simp: queue_row_def dest: rev_image_eqI [of _ "set os" _ "\<lambda>a. LeafIdentityHash (lap_leaf a)"])
    moreover have "mark K ol ex = ex" using False by (simp add: mark_def)
    ultimately show ?thesis using one False by (simp add: bnd_def comp_def)
  qed
qed

section \<open>The positions of the leaves\<close>

definition positions :: "LogLeaf list \<Rightarrow> leafAndPosition list" where
  "positions ls = map (\<lambda>(i, l). \<lparr>lap_leaf = l, lap_idx = i\<rparr>) (enumerate 0 ls)"

lemma positions_leaves: "map lap_leaf (positions ls) = ls"
  by (auto simp: positions_def comp_def split_def)

lemma positions_idx: "map lap_idx (positions ls) = [0..<length ls]"
  by (auto simp: positions_def comp_def split_def)

lemma mem_positions: "ol \<in> set (positions ls) \<longleftrightarrow> lap_idx ol < length ls \<and> lap_leaf ol = ls ! lap_idx ol"
proof -
  have "ol \<in> set (positions ls) \<longleftrightarrow> (\<exists>i < length ls. ol = \<lparr>lap_leaf = ls ! i, lap_idx = i\<rparr>)"
    by (force simp: positions_def in_set_enumerate_eq)
  then show ?thesis by (cases ol) auto
qed

lemma mark_simps [simp]:
  "is_known K ol \<Longrightarrow> mark K ol ex = ex[lap_idx ol := Some (lap_leaf ol)]"
  "\<not> is_known K ol \<Longrightarrow> mark K ol ex = ex"
  by (simp_all add: mark_def)

lemma length_mark [simp]: "length (mark K ol ex) = length ex"
  by (simp add: mark_def)

lemma length_fold_mark [simp]: "length (fold (mark K) os ex) = length ex"
  by (induction os arbitrary: ex) simp_all

lemma mark_nth_other: "i \<noteq> lap_idx ol \<Longrightarrow> mark K ol ex ! i = ex ! i"
  by (simp add: mark_def)

lemma fold_mark_other: "i \<notin> lap_idx ` set os \<Longrightarrow> fold (mark K) os ex ! i = ex ! i"
  by (induction os arbitrary: ex) (simp_all add: mark_nth_other)

lemma fold_mark_nth:
  "distinct (map lap_idx os) \<Longrightarrow> ol \<in> set os \<Longrightarrow> lap_idx ol < length ex \<Longrightarrow>
     fold (mark K) os ex ! lap_idx ol = (if is_known K ol then Some (lap_leaf ol) else ex ! lap_idx ol)"
proof (induction os arbitrary: ex)
  case (Cons a os)
  show ?case
  proof (cases "ol = a")
    case True
    with Cons.prems have "lap_idx ol \<notin> lap_idx ` set os" by simp
    with True Cons.prems(3) show ?thesis
      by (cases "is_known K a") (simp_all add: fold_mark_other)
  next
    case False
    with Cons.prems have "ol \<in> set os" "lap_idx ol \<noteq> lap_idx a" by (auto simp: image_iff)
    with Cons.IH [of "mark K a ex"] Cons.prems show ?thesis by (simp add: mark_nth_other)
  qed
qed simp

lemma fold_mark_positions:
  assumes "mset os = mset (positions ls)"
  shows "fold (mark K) os (replicate (length ls) None) = map (\<lambda>l. if LeafIdentityHash l \<in> K then Some l else None) ls"
proof (rule nth_equalityI)
  fix i assume "i < length (fold (mark K) os (replicate (length ls) None))"
  then have i: "i < length ls" by simp
  have dist: "distinct (map lap_idx os)"
    using assms by (metis distinct_upt mset_eq_imp_distinct_iff mset_map positions_idx)
  have "\<lparr>lap_leaf = ls ! i, lap_idx = i\<rparr> \<in> set os"
    using i assms by (metis mem_positions leafAndPosition.select_convs set_mset_mset)
  from fold_mark_nth [OF dist this, of "replicate (length ls) None" K] i
  show "fold (mark K) os (replicate (length ls) None) ! i = map (\<lambda>l. if LeafIdentityHash l \<in> K then Some l else None) ls ! i"
    by simp
qed simp

section \<open>Reading back the leaves that exist\<close>

lemma find_Some: "List.find P xs = Some x \<Longrightarrow> x \<in> set xs \<and> P x"
  by (induction xs) (auto split: if_splits)

lemma find_unique: "x \<in> set xs \<Longrightarrow> P x \<Longrightarrow> (\<And>y. y \<in> set xs \<Longrightarrow> P y \<Longrightarrow> y = x) \<Longrightarrow> List.find P xs = Some x"
  by (cases "List.find P xs") (metis find_None_iff, metis find_Some)

lemma filter_at_most_one:
  "distinct xs \<Longrightarrow> (\<And>x y. x \<in> set xs \<Longrightarrow> y \<in> set xs \<Longrightarrow> P x \<Longrightarrow> P y \<Longrightarrow> x = y) \<Longrightarrow>
     filter P xs = (case List.find P xs of None \<Rightarrow> [] | Some x \<Rightarrow> [x])"
proof (induction xs)
  case (Cons a xs)
  show ?case
  proof (cases "P a")
    case True
    with Cons.prems have "filter P xs = []" unfolding filter_empty_conv by (metis distinct.simps(2) list.set_intros)
    with True show ?thesis by simp
  next
    case False
    with Cons show ?thesis by auto
  qed
qed simp

lemma concat_map_single: "(\<And>x. x \<in> set xs \<Longrightarrow> f x = [g x]) \<Longrightarrow> concat (map f xs) = map g xs"
  by (induction xs) auto

definition integrated :: "database \<Rightarrow> leaf_data_row \<Rightarrow> int64 option" where
  "integrated d l = map_option integrate_nanos
     (List.find (\<lambda>s. sq_identity s = ld_identity l \<and> sq_tree_id s = ld_tree_id l) (sequenced_leaf_data d))"

definition stored_leaf :: "database \<Rightarrow> leaf_data_row \<Rightarrow> LogLeaf" where
  "stored_leaf d l = scan_leaf dummymerkleLeafHash (-1) (integrated d l) l"

definition leaf_rows :: "bytes list \<Rightarrow> int64 \<Rightarrow> database \<Rightarrow> leaf_data_row list" where
  "leaf_rows hs tid d = filter (\<lambda>l. ld_identity l \<in> set hs \<and> ld_tree_id l = tid) (leaf_data d)"

lemma sequenced_distinct: "wf_db d \<Longrightarrow> distinct (sequenced_leaf_data d)"
  unfolding wf_db_def keys_ok_def distinct_map by blast

lemma select_identity:
  assumes "log_ok tid d"
  shows "selectLeavesByLeafIdentityHash hs tid d = map (stored_leaf d) (leaf_rows hs tid d)"
proof -
  have "(let ss = filter (\<lambda>s. sq_identity s = ld_identity l \<and> sq_tree_id s = ld_tree_id l) (sequenced_leaf_data d)
        in if ss = [] then [scan_leaf dummymerkleLeafHash (-1) None l]
           else map (\<lambda>s. scan_leaf dummymerkleLeafHash (-1) (Some (integrate_nanos s)) l) ss) = [stored_leaf d l]"
    if "l \<in> set (leaf_rows hs tid d)" for l
  proof -
    have "filter (\<lambda>s. sq_identity s = ld_identity l \<and> sq_tree_id s = ld_tree_id l) (sequenced_leaf_data d)
        = (case List.find (\<lambda>s. sq_identity s = ld_identity l \<and> sq_tree_id s = ld_tree_id l) (sequenced_leaf_data d) of
             None \<Rightarrow> [] | Some x \<Rightarrow> [x])"
      using that assms
      by (intro filter_at_most_one sequenced_distinct) (auto simp: log_ok_def leaf_rows_def)
    then show ?thesis
      by (simp add: stored_leaf_def integrated_def Let_def split: option.splits)
  qed
  then show ?thesis
    unfolding selectLeavesByLeafIdentityHash_def leaf_rows_def [symmetric] by (rule concat_map_single)
qed

lemma leaf_rows_ids:
  assumes "wf_db d" shows "distinct (map ld_identity (leaf_rows hs tid d))"
proof -
  have "distinct (map leaf_key (leaf_rows hs tid d))"
    unfolding leaf_rows_def using assms by (intro distinct_map_filter) (simp add: wf_db_def keys_ok_def)
  moreover have "map leaf_key (leaf_rows hs tid d) = map (Pair tid) (map ld_identity (leaf_rows hs tid d))"
    by (auto simp: leaf_rows_def)
  ultimately show ?thesis by (metis distinct_map)
qed

lemma leaf_rows_set: "ld_identity ` set (leaf_rows hs tid d) = set hs \<inter> known_ids tid d"
  by (auto simp: leaf_rows_def known_ids_def image_iff)

lemma leaf_rows_length:
  assumes "wf_db d" "distinct hs" "set hs \<subseteq> known_ids tid d"
  shows "length (leaf_rows hs tid d) = length hs"
proof -
  have "length (leaf_rows hs tid d) = card (set (map ld_identity (leaf_rows hs tid d)))"
    using leaf_rows_ids [OF assms(1)] by (metis distinct_card length_map)
  also have "\<dots> = card (set hs)" using assms(3) leaf_rows_set [of hs tid d] by (simp add: Int_absorb2)
  finally show ?thesis using assms(2) by (simp add: distinct_card)
qed

lemma find_leaf_stored:
  "find_leaf (map (stored_leaf d) rows) h = map_option (stored_leaf d) (List.find (\<lambda>l. ld_identity l = h) rows)"
  by (induction rows) (simp_all add: stored_leaf_def scan_leaf_def)

lemma find_leaf_rows:
  assumes "wf_db d" "h \<in> set hs" "l \<in> set (leaf_data d)" "ld_tree_id l = tid" "ld_identity l = h"
  shows "List.find (\<lambda>l. ld_identity l = h) (leaf_rows hs tid d) = Some l"
proof (rule find_unique)
  show "l \<in> set (leaf_rows hs tid d)" using assms by (simp add: leaf_rows_def)
  show "l' = l" if "l' \<in> set (leaf_rows hs tid d)" "ld_identity l' = h" for l'
    using that assms by (auto simp: leaf_rows_def wf_db_def keys_ok_def distinct_map inj_on_def)
qed (fact assms(5))

lemma getLeafData_ready:
  assumes "ready s" "log_ok (treeID t) (work s)" "hashSizeBytes t = 32" "hs \<noteq> []"
  shows "\<exists>c. getLeafDataByIdentityHash t hs s
    = (Inr (map (stored_leaf (work s)) (leaf_rows hs (treeID t) (work s))), s\<lparr>statements := c\<rparr>)"
proof -
  obtain stmt c where st: "getStmt (select_skeleton selectLeavesByLeafIdentityHashSQL (int (length hs))) s
      = (Inr stmt, s\<lparr>statements := c\<rparr>)"
    using getStmt_ready [of s "select_skeleton selectLeavesByLeafIdentityHashSQL (int (length hs))"] assms(1,4) by auto
  let ?rows = "map (stored_leaf (work s)) (leaf_rows hs (treeID t) (work s))"
  have "loop (\<lambda>leaf acc.
            if length (MerkleLeafHash leaf) \<noteq> hashSizeBytes t
            then throw (ErrorString (''logID: '' @ FormatInt (treeID t) @ '' Scanned leaf '' @ ''leaf-identity'' @
                   '' does not have hash length '' @ FormatNat (hashSizeBytes t) @ '', got '' @
                   FormatNat (length (MerkleLeafHash leaf))))
            else ret (acc @ [leaf])) ?rows [] s' = (Inr ([] @ map id ?rows), s')" for s' :: sess
    by (rule loop_collect)
      (use assms(3) in \<open>auto simp: ret_def stored_leaf_def scan_leaf_def dummymerkleLeafHash_def\<close>)
  with st assms(1) show ?thesis
    by (intro exI [of _ c])
      (simp add: getLeafDataByIdentityHash_def getLeavesByLeafIdentityHashStmt_def getLeavesByHashInternal_def
        bnd_def act_simps select_identity [OF assms(2)] rows_Err_def)
qed

section \<open>The tables implement the abstract log\<close>

lemma find_append: "List.find P (xs @ ys) = (case List.find P xs of None \<Rightarrow> List.find P ys | Some x \<Rightarrow> Some x)"
  by (induction xs) auto

lemma known_None: "known (abs_log tid d) h = None \<longleftrightarrow> h \<notin> known_ids tid d"
  by (auto simp: abs_log_def known_ids_def find_None_iff)

lemma find_leaf_iff:
  "distinct (map LeafIdentityHash ls) \<Longrightarrow> find_leaf ls h = Some l \<longleftrightarrow> l \<in> set ls \<and> LeafIdentityHash l = h"
  by (induction ls) (auto simp: image_iff)

lemma find_leaf_set:
  assumes "distinct (map LeafIdentityHash xs)" "distinct (map LeafIdentityHash ys)"
    and "\<And>l. LeafIdentityHash l = h \<Longrightarrow> l \<in> set xs \<longleftrightarrow> l \<in> set ys"
  shows "find_leaf xs h = find_leaf ys h"
proof (cases "find_leaf ys h")
  case (Some l)
  then have "l \<in> set xs" "LeafIdentityHash l = h" using assms by (simp_all add: find_leaf_iff)
  with Some show ?thesis using find_leaf_iff [OF assms(1), of h l] by simp
next
  case None
  have "find_leaf xs h \<noteq> Some l" for l
    using assms(3) [of l] None find_leaf_iff [OF assms(1), of h l] find_leaf_iff [OF assms(2), of h l] by auto
  with None show ?thesis by (cases "find_leaf xs h") auto
qed

lemma find_leaf_stamp: "find_leaf (map (stamp ts) ls) h = map_option (stamp ts) (find_leaf ls h)"
  by (induction ls) (simp_all add: stamp_def)

lemma find_leaf_row:
  "List.find (\<lambda>l. ld_tree_id l = tid \<and> ld_identity l = h) (map (leaf_row tid ts) ls)
     = map_option (leaf_row tid ts) (find_leaf ls h)"
  by (induction ls) (simp_all add: leaf_row_def)

lemma pending_add:
  "pending (abs_log tid (add_leaves tid ts fs d))
     = pending (abs_log tid d) \<union> (\<lambda>l. (ts, LeafIdentityHash l, MerkleLeafHash l)) ` set fs"
proof -
  have "{r \<in> set (unsequenced d) \<union> queue_row tid ts ` set fs. uq_tree_id r = tid \<and> bucket r = 0}
      = {r \<in> set (unsequenced d). uq_tree_id r = tid \<and> bucket r = 0} \<union> queue_row tid ts ` set fs"
    by (auto simp: queue_row_def)
  moreover have "pending (abs_log tid (add_leaves tid ts fs d)) = (\<lambda>r. (uq_queue_nanos r, uq_identity r, uq_merkle r)) `
      {r \<in> set (unsequenced d) \<union> queue_row tid ts ` set fs. uq_tree_id r = tid \<and> bucket r = 0}"
    by (simp add: abs_log_def)
  ultimately show ?thesis
    by (simp only: image_Un image_image) (simp add: abs_log_def queue_row_def)
qed

text \<open>Adding the rows of fresh leaves is queueing them.\<close>

lemma abs_add_leaves:
  assumes fs: "distinct (map LeafIdentityHash fs)" "distinct (map LeafIdentityHash leaves)"
    and set_fs: "set fs = {l \<in> stamp ts ` set leaves. LeafIdentityHash l \<notin> known_ids tid d}"
  shows "abs_log tid (add_leaves tid ts fs d) = spec_queue leaves ts (abs_log tid d)"
proof -
  have ids: "LeafIdentityHash (stamp ts l) = LeafIdentityHash l" "LeafValue (stamp ts l) = LeafValue l"
    "ll_ExtraData (stamp ts l) = ll_ExtraData l" "MerkleLeafHash (stamp ts l) = MerkleLeafHash l" for l
    by (simp_all add: stamp_def)
  have dist: "distinct (map LeafIdentityHash (map (stamp ts) leaves))"
    using fs(2) by (simp add: comp_def ids)
  have "known (abs_log tid (add_leaves tid ts fs d)) h = known (spec_queue leaves ts (abs_log tid d)) h" for h
  proof (cases "known (abs_log tid d) h")
    case None
    then have "h \<notin> known_ids tid d" by (simp add: known_None)
    then have "find_leaf fs h = map_option (stamp ts) (find_leaf leaves h)"
      using find_leaf_set [OF fs(1) dist, of h] by (auto simp: set_fs find_leaf_stamp)
    with None show ?thesis
      by (simp add: spec_queue_def abs_log_def find_append find_leaf_row option.map_comp comp_def leaf_row_def ids)
  next
    case (Some x)
    then show ?thesis by (auto simp: spec_queue_def abs_log_def find_append)
  qed
  moreover have "pending (abs_log tid (add_leaves tid ts fs d)) = pending (spec_queue leaves ts (abs_log tid d))"
  proof -
    have "set fs = stamp ts ` {l \<in> set leaves. known (abs_log tid d) (LeafIdentityHash l) = None}"
      by (auto simp: set_fs ids known_None)
    then show ?thesis by (simp add: pending_add spec_queue_def image_image ids)
  qed
  moreover have "entries (abs_log tid (add_leaves tid ts fs d)) = entries (spec_queue leaves ts (abs_log tid d))"
    by (simp add: spec_queue_def abs_log_def)
  ultimately show ?thesis by (simp add: fun_eq_iff)
qed

lemma log_ok_add_leaves:
  assumes "log_ok tid d" "distinct (map LeafIdentityHash fs)" "LeafIdentityHash ` set fs \<inter> known_ids tid d = {}"
  shows "log_ok tid (add_leaves tid ts fs d)"
proof -
  let ?d = "add_leaves tid ts fs d"
  have wf: "wf_db d" and tid: "tid \<in> tree_ids d" using assms(1) by (auto simp: log_ok_def)
  have lk: "map leaf_key (map (leaf_row tid ts) fs) = map (Pair tid) (map LeafIdentityHash fs)"
    by (simp add: leaf_row_def)
  have uk: "map unsequenced_key (map (queue_row tid ts) fs) = map (\<lambda>h. (tid, 0, ts, h)) (map LeafIdentityHash fs)"
    by (simp add: queue_row_def)
  have "distinct (map leaf_key (leaf_data ?d))"
    using wf assms(2,3) unfolding add_leaves_simps map_append distinct_append lk
    by (auto simp: wf_db_def keys_ok_def distinct_map inj_on_def known_ids_def)
  moreover have "distinct (map unsequenced_key (unsequenced ?d))"
    using wf assms unfolding add_leaves_simps map_append distinct_append uk
    by (auto simp: wf_db_def keys_ok_def distinct_map inj_on_def log_ok_def)
  ultimately have "keys_ok ?d"
    using wf by (simp add: wf_db_def keys_ok_def add_leaves_def)
  moreover have "references_ok ?d"
    using wf tid by (auto simp: wf_db_def references_ok_def add_leaves_def leaf_row_def)
  moreover have "columns_ok ?d"
    using wf by (simp add: wf_db_def columns_ok_def add_leaves_def)
  ultimately have "wf_db ?d" by (simp add: wf_db_def)
  then show ?thesis
    using assms(1) by (simp add: log_ok_def ball_Un)
qed

text \<open>What the caller is told about a leaf: nothing when it is new, the stored leaf otherwise.\<close>

definition answer :: "log_spec \<Rightarrow> LogLeaf \<Rightarrow> LogLeaf option \<Rightarrow> bool" where
  "answer A leaf r =
     (case known A (LeafIdentityHash leaf) of
        None \<Rightarrow> r = None
      | Some (v, x, q) \<Rightarrow> \<exists>it. r = Some \<lparr>MerkleLeafHash = dummymerkleLeafHash, LeafValue = v, ll_ExtraData = x,
          LeafIndex = -1, LeafIdentityHash = LeafIdentityHash leaf, QueueTimestamp = Some q, IntegrateTimestamp = it\<rparr>)"

lemma replace_existing_ok:
  assumes "\<forall>l\<in>set (List.map_filter id ex). find_leaf results (LeafIdentityHash l) \<noteq> None"
  shows "replace_existing results ex s
    = (Inr (map (\<lambda>r. case r of None \<Rightarrow> None | Some l \<Rightarrow> find_leaf results (LeafIdentityHash l)) ex), s)"
proof -
  have "replace_existing results ex s
    = (Inr ([] @ map (\<lambda>r. case r of None \<Rightarrow> None | Some l \<Rightarrow> find_leaf results (LeafIdentityHash l)) ex), s)"
    unfolding replace_existing_def
    by (rule loop_collect)
      (use assms in \<open>auto simp: ret_def map_filter_def split: option.splits\<close>)
  then show ?thesis by simp
qed

lemma answer_stored:
  assumes "wf_db d" "LeafIdentityHash leaf \<in> set hs" "LeafIdentityHash leaf \<in> known_ids tid d"
    and A: "known A (LeafIdentityHash leaf) = known (abs_log tid d) (LeafIdentityHash leaf)"
  shows "\<exists>x. find_leaf (map (stored_leaf d) (leaf_rows hs tid d)) (LeafIdentityHash leaf) = Some x \<and> answer A leaf (Some x)"
proof -
  from assms(3) obtain l where l: "l \<in> set (leaf_data d)" "ld_tree_id l = tid" "ld_identity l = LeafIdentityHash leaf"
    by (auto simp: known_ids_def)
  have "List.find (\<lambda>l. ld_tree_id l = tid \<and> ld_identity l = LeafIdentityHash leaf) (leaf_data d) = Some l"
    using l assms(1) by (intro find_unique) (auto simp: wf_db_def keys_ok_def distinct_map inj_on_def)
  then have "known A (LeafIdentityHash leaf) = Some (leaf_value l, extra_data l, ld_queue_nanos l)"
    unfolding A by (simp add: abs_log_def)
  then show ?thesis
    using find_leaf_rows [OF assms(1,2) l] l(3)
    by (simp add: find_leaf_stored answer_def stored_leaf_def scan_leaf_def)
qed

lemma stamp_sel [simp]:
  "LeafIdentityHash (stamp ts l) = LeafIdentityHash l" "LeafValue (stamp ts l) = LeafValue l"
  "ll_ExtraData (stamp ts l) = ll_ExtraData l" "MerkleLeafHash (stamp ts l) = MerkleLeafHash l"
  by (simp_all add: stamp_def)

lemma sorted_positions: "sortLeavesForInsert L ls = Sort L Less (positions ls)"
  by (simp add: sortLeavesForInsert_def positions_def)

lemma queue_sorted:
  assumes "sort_ok L" "ready s" "log_ok (treeID t) (work s)" "distinct (map LeafIdentityHash leaves)"
  defines "K \<equiv> known_ids (treeID t) (work s)"
  obtains fs c where "distinct (map LeafIdentityHash fs)"
    and "set fs = {l \<in> stamp ts ` set leaves. LeafIdentityHash l \<notin> K}"
    and "loop (queue_one t ts) (sortLeavesForInsert L (map (stamp ts) leaves)) (replicate (length leaves) None, 0) s =
      (Inr (map (\<lambda>l. if LeafIdentityHash l \<in> K then Some (stamp ts l) else None) leaves,
            length (filter (\<lambda>l. LeafIdentityHash l \<in> K) leaves)),
       s\<lparr>queuedDupCounter := c, work := add_leaves (treeID t) ts fs (work s)\<rparr>)"
proof -
  let ?ls = "map (stamp ts) leaves"
  let ?os = "sortLeavesForInsert L ?ls"
  have perm: "mset ?os = mset (positions ?ls)"
    using assms(1) by (simp add: sorted_positions sort_ok_def)
  have leaves: "mset (map lap_leaf ?os) = mset ?ls"
    using perm by (metis mset_map positions_leaves)
  have dist: "distinct (map (LeafIdentityHash \<circ> lap_leaf) ?os)"
  proof -
    have "mset (map (LeafIdentityHash \<circ> lap_leaf) ?os) = mset (map LeafIdentityHash ?ls)"
      using leaves by (metis map_map mset_map)
    from mset_eq_imp_distinct_iff [OF this] show ?thesis using assms(4) by (simp add: comp_def)
  qed
  let ?fs = "map lap_leaf (filter (Not \<circ> is_known K) ?os)"
  obtain c where loop: "loop (queue_one t ts) ?os (replicate (length leaves) None, 0) s =
     (Inr (fold (mark K) ?os (replicate (length leaves) None), 0 + length (filter (is_known K) ?os)),
      s\<lparr>queuedDupCounter := c, work := add_leaves (treeID t) ts ?fs (work s)\<rparr>)"
    using queue_loop [OF assms(2), of t ?os K ts "replicate (length leaves) None" 0] assms(3) dist
    unfolding log_ok_def K_def by auto
  have filt: "map lap_leaf (filter (\<lambda>ol. P (lap_leaf ol)) os) = filter P (map lap_leaf os)" for P os
    by (simp add: filter_map comp_def)
  have "length (filter (is_known K) ?os) = length (filter (\<lambda>l. LeafIdentityHash l \<in> K) (map lap_leaf ?os))"
    unfolding filt [symmetric] by simp
  also have "\<dots> = length (filter (\<lambda>l. LeafIdentityHash l \<in> K) ?ls)"
    using leaves by (metis mset_filter size_mset)
  also have "\<dots> = length (filter (\<lambda>l. LeafIdentityHash l \<in> K) leaves)"
    by (simp add: filter_map comp_def)
  finally have cnt: "length (filter (is_known K) ?os) = length (filter (\<lambda>l. LeafIdentityHash l \<in> K) leaves)" .
  have ex: "fold (mark K) ?os (replicate (length leaves) None)
      = map (\<lambda>l. if LeafIdentityHash l \<in> K then Some (stamp ts l) else None) leaves"
    using fold_mark_positions [OF perm, of K] by (simp add: comp_def)
  have "set ?fs = {l \<in> set (map lap_leaf ?os). LeafIdentityHash l \<notin> K}" by auto
  also have "\<dots> = {l \<in> stamp ts ` set leaves. LeafIdentityHash l \<notin> K}"
    using mset_eq_setD [OF leaves] by simp
  finally have fss: "set ?fs = {l \<in> stamp ts ` set leaves. LeafIdentityHash l \<notin> K}" .
  have "distinct (map LeafIdentityHash ?fs)"
    using distinct_map_filter [OF dist] by (simp add: comp_def)
  from that [OF this fss loop [unfolded cnt ex add_0_left]] show ?thesis .
qed

abbreviation known_marks :: "bytes set \<Rightarrow> int64 \<Rightarrow> LogLeaf list \<Rightarrow> LogLeaf option list" where
  "known_marks K ts leaves \<equiv> map (\<lambda>l. if LeafIdentityHash l \<in> K then Some (stamp ts l) else None) leaves"

lemma known_marks_ids:
  "map LeafIdentityHash (List.map_filter id (known_marks K ts leaves))
     = map LeafIdentityHash (filter (\<lambda>l. LeafIdentityHash l \<in> K) leaves)"
  by (induction leaves) (auto simp: map_filter_simps)

lemma known_marks_mem: "l \<in> set (List.map_filter id (known_marks K ts leaves)) \<Longrightarrow>
   \<exists>l'\<in>set leaves. LeafIdentityHash l' \<in> K \<and> LeafIdentityHash l = LeafIdentityHash l'"
  by (induction leaves) (auto simp: map_filter_simps split: if_splits)

text \<open>Reading back the marked leaves answers every leaf of the batch.\<close>

lemma answers_ok:
  fixes leaves :: "LogLeaf list"
  assumes wf: "wf_db d" and K: "K \<subseteq> known_ids tid d"
    and A: "\<And>h. h \<in> K \<Longrightarrow> known A h = known (abs_log tid d) h" "\<And>h. h \<notin> K \<Longrightarrow> known A h = None"
  defines "hs \<equiv> map LeafIdentityHash (filter (\<lambda>l. LeafIdentityHash l \<in> K) leaves)"
  defines "results \<equiv> map (stored_leaf d) (leaf_rows hs tid d)"
  shows "\<exists>rs. replace_existing results (known_marks K ts leaves) s = (Inr rs, s) \<and> list_all2 (answer A) leaves rs"
proof -
  have found: "\<exists>x. find_leaf results (LeafIdentityHash l) = Some x \<and> answer A l (Some x)"
    if "l \<in> set leaves" "LeafIdentityHash l \<in> K" for l
    unfolding results_def by (rule answer_stored) (use that assms in \<open>auto simp: hs_def\<close>)
  have "\<forall>l\<in>set (List.map_filter id (known_marks K ts leaves)). find_leaf results (LeafIdentityHash l) \<noteq> None"
  proof
    fix l assume "l \<in> set (List.map_filter id (known_marks K ts leaves))"
    from known_marks_mem [OF this] found show "find_leaf results (LeafIdentityHash l) \<noteq> None"
      by (metis option.distinct(1))
  qed
  from replace_existing_ok [OF this, of s]
  have "replace_existing results (known_marks K ts leaves) s
      = (Inr (map (\<lambda>l. if LeafIdentityHash l \<in> K then find_leaf results (LeafIdentityHash l) else None) leaves), s)"
    by (simp add: comp_def if_distrib cong: if_cong)
  moreover have "list_all2 (answer A) leaves
      (map (\<lambda>l. if LeafIdentityHash l \<in> K then find_leaf results (LeafIdentityHash l) else None) leaves)"
    unfolding list_all2_map2 list_all2_same
  proof
    fix l assume "l \<in> set leaves"
    with found [of l] A(2) [of "LeafIdentityHash l"]
    show "answer A l (if LeafIdentityHash l \<in> K then find_leaf results (LeafIdentityHash l) else None)"
      by (cases "LeafIdentityHash l \<in> K") (auto, simp add: answer_def)
  qed
  ultimately show ?thesis by blast
qed

text \<open>The end of \<open>QueueLeaves\<close>, after the loop has inserted the new leaves and marked the known ones.\<close>

lemma queue_answered:
  fixes t :: "('c, 'm) treeTX_scheme"
  assumes loop: "loop (queue_one t ts) (sortLeavesForInsert L (map (stamp ts) leaves)) (replicate (length leaves) None, 0) s =
      (Inr (known_marks K ts leaves, length (filter (\<lambda>l. LeafIdentityHash l \<in> K) leaves)), s1)"
    and s1: "ready s1" "log_ok (treeID t) (work s1)" "K \<subseteq> known_ids (treeID t) (work s1)"
    and leaves: "hashSizeBytes t = 32" "\<forall>l\<in>set leaves. length (LeafIdentityHash l) = 32" "distinct (map LeafIdentityHash leaves)"
    and A: "\<And>h. h \<in> K \<Longrightarrow> known A h = known (abs_log (treeID t) (work s1)) h" "\<And>h. h \<notin> K \<Longrightarrow> known A h = None"
  shows "\<exists>existing s'. tx_QueueLeaves L t leaves ts s = (Inr existing, s') \<and> list_all2 (answer A) leaves existing \<and>
      work s' = work s1 \<and> ready s' \<and> committed s' = committed s1"
proof -
  define hs where "hs = map LeafIdentityHash (filter (\<lambda>l. LeafIdentityHash l \<in> K) leaves)"
  define s2 where "s2 = snd (queued_Add (labelForTX t) (length leaves) s1)"
  have s2: "work s2 = work s1" "ready s2" "committed s2 = committed s1"
    using s1(1) by (simp_all add: s2_def counter_defs)
  show ?thesis
  proof (cases "hs = []")
    case True
    then have none: "LeafIdentityHash l \<notin> K" if "l \<in> set leaves" for l
      using that by (auto simp: hs_def filter_empty_conv)
    then have "list_all2 (answer A) leaves (known_marks K ts leaves)"
      using A(2) by (simp add: list_all2_map2 list_all2_same answer_def)
    moreover have "tx_QueueLeaves L t leaves ts s = (Inr (known_marks K ts leaves), s2)"
      using loop leaves True unfolding s2_def hs_def
      by (simp add: tx_QueueLeaves_def bnd_def counter_defs ret_def)
    ultimately show ?thesis using s2 by blast
  next
    case False
    let ?results = "map (stored_leaf (work s1)) (leaf_rows hs (treeID t) (work s1))"
    obtain c where read: "getLeafDataByIdentityHash t hs s2 = (Inr ?results, s2\<lparr>statements := c\<rparr>)"
      using getLeafData_ready [of s2 t hs] s2 s1 leaves(1) False by auto
    obtain rs where rs: "replace_existing ?results (known_marks K ts leaves) (s2\<lparr>statements := c\<rparr>)
        = (Inr rs, s2\<lparr>statements := c\<rparr>)" "list_all2 (answer A) leaves rs"
      using answers_ok [of "work s1" K "treeID t" A leaves ts "s2\<lparr>statements := c\<rparr>"] s1 A
      unfolding hs_def log_ok_def by auto
    have "length (leaf_rows hs (treeID t) (work s1)) = length hs"
      using s1 leaves(3) unfolding hs_def log_ok_def
      by (intro leaf_rows_length) (auto intro: distinct_map_filter)
    then have "tx_QueueLeaves L t leaves ts s = (Inr rs, s2\<lparr>statements := c\<rparr>)"
      using loop leaves False read rs(1) known_marks_ids [of K ts leaves] unfolding s2_def hs_def
      by (simp add: tx_QueueLeaves_def bnd_def attempt_def Let_def counter_defs)
    with rs(2) s2 show ?thesis by auto
  qed
qed

text \<open>
  C3: Queueing a batch of leaves with different identity hashes implements the abstract log: the
  leaves that were not known become known and wait for integration, the log is otherwise unchanged,
  and for every leaf that was known the caller gets the stored one. This is independent of the order
  in which the leaves are inserted.
\<close>

theorem queue_refines:
  assumes "sort_ok L" "ready s" "log_ok (treeID t) (work s)" "hashSizeBytes t = 32"
    and hashes: "\<forall>l\<in>set leaves. length (LeafIdentityHash l) = 32"
    and dist: "distinct (map LeafIdentityHash leaves)"
  defines "A \<equiv> abs_log (treeID t) (work s)"
  shows "\<exists>existing s'. tx_QueueLeaves L t leaves ts s = (Inr existing, s') \<and>
     list_all2 (answer A) leaves existing \<and> abs_log (treeID t) (work s') = spec_queue leaves ts A \<and>
     log_ok (treeID t) (work s') \<and> ready s' \<and> committed s' = committed s"
proof -
  define K where "K = known_ids (treeID t) (work s)"
  obtain fs c where fs: "distinct (map LeafIdentityHash fs)"
      "set fs = {l \<in> stamp ts ` set leaves. LeafIdentityHash l \<notin> K}"
    and loop: "loop (queue_one t ts) (sortLeavesForInsert L (map (stamp ts) leaves)) (replicate (length leaves) None, 0) s =
      (Inr (map (\<lambda>l. if LeafIdentityHash l \<in> K then Some (stamp ts l) else None) leaves,
            length (filter (\<lambda>l. LeafIdentityHash l \<in> K) leaves)),
       s\<lparr>queuedDupCounter := c, work := add_leaves (treeID t) ts fs (work s)\<rparr>)"
    unfolding K_def by (rule queue_sorted [OF assms(1,2,3) dist, of ts])
  define s1 where "s1 = s\<lparr>queuedDupCounter := c, work := add_leaves (treeID t) ts fs (work s)\<rparr>"
  have s1: "work s1 = add_leaves (treeID t) ts fs (work s)" "ready s1" "committed s1 = committed s"
    using assms(2) by (simp_all add: s1_def)
  have ok: "log_ok (treeID t) (work s1)"
    using fs(2) unfolding s1 by (intro log_ok_add_leaves assms(3) fs(1)) (auto simp: K_def)
  have abs: "abs_log (treeID t) (work s1) = spec_queue leaves ts A"
    unfolding s1 A_def using fs dist by (intro abs_add_leaves) (auto simp: K_def)
  have A: "known A h = known (abs_log (treeID t) (work s1)) h" if "h \<in> K" for h
    using that known_None [of "treeID t" "work s" h] unfolding abs
    by (auto simp: spec_queue_def A_def K_def split: option.split)
  have A': "known A h = None" if "h \<notin> K" for h
    using that by (simp add: A_def K_def known_None)
  have "K \<subseteq> known_ids (treeID t) (work s1)" by (simp add: K_def s1)
  from queue_answered [OF loop [folded s1_def] s1(2) ok this assms(4) hashes dist A A']
  show ?thesis using s1(3) abs ok by auto
qed

section \<open>A sample log\<close>

text \<open>A log with one leaf that waits, and a library whose sort is the one of the logic's library.\<close>

definition sample_leaf :: "char \<Rightarrow> LogLeaf" where
  "sample_leaf c = emptyLogLeaf\<lparr>LeafValue := [c], LeafIdentityHash := replicate 32 c, MerkleLeafHash := replicate 32 c\<rparr>"

definition sample_log :: database where
  "sample_log = add_leaves 5 7 [sample_leaf (CHR ''m'')] sample_db"

definition sample_loglib :: loglib where
  "sample_loglib = \<lparr>ErrTreeNeedsInit = ErrorString ''tree needs init'',
     root_MarshalBinary = (\<lambda>r. [char_of (unat (TreeSize r))]), root_UnmarshalBinary = (\<lambda>b. Inr (zero_root\<lparr>TreeSize := of_nat (of_char (hd b))\<rparr>)),
     root_json = (\<lambda>r. [char_of (unat (TreeSize r))]), root_of_json = (\<lambda>b. zero_root\<lparr>TreeSize := of_nat (of_char (hd b))\<rparr>),
     Sort = (\<lambda>_. sort_key (\<lambda>a. map of_char (LeafIdentityHash (lap_leaf a)) :: nat list)), DefaultHasher_Size = 32\<rparr>"

lemma Compare_lexorder: "Compare a b = -1 \<longleftrightarrow> map of_char a < (map of_char b :: nat list)"
proof (induction a b rule: Compare.induct)
  case (4 a as b bs)
  then show ?case by (auto simp: Compare_Cons_less simp del: Compare.simps)
qed auto

lemma sample_loglib_sort: "sort_ok sample_loglib"
proof -
  have "sorted_wrt (\<lambda>a b. \<not> Less b a) (sort_key (\<lambda>a. map of_char (LeafIdentityHash (lap_leaf a)) :: nat list) xs)" for xs
    using sorted_sort_key [of "\<lambda>a. map of_char (LeafIdentityHash (lap_leaf a)) :: nat list" xs]
    by (simp add: Less_def Compare_lexorder not_less sorted_wrt_map)
  then show ?thesis by (simp add: sort_ok_def sample_loglib_def)
qed

lemma sample_db_empty [simp]:
  "leaf_data sample_db = []" "sequenced_leaf_data sample_db = []" "unsequenced sample_db = []"
  by (simp_all add: sample_db_def empty_db_def)

lemma sample_log_ok: "log_ok 5 sample_log"
  unfolding sample_log_def
  by (rule log_ok_add_leaves) (simp_all add: log_ok_def tree_ids_def known_ids_def)

lemma sample_leaf_id [simp]: "LeafIdentityHash (sample_leaf c) = replicate 32 c"
  by (simp add: sample_leaf_def)

definition sample_logTX :: "unit logTreeTX" where
  "sample_logTX = treeTX.extend sample_treeTX \<lparr>tx_root = zero_root\<lparr>TreeSize := 1\<rparr>, slr = None\<rparr>"

lemma sample_logTX_sel [simp]:
  "treeID sample_logTX = 5" "treeType sample_logTX = TreeType_LOG" "hashSizeBytes sample_logTX = 32"
  "TreeSize (tx_root sample_logTX) = 1" "ttx_closed sample_logTX = False"
  by (simp_all add: sample_logTX_def sample_treeTX_def treeTX.defs)

theorem queue_refines_witness:
  "\<exists>existing s'. tx_QueueLeaves sample_loglib sample_treeTX [sample_leaf (CHR ''q''), sample_leaf (CHR ''m'')] 9 (sample_sess sample_log)
       = (Inr existing, s') \<and>
     list_all2 (answer (abs_log 5 sample_log)) [sample_leaf (CHR ''q''), sample_leaf (CHR ''m'')] existing \<and>
     abs_log 5 (work s') = spec_queue [sample_leaf (CHR ''q''), sample_leaf (CHR ''m'')] 9 (abs_log 5 sample_log)"
proof -
  have "treeID sample_treeTX = 5" "hashSizeBytes sample_treeTX = 32" by (simp_all add: sample_treeTX_def)
  moreover have "replicate 32 (CHR ''q'') \<noteq> replicate 32 (CHR ''m'')" by simp
  ultimately show ?thesis
    using queue_refines [OF sample_loglib_sort sample_ready(1), of sample_treeTX sample_log
        "[sample_leaf (CHR ''q''), sample_leaf (CHR ''m'')]" 9] sample_log_ok
    by auto
qed

end
