(* ===== verification/LogProps.thy ===== *)
theory LogProps
  imports LogQueue
begin

text \<open>
  The queue of a log as the sequencer uses it, and the transactions of the log storage: dequeueing
  takes the oldest leaves and nothing else, repeated dequeueing empties the queue in order, and the
  operations of the log storage are atomic.
\<close>

section \<open>Dequeueing\<close>

definition waiting :: "int64 \<Rightarrow> int64 \<Rightarrow> database \<Rightarrow> unsequenced_row list" where
  "waiting tid cutoff d = sort_key queue_key
     (filter (\<lambda>r. uq_tree_id r = tid \<and> bucket r = 0 \<and> uq_queue_nanos r \<le>s cutoff) (unsequenced d))"

lemma select_waiting: "selectQueuedLeavesSQL tid cutoff n d = take n (waiting tid cutoff d)"
  by (simp add: selectQueuedLeavesSQL_def waiting_def)

lemma waiting_mem: "r \<in> set (waiting tid cutoff d) \<longleftrightarrow>
    r \<in> set (unsequenced d) \<and> uq_tree_id r = tid \<and> bucket r = 0 \<and> uq_queue_nanos r \<le>s cutoff"
  by (auto simp: waiting_def)

lemma unsequenced_distinct: "wf_db d \<Longrightarrow> distinct (unsequenced d)"
  unfolding wf_db_def keys_ok_def distinct_map by blast

lemma waiting_distinct: "wf_db d \<Longrightarrow> distinct (waiting tid cutoff d)"
  by (simp add: waiting_def unsequenced_distinct)

lemma waiting_sorted: "sorted (map queue_key (waiting tid cutoff d))"
  by (simp add: waiting_def)

definition without :: "unsequenced_row list \<Rightarrow> database \<Rightarrow> database" where
  "without rows d = d\<lparr>unsequenced := filter (\<lambda>r. r \<notin> set rows) (unsequenced d)\<rparr>"

lemma without_simps [simp]:
  "without [] d = d" "unsequenced (without rows d) = filter (\<lambda>r. r \<notin> set rows) (unsequenced d)"
  by (simp_all add: without_def)

lemma without_Cons: "without (r # rows) d = without rows (without [r] d)"
  by (simp add: without_def conj_commute)

lemma wf_without: "wf_db d \<Longrightarrow> wf_db (without rows d)"
  by (clarsimp simp: without_def wf_defs distinct_map_filter)

lemma filter_drop: "distinct q \<Longrightarrow> filter (\<lambda>r. r \<notin> set (take n q)) q = drop n q"
proof -
  assume "distinct q"
  then have "set (take n q) \<inter> set (drop n q) = {}" by (rule set_take_disj_set_drop_if_distinct) simp
  then have "filter (\<lambda>r. r \<notin> set (take n q)) (take n q @ drop n q) = drop n q"
    unfolding filter_append by (simp add: filter_empty_conv filter_id_conv) blast
  then show ?thesis by simp
qed

text \<open>The leaves that are left are the rest of the queue, in the same order.\<close>

lemma waiting_without:
  "wf_db d \<Longrightarrow> waiting tid cutoff (without (take n (waiting tid cutoff d)) d) = drop n (waiting tid cutoff d)"
  using filter_drop [OF waiting_distinct, of d n tid cutoff]
  by (simp add: waiting_def filter_sort conj_commute)

lemma delete_one:
  assumes "wf_db d" "r \<in> set (unsequenced d)" "bucket r = 0"
  shows "delete_unsequenced (uq_tree_id r) (uq_queue_nanos r) (uq_identity r) d = Inr (1, without [r] d)"
proof -
  have key: "distinct (map unsequenced_key (unsequenced d))" using assms(1) by (simp add: wf_db_def keys_ok_def)
  have "(uq_tree_id x = uq_tree_id r \<and> bucket x = 0 \<and> uq_queue_nanos x = uq_queue_nanos r \<and> uq_identity x = uq_identity r)
      \<longleftrightarrow> x = r" if "x \<in> set (unsequenced d)" for x
    using that assms key by (auto simp: distinct_map inj_on_def)
  then have hit: "filter (\<lambda>x. uq_tree_id x = uq_tree_id r \<and> bucket x = 0 \<and> uq_queue_nanos x = uq_queue_nanos r \<and>
        uq_identity x = uq_identity r) (unsequenced d) = filter (\<lambda>x. x = r) (unsequenced d)"
    and miss: "filter (\<lambda>x. \<not> (uq_tree_id x = uq_tree_id r \<and> bucket x = 0 \<and> uq_queue_nanos x = uq_queue_nanos r \<and>
        uq_identity x = uq_identity r)) (unsequenced d) = filter (\<lambda>x. x \<noteq> r) (unsequenced d)"
    by (auto intro: filter_cong)
  have "filter (\<lambda>x. x = r) (unsequenced d) = [r]"
    using filter_key_unique [of id "unsequenced d" r] unsequenced_distinct [OF assms(1)] assms(2) by simp
  with hit miss show ?thesis by (simp add: delete_unsequenced_def without_def)
qed

lemma dequeueLeaf_sel [simp]:
  "queueTimestampNanos (snd (dequeueLeaf r)) = uq_queue_nanos r"
  "leafIdentityHash (snd (dequeueLeaf r)) = uq_identity r" "LeafIdentityHash (fst (dequeueLeaf r)) = uq_identity r"
  by (simp_all add: dequeueLeaf_def dequeueInfo_def)

lemma delete_ready:
  assumes "ready s" "wf_db (work s)" "r \<in> set (unsequenced (work s))" "bucket r = 0"
  shows "bnd (attempt (ExecContext (delete_unsequenced (uq_tree_id r) (uq_queue_nanos r) (uq_identity r))))
     (\<lambda>x. checkResultOkAndRowCountIs (map_sum id Inr x) 1) s = (Inr (), s\<lparr>work := without [r] (work s)\<rparr>)"
  using assms(1) delete_one [OF assms(2-4)]
  by (simp add: bnd_def attempt_def act_simps checkResultOkAndRowCountIs_def ret_def)

text \<open>A loop whose turns each take one row away.\<close>

lemma loop_without:
  assumes "\<And>r s. r \<in> set rows \<Longrightarrow> ready s \<Longrightarrow> wf_db (work s) \<Longrightarrow> r \<in> set (unsequenced (work s)) \<Longrightarrow>
      f (g r) () s = (Inr (), s\<lparr>work := without [r] (work s)\<rparr>)"
    and "ready s" "wf_db (work s)" "distinct rows" "set rows \<subseteq> set (unsequenced (work s))"
  shows "loop f (map g rows) () s = (Inr (), s\<lparr>work := without rows (work s)\<rparr>)"
  using assms
proof (induction rows arbitrary: s)
  case Nil
  then show ?case by (simp add: ret_def)
next
  case (Cons r rows)
  let ?s = "s\<lparr>work := without [r] (work s)\<rparr>"
  have "f (g r) () s = (Inr (), ?s)" using Cons.prems by simp
  moreover have "loop f (map g rows) () ?s = (Inr (), ?s\<lparr>work := without rows (work ?s)\<rparr>)"
  proof (rule Cons.IH)
    show "set rows \<subseteq> set (unsequenced (work ?s))" using Cons.prems(4,5) by auto
    show "wf_db (work ?s)" using Cons.prems(3) by (simp add: wf_without)
  qed (use Cons.prems in simp_all)
  ultimately show ?case by (simp add: bnd_def without_Cons [of r rows])
qed

lemma remove_ready:
  assumes "ready s" "wf_db (work s)" "distinct rows"
    and rows: "\<And>r. r \<in> set rows \<Longrightarrow> r \<in> set (unsequenced (work s)) \<and> uq_tree_id r = treeID t \<and> bucket r = 0"
  shows "removeSequencedLeaves t (map (\<lambda>r. snd (dequeueLeaf r)) rows) s = (Inr (), s\<lparr>work := without rows (work s)\<rparr>)"
proof -
  have "loop (\<lambda>dql _. bnd (attempt (ExecContext (delete_unsequenced (treeID t) (queueTimestampNanos dql) (leafIdentityHash dql)))) (\<lambda>r.
         checkResultOkAndRowCountIs (map_sum id Inr r) 1)) (map (\<lambda>r. snd (dequeueLeaf r)) rows) () s
      = (Inr (), s\<lparr>work := without rows (work s)\<rparr>)"
  proof (rule loop_without)
    fix r s' assume "r \<in> set rows" "ready s'" "wf_db (work s')" "r \<in> set (unsequenced (work s'))"
    then show "bnd (attempt (ExecContext (delete_unsequenced (treeID t) (queueTimestampNanos (snd (dequeueLeaf r)))
          (leafIdentityHash (snd (dequeueLeaf r)))))) (\<lambda>r. checkResultOkAndRowCountIs (map_sum id Inr r) 1) s'
        = (Inr (), s'\<lparr>work := without [r] (work s')\<rparr>)"
      using delete_ready [of s' r] rows [of r] by simp
  qed (use assms in auto)
  then show ?thesis using assms(1) by (simp add: removeSequencedLeaves_def bnd_def act_simps)
qed

text \<open>What dequeueing does to a session: it removes the first rows of the queue.\<close>

definition taken :: "('c, 'm) treeTX_scheme \<Rightarrow> unsequenced_row list \<Rightarrow> sess \<Rightarrow> sess" where
  "taken t rows s = s\<lparr>work := without rows (work s),
     dequeuedCounter := (dequeuedCounter s)(labelForTX t := dequeuedCounter s (labelForTX t) + length rows)\<rparr>"

lemma taken_sel [simp]:
  "work (taken t rows s) = without rows (work s)" "ready (taken t rows s) = ready s"
  "committed (taken t rows s) = committed s"
  by (simp_all add: taken_def)

definition hashes_ok :: "('c, 'm) treeTX_scheme \<Rightarrow> database \<Rightarrow> bool" where
  "hashes_ok t d \<longleftrightarrow> (\<forall>r\<in>set (unsequenced d). uq_tree_id r = treeID t \<longrightarrow> length (uq_identity r) = hashSizeBytes t)"

lemma dequeue_loop:
  assumes "\<forall>r\<in>set rows. length (uq_identity r) = n"
  shows "loop (\<lambda>row (leaves, dq).
                 let (leaf, dqInfo) = dequeueLeaf row
                 in if length (LeafIdentityHash leaf) \<noteq> n
                    then throw e else ret (leaves @ [leaf], dq @ [dqInfo])) rows (ls, dq) s
     = (Inr (ls @ map (\<lambda>r. fst (dequeueLeaf r)) rows, dq @ map (\<lambda>r. snd (dequeueLeaf r)) rows), s)"
  using assms
proof (induction rows arbitrary: ls dq)
  case (Cons r rows)
  obtain leaf dqi where r: "dequeueLeaf r = (leaf, dqi)" by fastforce
  then have "LeafIdentityHash leaf = uq_identity r" using dequeueLeaf_sel(3) [of r] by simp
  with Cons r show ?case by (simp add: bnd_def ret_def)
qed (simp add: ret_def)

lemma dequeue_ready:
  fixes cutoff :: int64
  assumes "ready s" "wf_db (work s)" "treeType t \<noteq> TreeType_PREORDERED_LOG" "0 \<le>s limit" "hashes_ok t (work s)"
  defines "rows \<equiv> take (unat limit) (waiting (treeID t) cutoff (work s))"
  shows "DequeueLeaves t limit cutoff s = (Inr (map (\<lambda>r. fst (dequeueLeaf r)) rows), taken t rows s)"
proof -
  have mem: "r \<in> set (unsequenced (work s)) \<and> uq_tree_id r = treeID t \<and> bucket r = 0" if "r \<in> set rows" for r
    using in_set_takeD [OF that [unfolded rows_def]] by (simp add: waiting_mem)
  have "\<forall>r\<in>set rows. length (uq_identity r) = hashSizeBytes t"
    using mem assms(5) by (simp add: hashes_ok_def)
  note dequeue_loop [OF this, of _ "[]" "[]" s]
  moreover have "removeSequencedLeaves t (map (\<lambda>r. snd (dequeueLeaf r)) rows) s = (Inr (), s\<lparr>work := without rows (work s)\<rparr>)"
    using assms(1,2) mem by (intro remove_ready) (simp_all add: rows_def waiting_distinct)
  ultimately show ?thesis
    using assms(1,3,4)
    by (simp add: DequeueLeaves_def bnd_def act_simps select_waiting rows_def [symmetric] rows_Err_def ret_def
        counter_defs taken_def word_sless_alt word_sle_eq)
qed

text \<open>
  C11: Dequeueing from a log returns the oldest waiting leaves, ordered by queue time and identity
  hash, as many as there are up to the limit. It removes exactly these from the queue: every leaf that
  is left is not older than any that was returned, and nothing else in the database changes.
\<close>

theorem dequeue_oldest:
  fixes cutoff :: int64
  assumes "ready s" "wf_db (work s)" "treeType t \<noteq> TreeType_PREORDERED_LOG" "0 \<le>s limit" "hashes_ok t (work s)"
  shows "\<exists>rows s'. DequeueLeaves t limit cutoff s = (Inr (map (\<lambda>r. fst (dequeueLeaf r)) rows), s') \<and>
     length rows = min (unat limit) (length (waiting (treeID t) cutoff (work s))) \<and>
     set rows \<subseteq> set (waiting (treeID t) cutoff (work s)) \<and> distinct rows \<and> sorted (map queue_key rows) \<and>
     work s' = (work s)\<lparr>unsequenced := filter (\<lambda>r. r \<notin> set rows) (unsequenced (work s))\<rparr> \<and>
     (\<forall>g\<in>set rows. \<forall>r\<in>set (waiting (treeID t) cutoff (work s')). queue_key g \<le> queue_key r)"
proof -
  define q where "q = waiting (treeID t) cutoff (work s)"
  define rows where "rows = take (unat limit) q"
  have left: "waiting (treeID t) cutoff (without rows (work s)) = drop (unat limit) q"
    unfolding rows_def q_def by (rule waiting_without [OF assms(2)])
  have "sorted (map queue_key (rows @ drop (unat limit) q))"
    by (simp add: rows_def q_def waiting_sorted)
  then have "\<forall>g\<in>set rows. \<forall>r\<in>set (drop (unat limit) q). queue_key g \<le> queue_key r" "sorted (map queue_key rows)"
    by (simp_all add: sorted_append)
  moreover have "DequeueLeaves t limit cutoff s = (Inr (map (\<lambda>r. fst (dequeueLeaf r)) rows), taken t rows s)"
    unfolding rows_def q_def by (rule dequeue_ready [OF assms])
  moreover have "set rows \<subseteq> set q" "length rows = min (unat limit) (length q)" "distinct rows"
    using waiting_distinct [OF assms(2)] by (auto simp: rows_def q_def dest: in_set_takeD)
  ultimately show ?thesis
    using left unfolding q_def [symmetric] by (intro exI conjI) (auto simp: without_def)
qed

lemma hashes_ok_without: "hashes_ok t d \<Longrightarrow> hashes_ok t (without rows d)"
  by (simp add: hashes_ok_def)

lemma loop_Cons_ok: "f x acc s = (Inr a, s') \<Longrightarrow> loop f (x # xs) acc s = loop f xs a s'"
  by (simp add: bnd_def)

lemma dequeue_batches:
  fixes cutoff :: int64
  assumes "ready s" "wf_db (work s)" "treeType t \<noteq> TreeType_PREORDERED_LOG" "0 \<le>s limit" "hashes_ok t (work s)"
    and "length (waiting (treeID t) cutoff (work s)) \<le> n * unat limit"
  shows "\<exists>s'. loop (\<lambda>_ acc. bnd (DequeueLeaves t limit cutoff) (\<lambda>leaves. ret (acc @ leaves))) (replicate n ()) acc s
       = (Inr (acc @ map (\<lambda>r. fst (dequeueLeaf r)) (waiting (treeID t) cutoff (work s))), s') \<and>
     set (unsequenced (work s')) = set (unsequenced (work s)) - set (waiting (treeID t) cutoff (work s))"
  using assms
proof (induction n arbitrary: s acc)
  case 0
  then show ?case by (simp add: ret_def)
next
  case (Suc n)
  define q where "q = waiting (treeID t) cutoff (work s)"
  define rows where "rows = take (unat limit) q"
  have left: "waiting (treeID t) cutoff (without rows (work s)) = drop (unat limit) q"
    unfolding rows_def q_def by (rule waiting_without [OF Suc.prems(2)])
  have one: "DequeueLeaves t limit cutoff s = (Inr (map (\<lambda>r. fst (dequeueLeaf r)) rows), taken t rows s)"
    unfolding rows_def q_def by (rule dequeue_ready [OF Suc.prems(1-5)])
  have "length (drop (unat limit) q) \<le> n * unat limit" using Suc.prems(6) by (simp add: q_def)
  then obtain s' where "loop (\<lambda>_ acc. bnd (DequeueLeaves t limit cutoff) (\<lambda>leaves. ret (acc @ leaves))) (replicate n ())
        (acc @ map (\<lambda>r. fst (dequeueLeaf r)) rows) (taken t rows s)
      = (Inr ((acc @ map (\<lambda>r. fst (dequeueLeaf r)) rows) @ map (\<lambda>r. fst (dequeueLeaf r)) (drop (unat limit) q)), s')"
    and rest: "set (unsequenced (work s')) = set (unsequenced (without rows (work s))) - set (drop (unat limit) q)"
    using Suc.IH [of "taken t rows s" "acc @ map (\<lambda>r. fst (dequeueLeaf r)) rows"] Suc.prems left
    by (auto simp: wf_without hashes_ok_without)
  moreover have "map (\<lambda>r. fst (dequeueLeaf r)) rows @ map (\<lambda>r. fst (dequeueLeaf r)) (drop (unat limit) q)
      = map (\<lambda>r. fst (dequeueLeaf r)) q"
    unfolding map_append [symmetric] by (simp add: rows_def)
  moreover have "set q = set rows \<union> set (drop (unat limit) q)"
    unfolding set_append [symmetric] by (simp add: rows_def)
  moreover have "bnd (DequeueLeaves t limit cutoff) (\<lambda>leaves. ret (acc @ leaves)) s
      = (Inr (acc @ map (\<lambda>r. fst (dequeueLeaf r)) rows), taken t rows s)"
    by (simp add: bnd_def one ret_def)
  ultimately show ?case
    using rest unfolding q_def [symmetric] replicate_Suc
    by (subst loop_Cons_ok [of _ _ _ _ "acc @ map (\<lambda>r. fst (dequeueLeaf r)) rows" "taken t rows s"]) auto
qed

text \<open>
  C14: The queue drains. Whatever waits before the cutoff is returned, each leaf once and in the order
  of the queue, by finitely many calls of \<open>DequeueLeaves\<close>: as many as batches of the limit fill with
  the waiting leaves. Afterwards nothing waits before the cutoff, and the other leaves of the queue,
  of this and of other logs, are still there.
\<close>

theorem queue_drains:
  fixes cutoff :: int64
  assumes "ready s" "wf_db (work s)" "treeType t \<noteq> TreeType_PREORDERED_LOG" "0 <s limit" "hashes_ok t (work s)"
  defines "q \<equiv> waiting (treeID t) cutoff (work s)"
  shows "\<exists>s'. loop (\<lambda>_ acc. bnd (DequeueLeaves t limit cutoff) (\<lambda>leaves. ret (acc @ leaves)))
         (replicate ((length q + unat limit - 1) div unat limit) ()) [] s
       = (Inr (map (\<lambda>r. fst (dequeueLeaf r)) q), s') \<and>
     waiting (treeID t) cutoff (work s') = [] \<and>
     set (unsequenced (work s')) = {r \<in> set (unsequenced (work s)).
        uq_tree_id r \<noteq> treeID t \<or> bucket r \<noteq> 0 \<or> cutoff <s uq_queue_nanos r}"
proof -
  have limit: "0 \<le>s limit" "unat limit > 0"
    using assms(4) by (auto simp: word_sless_alt word_sle_eq unat_gt_0)
  have "length q \<le> (length q + unat limit - 1) div unat limit * unat limit"
  proof -
    have "length q + unat limit - 1 = (length q + unat limit - 1) div unat limit * unat limit + (length q + unat limit - 1) mod unat limit"
      by simp
    moreover have "(length q + unat limit - 1) mod unat limit < unat limit" using limit(2) by simp
    ultimately show ?thesis by linarith
  qed
  from dequeue_batches [OF assms(1-3) limit(1) assms(5) this [unfolded q_def], of "[]"]
  obtain s' where run: "loop (\<lambda>_ acc. bnd (DequeueLeaves t limit cutoff) (\<lambda>leaves. ret (acc @ leaves)))
         (replicate ((length q + unat limit - 1) div unat limit) ()) [] s = (Inr (map (\<lambda>r. fst (dequeueLeaf r)) q), s')"
    and left: "set (unsequenced (work s')) = set (unsequenced (work s)) - set q"
    unfolding q_def by auto
  have "r \<notin> set (waiting (treeID t) cutoff (work s'))" for r
    unfolding waiting_mem left by (auto simp: waiting_mem q_def)
  moreover have "set (unsequenced (work s')) = {r \<in> set (unsequenced (work s)).
        uq_tree_id r \<noteq> treeID t \<or> bucket r \<noteq> 0 \<or> cutoff <s uq_queue_nanos r}"
    unfolding left q_def by (auto simp: waiting_mem word_sless_alt word_sle_eq)
  ultimately show ?thesis using run by (metis list.set_intros(1) neq_Nil_conv)
qed

section \<open>Transactions\<close>

text \<open>A transaction is under way that has changed nothing so far.\<close>

definition started :: "sess \<Rightarrow> sess \<Rightarrow> bool" where
  "started s s' \<longleftrightarrow> committed s' = committed s \<and> work s' = committed s \<and> active s' \<and> opened s' = Suc (opened s)"

lemma guarantees_at: "guarantees R m \<Longrightarrow> m s = (r, s') \<Longrightarrow> R s s'"
  by (auto simp: guarantees_def dest: spec [of _ s])

lemma fetchLatestRoot_started:
  assumes "begun s s1" "fetchLatestRoot L t s1 = (r, s2)"
  shows "started s s2"
proof -
  have "tx_inv (\<lambda>d. d = committed s) s1" using assms(1) by (simp add: tx_inv_def begun_def)
  moreover have "maintains (tx_inv (\<lambda>d. d = committed s)) s1 s2"
    by (rule guarantees_at [OF tx_inv_reads(6) assms(2)])
  moreover have "confined s1 s2" by (rule guarantees_at [OF log_confined(7) assms(2)])
  ultimately show ?thesis
    using assms(1) by (auto simp: started_def maintains_def tx_inv_def begun_def confined_def)
qed

lemma rollback_started:
  assumes "started s s1" "attempt tx_Rollback s1 = (r, s2)"
  shows "committed s2 = committed s \<and> opened s2 = opened s"
proof -
  have "s2 = snd (tx_Rollback s1)" using assms(2) by (auto simp: attempt_def split: prod.splits)
  then show ?thesis using assms(1) tx_ends(2) [of s1] by (simp add: started_def)
qed

lemma begin_ok:
  assumes "log_beginInternal C L tree s = (Inr (tx, e), s1)"
  shows "started s s1 \<and> \<not> ttx_closed tx"
  using assms
  by (cases rule: BeginTx_cases [of s])
    (auto simp: log_beginInternal_def beginTreeTx_def bnd_def attempt_def ret_def throw_def Let_def treeTX.defs
      split: prod.splits sum.splits if_splits dest!: fetchLatestRoot_started)

lemma begin_error:
  assumes "log_beginInternal C L tree s = (Inl e, s1)"
  shows "committed s1 = committed s \<and> opened s1 = opened s"
  using assms
  by (cases rule: BeginTx_cases [of s])
    (auto simp: log_beginInternal_def beginTreeTx_def bnd_def ret_def throw_def Let_def confined_def
      attempt_def [of BeginTx] attempt_def [of "fetchLatestRoot L t" for L t] attempt_def [of "bnd BeginTx f" for f]
      split: prod.splits sum.splits if_splits dest!: fetchLatestRoot_started rollback_started)

definition underway :: "sess \<Rightarrow> sess \<Rightarrow> bool" where
  "underway s s' \<longleftrightarrow> committed s' = committed s \<and> active s' \<and> opened s' = Suc (opened s)"

definition finished :: "sess \<Rightarrow> sess \<Rightarrow> bool" where
  "finished s s' \<longleftrightarrow> committed s' = committed s \<and> opened s' = opened s"

lemma started_underway: "started s s1 \<Longrightarrow> underway s s1"
  by (simp add: started_def underway_def)

lemma confined_underway: "underway s s1 \<Longrightarrow> confined s1 s2 \<Longrightarrow> underway s s2"
  by (simp add: underway_def confined_def)

text \<open>The first half of \<open>Commit\<close>: the cached subtrees are written.\<close>

definition flush :: "'c cachelib \<Rightarrow> ('c, 'm) treeTX_scheme \<Rightarrow> 'c act" where
  "flush C t s = (if -1 <s writeRevision t then answering (storeSubtrees C t) (cache_Flush C (subtreeCache t)) s
     else (Inr (subtreeCache t), s))"

lemma confined_flush: "guarantees confined (flush C t)"
  using confined_answering [of "storeSubtrees C t" "cache_Flush C (subtreeCache t)", OF confined_storeSubtrees]
  by (auto simp: flush_def guarantees_def confined_def)

lemma tree_Commit_cases:
  assumes "underway s s1" "\<not> ttx_closed t" "tree_Commit C t s1 = (r, t', s2)"
  obtains (flush) e where "r = Inl e" "t' = t" "underway s s2"
    | (commit) e where "r = Inl e" "ttx_closed t'" "finished s s2"
    | (ok) c s3 where "r = Inr ()" "ttx_closed t'" "opened s2 = opened s" "flush C t s1 = (Inr c, s3)" "committed s2 = work s3"
proof (cases "flush C t s1")
  case (Pair q s3)
  with assms(1) have s3: "underway s s3"
    by (blast intro: confined_underway guarantees_at [OF confined_flush])
  show thesis
  proof (cases q)
    case (Inl e)
    with Pair assms(3) have "r = Inl e" "t' = t" "s2 = s3" unfolding tree_Commit_def flush_def [symmetric] by auto
    with flush s3 show thesis by simp
  next
    case (Inr c)
    obtain x s4 where x: "tx_Commit s3 = (x, s4)" by fastforce
    with Pair Inr assms(3) have eq: "r = x" "t' = t\<lparr>subtreeCache := c, ttx_closed := True\<rparr>" "s2 = s4"
      unfolding tree_Commit_def flush_def [symmetric] by auto
    have "opened s2 = opened s" using tx_ends(1) [of s3] s3 x eq by (simp add: underway_def)
    show thesis
    proof (cases x)
      case (Inl e)
      with x tx_Commit_error [of s3 e s4] s3 eq \<open>opened s2 = opened s\<close> commit show thesis
        by (simp add: finished_def underway_def)
    next
      case (Inr u)
      with x tx_Commit_ok [of s3 u s4] eq \<open>opened s2 = opened s\<close> \<open>q = Inr c\<close> Pair ok show thesis by simp
    qed
  qed
qed

lemma tree_Close_open:
  assumes "underway s s1" "\<not> ttx_closed t"
  shows "finished s (snd (snd (tree_Close t s1)))"
proof -
  have "snd (snd (tree_Close t s1)) = snd (tx_Rollback s1)"
    using assms(2) by (simp add: tree_Close_def tree_Rollback_def split: prod.splits)
  then show ?thesis using assms(1) tx_ends(2) [of s1] by (simp add: underway_def finished_def)
qed

lemma tree_Close_closed: "ttx_closed t \<Longrightarrow> snd (snd (tree_Close t s1)) = s1"
  by (simp add: tree_Close_def)

text \<open>
  C8: A read-write transaction of the log storage takes effect as a whole or not at all. When it
  reports an error, from the function it runs, from the driver, from writing the cached subtrees or
  from the commit, the committed database is the one before. When it succeeds, the committed database
  is what the function and the writing of the cached subtrees made of it. In both cases the
  transaction is finished, and so it is for trees that have no root yet.
\<close>

theorem log_transaction_atomic:
  assumes f: "\<And>tx. guarantees confined (f tx)"
    and open_kept: "\<And>tx s tx' s'. f tx s = (Inr tx', s') \<Longrightarrow> ttx_closed tx' = ttx_closed tx"
  shows "case log_ReadWriteTransaction C L tree f s of
       (Inl _, s') \<Rightarrow> committed s' = committed s \<and> opened s' = opened s
     | (Inr _, s') \<Rightarrow> \<exists>tx e s1 tx' s2 c s3. log_beginInternal C L tree s = (Inr (tx, e), s1) \<and> work s1 = committed s \<and>
          f tx s1 = (Inr tx', s2) \<and> flush C tx' s2 = (Inr c, s3) \<and> committed s' = work s3 \<and> opened s' = opened s"
proof (cases "log_beginInternal C L tree s")
  case (Pair r s1)
  show ?thesis
  proof (cases r)
    case (Inl e)
    with Pair begin_error [of C L tree s e s1] show ?thesis by (simp add: log_ReadWriteTransaction_def bnd_def)
  next
    case (Inr te)
    obtain tx e where te: "te = (tx, e)" by fastforce
    with Pair Inr have start: "log_beginInternal C L tree s = (Inr (tx, e), s1)" by simp
    from begin_ok [OF this] have s1: "started s s1" "\<not> ttx_closed tx" by auto
    obtain r2 s2 where r2: "f tx s1 = (r2, s2)" by fastforce
    have s2: "underway s s2" using confined_underway [OF started_underway [OF s1(1)] guarantees_at [OF f r2]] .
    show ?thesis
    proof (cases r2)
      case (Inl x)
      then show ?thesis
        using start r2 tree_Close_open [OF s2 s1(2)] by (simp add: log_ReadWriteTransaction_def bnd_def finished_def)
    next
      case (Inr tx')
      have tx': "\<not> ttx_closed tx'" using open_kept r2 Inr s1(2) by blast
      obtain r3 tx'' s3 where c: "tree_Commit C tx' s2 = (r3, tx'', s3)" by (metis prod_cases3)
      have eq: "log_ReadWriteTransaction C L tree f s = (r3, snd (snd (tree_Close tx'' s3)))"
        using start r2 Inr c by (simp add: log_ReadWriteTransaction_def bnd_def)
      from s2 tx' c show ?thesis
      proof (cases rule: tree_Commit_cases)
        case (flush y)
        with eq tree_Close_open [of s s3 tx''] tx' show ?thesis by (simp add: finished_def)
      next
        case (commit y)
        with eq show ?thesis by (simp add: finished_def tree_Close_closed)
      next
        case (ok c s4)
        with eq start r2 Inr s1 show ?thesis by (auto simp: tree_Close_closed started_def)
      qed
    qed
  qed
qed

text \<open>The call fails and leaves its transaction open.\<close>

definition leaks :: "'a act \<Rightarrow> sess \<Rightarrow> bool" where
  "leaks m s \<longleftrightarrow> isl (fst (m s)) \<and> committed (snd (m s)) = committed s \<and> active (snd (m s)) \<and>
     opened (snd (m s)) = Suc (opened s)"

lemma leaks_inside:
  assumes start: "log_beginInternal C L tree s = (Inr (tx, e), s1)" and g: "guarantees confined (g tx)"
    and fail: "e \<noteq> None \<or> isl (fst (g tx s1))"
  shows "leaks (bnd (log_beginInternal C L tree) (\<lambda>(tx, err). case err of Some e \<Rightarrow> throw e | None \<Rightarrow> bnd (g tx) (h tx))) s"
proof (cases e)
  case None
  with fail obtain x s2 where x: "g tx s1 = (Inl x, s2)" by (cases "g tx s1") (auto simp: isl_def)
  have "underway s s2"
    using begin_ok [OF start] guarantees_at [OF g x] by (blast intro: confined_underway started_underway)
  with start None x show ?thesis by (simp add: leaks_def bnd_def underway_def)
next
  case (Some x)
  with start begin_ok [OF start] show ?thesis by (simp add: leaks_def bnd_def throw_def started_def)
qed

text \<open>
  C39: Unlike \<open>ReadWriteTransaction\<close>, the storage's own \<open>QueueLeaves\<close> and \<open>AddSequencedLeaves\<close> do not
  finish the transaction they begin when the tree has no root yet or when the leaves are refused: the
  caller gets the error and has no handle on the transaction, which stays open and keeps its
  connection. Nothing is committed.
\<close>

theorem queue_failure_leaks:
  assumes "log_beginInternal C L tree s = (Inr (tx, e), s1)"
  shows "(e \<noteq> None \<or> isl (fst (tx_QueueLeaves L tx leaves ts s1)) \<longrightarrow> leaks (log_QueueLeaves C L tree leaves ts) s) \<and>
     (e \<noteq> None \<or> isl (fst (tx_AddSequencedLeaves L tx leaves ts s1)) \<longrightarrow>
        leaks (log_AddSequencedLeaves C L tree leaves ts) s)"
  unfolding log_QueueLeaves_def log_AddSequencedLeaves_def
  by (intro conjI impI)
    (erule leaks_inside [where g = "\<lambda>tx. tx_QueueLeaves L tx leaves ts", OF assms confined_QueueLeaves],
     erule leaks_inside [where g = "\<lambda>tx. tx_AddSequencedLeaves L tx leaves ts", OF assms log_confined(5)])

section \<open>Signed roots\<close>

text \<open>What the storage relies on of the codecs of a log root: both of them are lossless on it.\<close>

definition root_codec_ok :: "loglib \<Rightarrow> LogRootV1 \<Rightarrow> bool" where
  "root_codec_ok L r \<longleftrightarrow> root_of_json L (root_json L r) = r \<and> root_UnmarshalBinary L (root_MarshalBinary L r) = Inr r"

definition set_root :: "loglib \<Rightarrow> LogRootV1 \<Rightarrow> trees_row \<Rightarrow> trees_row" where
  "set_root L r row = row\<lparr>current_tree_data := Some (root_json L r), root_signature := Some []\<rparr>"

lemma set_root_sel [simp]:
  "tr_tree_id (set_root L r row) = tr_tree_id row" "tree_state (set_root L r row) = tree_state row"
  "tree_type (set_root L r row) = tree_type row" "current_tree_data (set_root L r row) = Some (root_json L r)"
  by (simp_all add: set_root_def)

definition with_root :: "loglib \<Rightarrow> LogRootV1 \<Rightarrow> int64 \<Rightarrow> database \<Rightarrow> database" where
  "with_root L r tid d = d\<lparr>trees := map (\<lambda>x. if tr_tree_id x = tid then set_root L r x else x) (trees d)\<rparr>"

lemma with_root_sel [simp]:
  "tree_ids (with_root L r tid d) = tree_ids d" "tree_head (with_root L r tid d) = tree_head d"
proof -
  have "map tr_tree_id (trees (with_root L r tid d)) = map tr_tree_id (trees d)" by (simp add: with_root_def)
  then show "tree_ids (with_root L r tid d) = tree_ids d" unfolding tree_ids_def by (metis set_map)
qed (simp add: with_root_def)

lemma update_root:
  assumes "wf_db d"
  shows "update_trees tid (set_root L r) d
    = Inr (int (length (filter (\<lambda>x. tr_tree_id x = tid) (trees d))), with_root L r tid d)"
proof -
  have "tree_state x \<in> set E_TREE_STATE \<and> tree_type x \<in> set E_TREE_TYPE" if "x \<in> set (trees d)" for x
    using assms that by (auto simp: wf_defs)
  then show ?thesis by (auto simp: update_trees_def Let_def with_root_def)
qed

lemma root_data:
  assumes "tid \<in> tree_ids d"
  shows "\<exists>xs. map current_tree_data (filter (\<lambda>x. tr_tree_id x = tid) (trees (with_root L r tid d))) = Some (root_json L r) # xs"
proof -
  have "map current_tree_data (filter (\<lambda>x. tr_tree_id x = tid)
        (map (\<lambda>x. if tr_tree_id x = tid then set_root L r x else x) rows))
      = map (\<lambda>_. Some (root_json L r)) (filter (\<lambda>x. tr_tree_id x = tid) rows)" for rows
    by (induction rows) auto
  moreover have "filter (\<lambda>x. tr_tree_id x = tid) (trees d) \<noteq> []"
    using assms by (auto simp: tree_ids_def filter_empty_conv)
  ultimately show ?thesis by (cases "filter (\<lambda>x. tr_tree_id x = tid) (trees d)") (simp_all add: with_root_def)
qed

text \<open>A transaction on a tree whose row holds a root.\<close>

lemma begin_with_root:
  assumes "map current_tree_data (filter (\<lambda>x. tr_tree_id x = TreeId tree) (trees d)) = Some (root_json L r) # xs"
    and "root_codec_ok L r"
  shows "\<exists>tx s2. log_beginInternal C L tree (new_sess d) = (Inr (tx, None), s2) \<and> tx_root tx = r \<and>
        slr tx = Some (root_MarshalBinary L r) \<and> writeRevision tx = Revision r + 1"
proof -
  let ?s = "(new_sess d)\<lparr>active := True, opened := 1\<rparr>"
  have "BeginTx (new_sess d) = (Inr (), ?s)"
    by (simp add: BeginTx_def bnd_def db_call_def pop_def modify_def new_sess_def)
  moreover have "ready ?s" "work ?s = d" by (simp_all add: ready_def new_sess_def)
  ultimately show ?thesis
    using assms
    by (simp add: log_beginInternal_def beginTreeTx_def bnd_def act_simps fetchLatestRoot_def Let_def
        treeTX.defs root_codec_ok_def)
qed

text \<open>
  C38: A signed root that is stored is the root that the next transaction on the tree works with: it is
  read back from the database without loss, it is what \<open>LatestSignedLogRoot\<close> answers, and subtrees are
  written at the revision after it. Storing it also appends it to the history of tree heads.
\<close>

theorem root_stored_is_read:
  fixes t :: "('c, 'm) treeTX_scheme" and C :: "'d cachelib"
  assumes "ready s" "wf_db (work s)" "treeID t \<in> tree_ids (work s)"
    and b: "root_UnmarshalBinary L b = Inr r" "Metadata r = []" "root_codec_ok L r"
    and "0 \<le>s TreeSize r" "0 \<le>s TimestampNanos r" "0 \<le>s Revision r"
    and fresh: "(treeID t, Revision r) \<notin> tree_head_key ` set (tree_head (work s))"
    and tree: "TreeId tree = treeID t"
  shows "\<exists>s'. StoreSignedLogRoot L t b s = (Inr (), s') \<and>
     (\<exists>h. tree_head (work s') = tree_head (work s) @ [h] \<and> tree_size h = TreeSize r \<and> root_hash h = RootHash r) \<and>
     (\<exists>tx s2. log_beginInternal C L tree (new_sess (work s')) = (Inr (tx, None), s2) \<and> tx_root tx = r \<and>
        slr tx = Some (root_MarshalBinary L r) \<and> writeRevision tx = Revision r + 1)"
proof -
  let ?d = "with_root L r (treeID t) (work s)"
  obtain h where h: "insertTreeHeadSQL (treeID t) r ?d = Inr (1, ?d\<lparr>tree_head := tree_head (work s) @ [h]\<rparr>)"
      "tree_size h = TreeSize r" "root_hash h = RootHash r"
    using fresh assms(3) by (simp add: insertTreeHeadSQL_def insert_tree_head_def)
  let ?s = "s\<lparr>work := ?d\<lparr>tree_head := tree_head (work s) @ [h]\<rparr>\<rparr>"
  have "StoreSignedLogRoot L t b s = (Inr (), ?s)"
    using assms(1,7-9) b(1,2) h update_root [OF assms(2), of "treeID t" L r]
    unfolding StoreSignedLogRoot_def set_root_def [symmetric]
    by (simp add: bnd_def act_simps bigint_args_def checkResultOkAndRowCountIs_def word_sless_alt word_sle_eq)
  moreover obtain xs where "map current_tree_data (filter (\<lambda>x. tr_tree_id x = TreeId tree) (trees (work ?s))) = Some (root_json L r) # xs"
    using root_data [OF assms(3), of L r] tree by auto
  from begin_with_root [OF this b(3), of C] have
    "\<exists>tx s2. log_beginInternal C L tree (new_sess (work ?s)) = (Inr (tx, None), s2) \<and> tx_root tx = r \<and>
        slr tx = Some (root_MarshalBinary L r) \<and> writeRevision tx = Revision r + 1" .
  ultimately show ?thesis using h by auto
qed

section \<open>Examples\<close>

lemma sample_waiting: "waiting 5 9 sample_log = [queue_row 5 7 (sample_leaf (CHR ''m''))]"
  by (simp add: waiting_def sample_log_def)

lemma sample_log_wf: "wf_db sample_log"
  using sample_log_ok by (simp add: log_ok_def)

lemma sample_hashes: "hashes_ok sample_logTX sample_log"
  by (simp add: hashes_ok_def sample_log_def)

theorem dequeue_oldest_witness:
  "\<exists>rows s'. DequeueLeaves sample_logTX 10 9 (sample_sess sample_log) = (Inr (map (\<lambda>r. fst (dequeueLeaf r)) rows), s') \<and>
     length rows = 1 \<and> work s' = sample_log\<lparr>unsequenced := filter (\<lambda>r. r \<notin> set rows) (unsequenced sample_log)\<rparr>"
proof -
  have "0 \<le>s (10 :: int64)" "min (unat (10 :: int64)) (length (waiting 5 9 sample_log)) = 1"
    by (simp_all add: sample_waiting int64_simps)
  then show ?thesis
    using dequeue_oldest [of "sample_sess sample_log" sample_logTX 10 9] sample_log_wf sample_hashes by auto
qed

theorem queue_drains_witness:
  "\<exists>s'. loop (\<lambda>_ acc. bnd (DequeueLeaves sample_logTX 10 9) (\<lambda>leaves. ret (acc @ leaves))) [()] [] (sample_sess sample_log)
     = (Inr [fst (dequeueLeaf (queue_row 5 7 (sample_leaf (CHR ''m''))))], s') \<and> waiting 5 9 (work s') = []"
proof -
  have "0 <s (10 :: int64)" "unat (10 :: int64) = 10" by (simp_all add: int64_simps)
  then show ?thesis
    using queue_drains [of "sample_sess sample_log" sample_logTX 10 9] sample_log_wf sample_hashes
    by (auto simp: sample_waiting simp del: loop.simps)
qed

theorem log_transaction_atomic_witness:
  "case log_ReadWriteTransaction sample_cachelib sample_loglib sample_tree
      (\<lambda>tx. bnd (UpdateSequencedLeaves tx [sample_leaf (CHR ''m'')]) (\<lambda>_. ret tx)) (new_sess sample_log) of
       (Inl _, s') \<Rightarrow> committed s' = sample_log \<and> opened s' = 0
     | (Inr _, s') \<Rightarrow> opened s' = 0"
proof -
  have "case log_ReadWriteTransaction sample_cachelib sample_loglib sample_tree
      (\<lambda>tx. bnd (UpdateSequencedLeaves tx [sample_leaf (CHR ''m'')]) (\<lambda>_. ret tx)) (new_sess sample_log) of
       (Inl _, s') \<Rightarrow> committed s' = committed (new_sess sample_log) \<and> opened s' = opened (new_sess sample_log)
     | (Inr _, s') \<Rightarrow> \<exists>tx e s1 tx' s2 c s3. log_beginInternal sample_cachelib sample_loglib sample_tree (new_sess sample_log) = (Inr (tx, e), s1) \<and>
          work s1 = committed (new_sess sample_log) \<and>
          bnd (UpdateSequencedLeaves tx [sample_leaf (CHR ''m'')]) (\<lambda>_. ret tx) s1 = (Inr tx', s2) \<and>
          flush sample_cachelib tx' s2 = (Inr c, s3) \<and> committed s' = work s3 \<and> opened s' = opened (new_sess sample_log)"
    by (rule log_transaction_atomic, intro confined_rules log_confined)
      (auto simp: bnd_def ret_def split: prod.splits sum.splits)
  then show ?thesis by (auto split: prod.splits sum.splits)
qed

text \<open>The sample tree has no root yet.\<close>

lemma sample_needs_init:
  "\<exists>tx s1. log_beginInternal sample_cachelib sample_loglib sample_tree (new_sess sample_db)
     = (Inr (tx, Some (ErrTreeNeedsInit sample_loglib)), s1)"
proof -
  have "BeginTx (new_sess sample_db) = (Inr (), sample_sess sample_db)"
    by (simp add: BeginTx_def bnd_def db_call_def pop_def modify_def new_sess_def sample_sess_def)
  moreover have "TreeId sample_tree = 5" "current_tree_data sample_row = None"
    by (simp_all add: sample_tree_def sample_row_def)
  ultimately show ?thesis
    by (simp add: log_beginInternal_def beginTreeTx_def bnd_def act_simps fetchLatestRoot_def Let_def
        treeTX.defs sample_loglib_def)
qed

theorem queue_failure_leaks_witness:
  "leaks (log_QueueLeaves sample_cachelib sample_loglib sample_tree [sample_leaf (CHR ''q'')] 9) (new_sess sample_db)"
proof -
  obtain tx s1 where "log_beginInternal sample_cachelib sample_loglib sample_tree (new_sess sample_db)
     = (Inr (tx, Some (ErrTreeNeedsInit sample_loglib)), s1)"
    using sample_needs_init by blast
  from queue_failure_leaks [OF this] show ?thesis by blast
qed

theorem root_stored_is_read_witness:
  "\<exists>s'. StoreSignedLogRoot sample_loglib sample_treeTX ''x'' (sample_sess sample_db) = (Inr (), s') \<and>
     (\<exists>tx s2. log_beginInternal sample_cachelib sample_loglib sample_tree (new_sess (work s')) = (Inr (tx, None), s2) \<and>
        TreeSize (tx_root tx) = 120 \<and> writeRevision tx = 1)"
proof -
  define r where "r = zero_root\<lparr>TreeSize := 120\<rparr>"
  have "root_UnmarshalBinary sample_loglib ''x'' = Inr r" "root_codec_ok sample_loglib r"
    by (simp_all add: r_def sample_loglib_def root_codec_ok_def)
  moreover have "Metadata r = []" "0 \<le>s TreeSize r" "0 \<le>s TimestampNanos r" "0 \<le>s Revision r" "TreeSize r = 120" "Revision r = 0"
    by (simp_all add: r_def zero_root_def int64_simps)
  moreover have "treeID sample_treeTX \<in> tree_ids (work (sample_sess sample_db))" "TreeId sample_tree = treeID sample_treeTX"
    "(treeID sample_treeTX, Revision r) \<notin> tree_head_key ` set (tree_head (work (sample_sess sample_db)))"
    by (simp_all add: sample_treeTX_def tree_ids_def sample_tree_def sample_db_def empty_db_def)
  ultimately show ?thesis
    using root_stored_is_read [of "sample_sess sample_db" sample_treeTX sample_loglib "''x''" r sample_tree sample_cachelib]
    by auto
qed

end
