(* ===== verification/LogRange.thy ===== *)
theory LogRange
  imports LogQueue
begin

text \<open>
  Reading a range of leaves by index. On a log whose entries below the tree size are all present,
  \<open>GetLeavesByRange\<close> returns exactly the window that was asked for, cut at the tree size.
\<close>

section \<open>The scan over the rows\<close>

lemma range_loop_ok:
  "map LeafIndex rows = map (\<lambda>i. w + of_nat i) [0..<length rows] \<Longrightarrow>
     range_loop n w rows None acc s = (Inr (acc @ rows), s)"
proof (induction rows arbitrary: w acc)
  case Nil
  then show ?case by (simp add: rows_Err_def ret_def)
next
  case (Cons leaf rows)
  have "[0..<length (leaf # rows)] = 0 # map Suc [0..<length rows]"
    by (simp add: map_Suc_upt upt_conv_Cons del: upt_Suc)
  from Cons.prems [unfolded this] have "LeafIndex leaf = w" "map LeafIndex rows = map (\<lambda>i. (w + 1) + of_nat i) [0..<length rows]"
    by (simp_all add: comp_def add.assoc)
  with Cons.IH [of "w + 1" "acc @ [leaf]"] show ?case by simp
qed

section \<open>The rows of a window\<close>

lemma sint_of_int64: "- (2 ^ 63) \<le> i \<Longrightarrow> i < 2 ^ 63 \<Longrightarrow> sint (word_of_int i :: int64) = i"
  using signed_take_bit_64 [of i] by transfer simp

definition window :: "int64 \<Rightarrow> int64 \<Rightarrow> int64 \<Rightarrow> database \<Rightarrow> sequenced_row list" where
  "window start stop tid d = sort_key (\<lambda>s. sint (sequence_number s))
     (filter (\<lambda>s. start \<le>s sequence_number s \<and> sequence_number s <s stop \<and> sq_tree_id s = tid) (sequenced_leaf_data d))"

lemma window_mem: "r \<in> set (window start stop tid d) \<longleftrightarrow>
    r \<in> set (sequenced_leaf_data d) \<and> start \<le>s sequence_number r \<and> sequence_number r <s stop \<and> sq_tree_id r = tid"
  by (auto simp: window_def)

definition dense :: "int64 \<Rightarrow> int64 \<Rightarrow> database \<Rightarrow> bool" where
  "dense n tid d \<longleftrightarrow> (\<forall>i. 0 \<le>s i \<and> i <s n \<longrightarrow> (\<exists>r\<in>set (sequenced_leaf_data d). sq_tree_id r = tid \<and> sequence_number r = i))"

lemma distinct_sort_key: "distinct (map f xs) \<Longrightarrow> distinct (map f (sort_key g xs))"
  by (metis distinct_map distinct_sort set_sort)

lemma window_distinct:
  assumes "wf_db d"
  shows "distinct (map (\<lambda>s. sint (sequence_number s)) (window start stop tid d))"
proof -
  let ?xs = "filter (\<lambda>s. start \<le>s sequence_number s \<and> sequence_number s <s stop \<and> sq_tree_id s = tid) (sequenced_leaf_data d)"
  have "distinct (map sequenced_key (sequenced_leaf_data d))" using assms by (simp add: wf_db_def keys_ok_def)
  then have "distinct (map (\<lambda>s. sint (sequence_number s)) ?xs)"
    by (auto simp: distinct_map inj_on_def signed_word_eqI)
  then show ?thesis unfolding window_def by (rule distinct_sort_key)
qed

lemma window_indices:
  assumes "wf_db d" "dense n tid d" "0 \<le>s start" "start \<le>s stop" "stop \<le>s n"
  shows "map (\<lambda>s. sint (sequence_number s)) (window start stop tid d) = [sint start..sint stop - 1]"
proof (rule sorted_distinct_set_unique)
  show "sorted (map (\<lambda>s. sint (sequence_number s)) (window start stop tid d))" by (simp add: window_def)
  show "set (map (\<lambda>s. sint (sequence_number s)) (window start stop tid d)) = set [sint start..sint stop - 1]"
  proof (intro set_eqI iffI)
    fix i assume "i \<in> set [sint start..sint stop - 1]"
    then have i: "sint start \<le> i" "i < sint stop" by auto
    have "sint (word_of_int i :: int64) = i"
      using i sint_range64(1) [of start] sint_range64(2) [of stop] by (intro sint_of_int64) auto
    with i assms(2-5) obtain r where "r \<in> set (sequenced_leaf_data d)" "sq_tree_id r = tid" "sequence_number r = word_of_int i"
      unfolding dense_def word_sle_eq word_sless_alt by (metis order_trans order_less_le_trans)
    with \<open>sint (word_of_int i :: int64) = i\<close> i show "i \<in> set (map (\<lambda>s. sint (sequence_number s)) (window start stop tid d))"
      by (force simp: window_mem word_sle_eq word_sless_alt)
  qed (auto simp: window_mem word_sle_eq word_sless_alt)
qed (use window_distinct [OF assms(1)] in auto)

text \<open>Every sequenced entry refers to exactly one leaf.\<close>

lemma join_single:
  assumes "wf_db d" "r \<in> set (sequenced_leaf_data d)"
  shows "\<exists>l\<in>set (leaf_data d). ld_tree_id l = sq_tree_id r \<and> ld_identity l = sq_identity r \<and>
     join_leaf d r = [scan_leaf (sq_merkle r) (sequence_number r) (Some (integrate_nanos r)) l]"
proof -
  have "(sq_tree_id r, sq_identity r) \<in> leaf_key ` set (leaf_data d)"
    using assms by (auto simp: wf_defs)
  then obtain l where l: "l \<in> set (leaf_data d)" "ld_tree_id l = sq_tree_id r" "ld_identity l = sq_identity r" by auto
  have "filter (\<lambda>x. leaf_key x = leaf_key l) (leaf_data d) = [l]"
    using assms(1) l(1) by (intro filter_key_unique) (simp_all add: wf_db_def keys_ok_def)
  moreover have "filter (\<lambda>x. ld_identity x = sq_identity r \<and> ld_tree_id x = sq_tree_id r) (leaf_data d)
      = filter (\<lambda>x. leaf_key x = leaf_key l) (leaf_data d)"
    using l by (auto intro: filter_cong)
  ultimately show ?thesis using l by (auto simp: join_leaf_def)
qed

abbreviation read_of :: "database \<Rightarrow> int64 \<Rightarrow> sequenced_row \<Rightarrow> LogLeaf \<Rightarrow> bool" where
  "read_of d tid r leaf \<equiv> \<exists>l\<in>set (leaf_data d). ld_tree_id l = tid \<and> ld_identity l = sq_identity r \<and>
     leaf = scan_leaf (sq_merkle r) (sequence_number r) (Some (integrate_nanos r)) l"

lemma join_rows:
  assumes "wf_db d"
  shows "\<forall>r\<in>set rows. r \<in> set (sequenced_leaf_data d) \<and> sq_tree_id r = tid \<Longrightarrow>
     list_all2 (read_of d tid) rows (concat (map (join_leaf d) rows))"
proof (induction rows)
  case (Cons r rows)
  then show ?case using join_single [OF assms, of r] by fastforce
qed simp

lemma select_range:
  assumes "wf_db d"
  shows "list_all2 (read_of d tid) (window start stop tid d) (selectLeavesByRangeSQL start stop tid d)"
  unfolding selectLeavesByRangeSQL_def window_def [symmetric] by (rule join_rows [OF assms]) (simp add: window_mem)

lemma read_indices: "list_all2 (read_of d tid) rows leaves \<Longrightarrow> map LeafIndex leaves = map sequence_number rows"
  by (induction rule: list_all2_induct) (auto simp: scan_leaf_def)

lemma read_each: "list_all2 (read_of d tid) rows leaves \<Longrightarrow> leaf \<in> set leaves \<Longrightarrow> \<exists>r\<in>set rows. read_of d tid r leaf"
  by (induction rule: list_all2_induct) auto

lemma words_of_upto:
  fixes a b :: int64
  assumes "map sint (ws :: int64 list) = [sint a..sint b - 1]"
  shows "ws = map (\<lambda>i. a + of_nat i) [0..<length ws]"
proof (rule nth_equalityI)
  fix i assume i: "i < length ws"
  have "length ws = nat (sint b - sint a)" using arg_cong [OF assms, of length] by simp
  with i have "sint (ws ! i) = sint a + int i" using arg_cong [OF assms, of "\<lambda>xs. xs ! i"] by simp
  then have "ws ! i = word_of_int (sint a + int i)" by (metis scast_eq scast_id)
  with i show "ws ! i = map (\<lambda>i. a + of_nat i) [0..<length ws] ! i" by simp
qed simp

text \<open>A window inside the tree.\<close>

lemma range_inside:
  assumes "ready s" "wf_db (work s)" "dense n tid (work s)" "0 \<le>s start" "start \<le>s stop" "stop \<le>s n"
  shows "\<exists>leaves. selectLeavesByRangeSQL start stop tid (work s) = leaves \<and>
     range_loop n start leaves None [] s = (Inr leaves, s) \<and>
     map (\<lambda>l. sint (LeafIndex l)) leaves = [sint start..sint stop - 1] \<and>
     (\<forall>leaf\<in>set leaves. \<exists>r\<in>set (sequenced_leaf_data (work s)). sq_tree_id r = tid \<and> read_of (work s) tid r leaf)"
proof -
  let ?leaves = "selectLeavesByRangeSQL start stop tid (work s)"
  note sel = select_range [OF assms(2), of tid start stop]
  have ix: "map sint (map LeafIndex ?leaves) = [sint start..sint stop - 1]"
    using read_indices [OF sel] window_indices [OF assms(2-6)] by (simp add: comp_def)
  then have "range_loop n start ?leaves None [] s = (Inr ([] @ ?leaves), s)"
    using words_of_upto [OF ix] by (intro range_loop_ok) simp
  with ix read_each [OF sel] show ?thesis by (fastforce simp: comp_def window_mem)
qed

text \<open>
  C12: On a log whose entries below its size are all sequenced, \<open>GetLeavesByRange\<close> returns the leaves
  with the indices from \<open>start\<close> on, in order and without gaps, \<open>count\<close> of them or up to the end of the
  tree, each with the data stored for it. No combination of 64-bit arguments overflows. A count that is
  not positive or a negative start is an invalid argument, and a start at or after the end of the tree is
  out of range.
\<close>

theorem range_window:
  assumes "ready s" "wf_db (work s)" "treeType t = TreeType_LOG" "dense (TreeSize (tx_root t)) (treeID t) (work s)"
  defines "n \<equiv> sint (TreeSize (tx_root t))"
  shows "if sint cnt \<le> 0 \<or> sint start < 0 then \<exists>m. GetLeavesByRange t start cnt s = (Inl (RPCError codes_InvalidArgument m), s)
     else if n \<le> sint start then \<exists>m. GetLeavesByRange t start cnt s = (Inl (RPCError codes_OutOfRange m), s)
     else \<exists>leaves. GetLeavesByRange t start cnt s = (Inr leaves, s) \<and>
       map (\<lambda>l. sint (LeafIndex l)) leaves = [sint start..min (sint start + sint cnt) n - 1] \<and>
       (\<forall>leaf\<in>set leaves. \<exists>r\<in>set (sequenced_leaf_data (work s)). \<exists>l\<in>set (leaf_data (work s)).
          sq_tree_id r = treeID t \<and> ld_tree_id l = treeID t \<and> ld_identity l = sq_identity r \<and>
          leaf = scan_leaf (sq_merkle r) (sequence_number r) (Some (integrate_nanos r)) l)"
proof -
  consider "sint cnt \<le> 0 \<or> sint start < 0" | "0 < sint cnt" "0 \<le> sint start" "n \<le> sint start"
    | "0 < sint cnt" "0 \<le> sint start" "sint start < n" by linarith
  then show ?thesis
  proof cases
    case 1
    then show ?thesis by (auto simp: GetLeavesByRange_def Let_def int64_simps throw_def status_Errorf_def)
  next
    case 2
    with assms(3) show ?thesis
      by (auto simp: GetLeavesByRange_def Let_def int64_simps throw_def status_Errorf_def n_def)
  next
    case 3
    define cnt' where "cnt' = (if TreeSize (tx_root t) - start <s cnt then TreeSize (tx_root t) - start else cnt)"
    have "sint (TreeSize (tx_root t) - start) = n - sint start"
      using 3 sint_range64 [of "TreeSize (tx_root t)"] unfolding n_def by (intro sint_sub64) auto
    then have "sint cnt' = min (sint cnt) (n - sint start)" by (auto simp: cnt'_def int64_simps)
    moreover have "sint (start + cnt') = sint start + sint cnt'"
      using 3 calculation sint_range64 [of "TreeSize (tx_root t)"] unfolding n_def by (intro sint_add64) auto
    ultimately have stop: "sint (start + cnt') = min (sint start + sint cnt) n" by auto
    have bounds: "0 \<le>s start" "start \<le>s start + cnt'" "start + cnt' \<le>s TreeSize (tx_root t)"
      using 3 stop by (auto simp: int64_simps n_def)
    have "GetLeavesByRange t start cnt s
        = range_loop (TreeSize (tx_root t)) start (selectLeavesByRangeSQL start (start + cnt') (treeID t) (work s)) None [] s"
      using 3 assms(1,3)
      by (simp add: GetLeavesByRange_def Let_def int64_simps n_def cnt'_def [symmetric, unfolded int64_simps] bnd_def act_simps)
    with range_inside [OF assms(1,2,4) bounds] 3 stop show ?thesis by auto
  qed
qed

section \<open>Example\<close>

text \<open>A log with one entry.\<close>

definition sample_sequenced :: database where
  "sample_sequenced = sample_log\<lparr>sequenced_leaf_data := [\<lparr>sq_tree_id = 5, sequence_number = 0,
     sq_identity = replicate 32 (CHR ''m''), sq_merkle = replicate 32 (CHR ''m''), integrate_nanos = 8\<rparr>]\<rparr>"

lemma sample_sequenced_wf: "wf_db sample_sequenced"
proof -
  have "(5, replicate 32 (CHR ''m'')) \<in> leaf_key ` set (leaf_data sample_log)" "5 \<in> tree_ids sample_log"
    by (simp_all add: sample_log_def leaf_row_def tree_ids_def)
  then show ?thesis
    using sample_log_ok by (simp add: log_ok_def wf_defs sample_sequenced_def tree_ids_def)
qed

lemma sample_dense: "dense 1 5 sample_sequenced"
proof -
  have "i = 0" if "0 \<le>s i" "i <s 1" for i :: int64
  proof -
    have "sint i = sint (0 :: int64)" using that by (simp add: int64_simps)
    then show ?thesis by (rule signed_word_eqI)
  qed
  then show ?thesis by (auto simp: dense_def sample_sequenced_def)
qed

theorem range_window_witness:
  "\<exists>leaves. GetLeavesByRange sample_logTX 0 7 (sample_sess sample_sequenced) = (Inr leaves, sample_sess sample_sequenced) \<and>
     map (\<lambda>l. sint (LeafIndex l)) leaves = [0]"
  using range_window [of "sample_sess sample_sequenced" sample_logTX 7 0] sample_sequenced_wf sample_dense
  by auto

end
