(* ===== verification/Storage.thy ===== *)
theory Storage
  imports AdminStorage LogProps LogRange
begin

text \<open>
  The storage as a whole. \<open>storage_step\<close> is one call of an operation of the administration storage, the
  tree storage or the log storage, on one connection, under any faults of the driver. Whatever is done
  with the storage, the database satisfies the constraints of its schema.
\<close>

inductive storage_step :: "adminlib \<Rightarrow> 'c cachelib \<Rightarrow> loglib \<Rightarrow> sess \<Rightarrow> sess \<Rightarrow> bool"
  for A :: adminlib and C :: "'c cachelib" and L :: loglib where
  BeginTx: "storage_step A C L s (snd (BeginTx s))"
| Commit: "storage_step A C L s (snd (tx_Commit s))"
| Rollback: "storage_step A C L s (snd (tx_Rollback s))"
| GetTree: "storage_step A C L s (snd (GetTree A tid s))"
| ListTrees: "storage_step A C L s (snd (ListTrees A includeDeleted s))"
| CreateTree: "storage_step A C L s (snd (CreateTree A newid now tree s))"
| UpdateTree: "storage_step A C L s (snd (UpdateTree A now tid f s))"
| SoftDeleteTree: "storage_step A C L s (snd (SoftDeleteTree A now tid s))"
| UndeleteTree: "storage_step A C L s (snd (UndeleteTree A tid s))"
| HardDeleteTree: "storage_step A C L s (snd (HardDeleteTree tid s))"
| SetMerkleNodes: "storage_step A C L s (snd (SetMerkleNodes C (t :: 'c logTreeTX) ns s))"
| GetMerkleNodes: "storage_step A C L s (snd (GetMerkleNodes C t ids s))"
| tree_Commit: "storage_step A C L s (snd (snd (tree_Commit C (t :: 'c logTreeTX) s)))"
| tree_Close: "storage_step A C L s (snd (snd (tree_Close (t :: 'c logTreeTX) s)))"
| log_beginInternal: "storage_step A C L s (snd (log_beginInternal C L tree s))"
| GetActiveLogIDs: "storage_step A C L s (snd (GetActiveLogIDs s))"
| DequeueLeaves: "storage_step A C L s (snd (DequeueLeaves (t :: 'c logTreeTX) limit cutoff s))"
| GetLeavesByRange: "storage_step A C L s (snd (GetLeavesByRange (t :: 'c logTreeTX) start cnt s))"
| GetLeavesByHash: "storage_step A C L s (snd (GetLeavesByHash (t :: 'c logTreeTX) hs ordered s))"
| UpdateSequencedLeaves: "storage_step A C L s (snd (UpdateSequencedLeaves (t :: 'c logTreeTX) leaves s))"
| StoreSignedLogRoot: "storage_step A C L s (snd (StoreSignedLogRoot L (t :: 'c logTreeTX) root s))"
| QueueLeaves: "storage_step A C L s (snd (log_QueueLeaves C L tree leaves ts s))"
| AddSequencedLeaves: "storage_step A C L s (snd (log_AddSequencedLeaves C L tree leaves ts s))"

section \<open>Every operation keeps the constraints\<close>

lemma wf_flush: "guarantees (maintains (tx_inv wf_db)) (flush C t)"
  using tx_inv_answering [of wf_db "storeSubtrees C t" "cache_Flush C (subtreeCache t)", OF wf_storeSubtrees]
  by (auto simp: flush_def guarantees_def maintains_def)

lemma wf_tree_Commit: "tx_inv wf_db s \<Longrightarrow> tx_inv wf_db (snd (snd (tree_Commit C t s)))"
proof -
  assume "tx_inv wf_db s"
  obtain r s1 where f: "flush C t s = (r, s1)" by fastforce
  then have s1: "tx_inv wf_db s1"
    using guarantees_at [OF wf_flush f] \<open>tx_inv wf_db s\<close> by (simp add: maintains_def)
  obtain r2 s2 where c: "tx_Commit s1 = (r2, s2)" by fastforce
  then have "tx_inv wf_db s2" using guarantees_at [OF tx_inv_tx_end(1) c] s1 by (simp add: maintains_def)
  with f s1 c show ?thesis unfolding tree_Commit_def flush_def [symmetric] by (cases r) auto
qed

lemma wf_tree_Close: "tx_inv P s \<Longrightarrow> tx_inv P (snd (snd (tree_Close t s)))"
  using tx_inv_tx_end(2) [of P]
  by (auto simp: tree_Close_def tree_Rollback_def guarantees_def maintains_def split: prod.splits dest: spec [of _ s])

lemma tx_inv_begin: "guarantees (maintains (tx_inv P)) (log_beginInternal C L tree)"
  unfolding log_beginInternal_def beginTreeTx_def Let_def
  by (auto intro!: tx_inv_rules tx_inv_BeginTx tx_inv_reads tx_inv_tx_end split: sum.splits)

lemma wf_queueing:
  "guarantees (maintains (tx_inv wf_db)) (log_QueueLeaves C L tree leaves ts)"
  "guarantees (maintains (tx_inv wf_db)) (log_AddSequencedLeaves C L tree leaves ts)"
proof -
  have commit: "guarantees (maintains (tx_inv wf_db)) (\<lambda>s. case tree_Commit C tx s of
      (Inl e, _, s') \<Rightarrow> (Inl e, s') | (Inr _, _, s') \<Rightarrow> (Inr a, s'))" for tx :: "'a logTreeTX" and a :: 'd
    unfolding guarantees_def maintains_def
  proof (intro allI impI)
    fix s assume "tx_inv wf_db s"
    from wf_tree_Commit [OF this, of C tx]
    show "tx_inv wf_db (snd (case tree_Commit C tx s of (Inl e, _, s') \<Rightarrow> (Inl e, s') | (Inr _, _, s') \<Rightarrow> (Inr a, s')))"
      by (auto split: prod.splits sum.splits)
  qed
  show "guarantees (maintains (tx_inv wf_db)) (log_QueueLeaves C L tree leaves ts)"
    "guarantees (maintains (tx_inv wf_db)) (log_AddSequencedLeaves C L tree leaves ts)"
    unfolding log_QueueLeaves_def log_AddSequencedLeaves_def
    by (auto intro!: tx_inv_rules tx_inv_begin log_keeps_wf commit split: prod.splits option.splits)
qed

lemmas storage_wf = tx_inv_BeginTx tx_inv_tx_end admin_keeps_wf tx_inv_SetMerkleNodes tx_inv_reads tx_inv_lookups
  tx_inv_begin log_keeps_wf wf_queueing

lemma guarantees_maintains: "guarantees (maintains I) m \<Longrightarrow> I s \<Longrightarrow> I (snd (m s))"
  by (simp add: guarantees_def maintains_def)

lemma storage_step_wf: "storage_step A C L s s' \<Longrightarrow> tx_inv wf_db s \<Longrightarrow> tx_inv wf_db s'"
  by (induction rule: storage_step.induct)
    (auto intro: wf_tree_Commit wf_tree_Close guarantees_maintains storage_wf)



end
