(* ===== verification/Logging.thy ===== *)
theory Logging
  imports Errors
begin

text \<open>
  \<open>internal/pkg/log/logger.go\<close>: the log level of every module, and the textual specification of all
  of them. The numbers of the levels are those of the zap library, which the fields of \<open>zapcore\<close>
  stand for; the code relies on their order. Go leaves the order in which a map is traversed open:
  \<open>GetSpec\<close> takes the traversal as an argument. The outputs of the logger are not modelled, except
  which of them an entry goes to.
\<close>

type_synonym Level = int

record zapcore =
  DebugLevel :: int
  InfoLevel :: int
  WarnLevel :: int
  ErrorLevel :: int
  PanicLevel :: int
  FatalLevel :: int

definition Level_String :: "zapcore \<Rightarrow> Level \<Rightarrow> string" where
  "Level_String z l =
     (if l = DebugLevel z then ''DEBUG'' else if l = InfoLevel z then ''INFO''
      else if l = WarnLevel z then ''WARN'' else if l = ErrorLevel z then ''ERROR''
      else if l = PanicLevel z then ''PANIC'' else if l = FatalLevel z then ''FATAL''
      else ''Level('' @ (if l < 0 then ''-'' else []) @ FormatNat (nat \<bar>l\<bar>) @ '')'')"

definition ParseLevel :: "zapcore \<Rightarrow> string \<Rightarrow> err + Level" where
  "ParseLevel z level =
     (if level \<in> set [''DEBUG'', ''debug''] then Inr (DebugLevel z)
      else if level \<in> set [''INFO'', ''info''] then Inr (InfoLevel z)
      else if level \<in> set [''WARN'', ''warn'', ''WARNING'', ''warning''] then Inr (WarnLevel z)
      else if level \<in> set [''ERROR'', ''error''] then Inr (ErrorLevel z)
      else if level \<in> set [''PANIC'', ''panic''] then Inr (PanicLevel z)
      else if level \<in> set [''FATAL'', ''fatal''] then Inr (FatalLevel z)
      else Inl (ErrorString ''logger: invalid log level''))"

definition minLogLevel :: "zapcore \<Rightarrow> Level" where "minLogLevel z = DebugLevel z"
definition defaultLevel :: "zapcore \<Rightarrow> Level" where "defaultLevel z = InfoLevel z"
definition defaultModuleName :: string where "defaultModuleName = []"

section \<open>The levels of the modules\<close>

type_synonym moduleLevels = "string \<rightharpoonup> Level"

definition levels_Get :: "zapcore \<Rightarrow> moduleLevels \<Rightarrow> string \<Rightarrow> Level" where
  "levels_Get z l module =
     (case l module of
        Some level \<Rightarrow> level
      | None \<Rightarrow> (case l defaultModuleName of Some level \<Rightarrow> level | None \<Rightarrow> defaultLevel z))"

definition levels_All :: "moduleLevels \<Rightarrow> moduleLevels" where
  "levels_All l = l"

definition levels_Set :: "string \<Rightarrow> Level \<Rightarrow> moduleLevels \<Rightarrow> moduleLevels" where
  "levels_Set module level l = l(module \<mapsto> level)"

definition levels_SetDefault :: "Level \<Rightarrow> moduleLevels \<Rightarrow> moduleLevels" where
  "levels_SetDefault level = levels_Set defaultModuleName level"

definition isEnabled :: "zapcore \<Rightarrow> moduleLevels \<Rightarrow> string \<Rightarrow> Level \<Rightarrow> bool" where
  "isEnabled z l module level \<longleftrightarrow> level \<ge> levels_Get z l module"

definition SetLevel :: "string \<Rightarrow> Level \<Rightarrow> moduleLevels \<Rightarrow> moduleLevels" where
  "SetLevel module level l = levels_Set module level l"

definition SetDefaultLevel :: "Level \<Rightarrow> moduleLevels \<Rightarrow> moduleLevels" where
  "SetDefaultLevel level l = levels_SetDefault level l"

definition GetLevel :: "zapcore \<Rightarrow> moduleLevels \<Rightarrow> string \<Rightarrow> Level" where
  "GetLevel z l module = levels_Get z l module"

text \<open>Which of the two outputs an entry goes to.\<close>

definition stdErr_enabled :: "zapcore \<Rightarrow> moduleLevels \<Rightarrow> string \<Rightarrow> Level \<Rightarrow> bool" where
  "stdErr_enabled z l module lvl \<longleftrightarrow> lvl \<ge> ErrorLevel z \<and> isEnabled z l module lvl"

definition stdOut_enabled :: "zapcore \<Rightarrow> moduleLevels \<Rightarrow> string \<Rightarrow> Level \<Rightarrow> bool" where
  "stdOut_enabled z l module lvl \<longleftrightarrow> lvl < ErrorLevel z \<and> isEnabled z l module lvl"

section \<open>The specification of the levels\<close>

text \<open>The loop of \<open>SetSpec\<close>. A part that contains the separator has a second field.\<close>

fun spec_loop :: "zapcore \<Rightarrow> string list \<Rightarrow> Level \<Rightarrow> (string \<times> Level) list \<Rightarrow> err + Level \<times> (string \<times> Level) list" where
  "spec_loop z [] defaultLogLevel pairs = Inr (defaultLogLevel, pairs)"
| "spec_loop z (part # parts) defaultLogLevel pairs =
     (if Contains part ''='' then
        (case ParseLevel z (Split (CHR ''='') part ! 1) of
           Inl e \<Rightarrow> Inl e
         | Inr logLevel \<Rightarrow> spec_loop z parts defaultLogLevel (pairs @ [(Split (CHR ''='') part ! 0, logLevel)]))
      else if defaultLogLevel \<ge> minLogLevel z then Inl (ErrorString ''multiple default values found'')
      else (case ParseLevel z part of
           Inl e \<Rightarrow> Inl e
         | Inr level \<Rightarrow> spec_loop z parts level pairs))"

definition SetSpec :: "zapcore \<Rightarrow> string \<Rightarrow> moduleLevels \<Rightarrow> (err + unit) \<times> moduleLevels" where
  "SetSpec z spec l =
     (case spec_loop z (Split (CHR '':'') spec) (minLogLevel z - 1) [] of
        Inl e \<Rightarrow> (Inl e, l)
      | Inr (defaultLogLevel, pairs) \<Rightarrow>
          let l1 = levels_Set [] (if defaultLogLevel \<ge> minLogLevel z then defaultLogLevel else InfoLevel z) l
          in (Inr (), foldl (\<lambda>l (module, logLevel). levels_Set module logLevel l) l1 pairs))"

text \<open>\<open>entries\<close> is the traversal of the map of all levels.\<close>

definition GetSpec :: "zapcore \<Rightarrow> (string \<times> Level) list \<Rightarrow> string" where
  "GetSpec z entries =
     (let (spec, defaultDebugLevel) =
        foldl (\<lambda>(spec, d) (module, level).
          if module = [] then (spec, Level_String z level)
          else (spec @ module @ ''='' @ Level_String z level @ '':'', d)) ([], []) entries
      in spec @ defaultDebugLevel)"

definition traverses :: "(string \<times> Level) list \<Rightarrow> moduleLevels \<Rightarrow> bool" where
  "traverses entries l \<longleftrightarrow> distinct (map fst entries) \<and> map_of entries = levels_All l"

section \<open>Reading back a specification\<close>

definition zap_ok :: "zapcore \<Rightarrow> bool" where
  "zap_ok z \<longleftrightarrow> DebugLevel z < InfoLevel z \<and> InfoLevel z < WarnLevel z \<and> WarnLevel z < ErrorLevel z \<and>
     ErrorLevel z < PanicLevel z \<and> PanicLevel z < FatalLevel z"

definition named_levels :: "zapcore \<Rightarrow> Level set" where
  "named_levels z = {DebugLevel z, InfoLevel z, WarnLevel z, ErrorLevel z, PanicLevel z, FatalLevel z}"

lemma named_level_min: "zap_ok z \<Longrightarrow> l \<in> named_levels z \<Longrightarrow> minLogLevel z \<le> l"
  by (auto simp: zap_ok_def named_levels_def minLogLevel_def)

lemma ParseLevel_String: "zap_ok z \<Longrightarrow> l \<in> named_levels z \<Longrightarrow> ParseLevel z (Level_String z l) = Inr l"
  by (auto simp: zap_ok_def named_levels_def Level_String_def ParseLevel_def)

lemma level_text_clean:
  "zap_ok z \<Longrightarrow> l \<in> named_levels z \<Longrightarrow> CHR '':'' \<notin> set (Level_String z l) \<and> CHR ''='' \<notin> set (Level_String z l)"
  by (auto simp: zap_ok_def named_levels_def Level_String_def)

definition clean_module :: "string \<Rightarrow> bool" where
  "clean_module m \<longleftrightarrow> CHR '':'' \<notin> set m \<and> CHR ''='' \<notin> set m"

text \<open>The text of the modules, then that of the default.\<close>

definition modules_text :: "zapcore \<Rightarrow> (string \<times> Level) list \<Rightarrow> string" where
  "modules_text z es = concat (map (\<lambda>(m, l). m @ ''='' @ Level_String z l @ '':'') es)"

lemma GetSpec_fold:
  "foldl (\<lambda>(spec, d) (module, level).
      if module = [] then (spec, Level_String z level)
      else (spec @ module @ ''='' @ Level_String z level @ '':'', d)) (spec, d) entries
   = (spec @ modules_text z (filter (\<lambda>e. fst e \<noteq> []) entries),
      foldl (\<lambda>d (m, l). if m = [] then Level_String z l else d) d entries)"
  by (induction entries arbitrary: spec d) (auto simp: modules_text_def)

lemma default_fold:
  "distinct (map fst entries) \<Longrightarrow> ([], l) \<in> set entries \<Longrightarrow>
     foldl (\<lambda>d (m, l). if m = [] then Level_String z l else d) d entries = Level_String z l"
proof (induction entries arbitrary: d)
  case (Cons e entries)
  have keep: "[] \<notin> fst ` set es \<Longrightarrow> foldl (\<lambda>d (m, l). if m = [] then Level_String z l else d) d es = d" for es d
    by (induction es arbitrary: d) (auto simp: split_def)
  from Cons keep [of entries] show ?case by (cases e) (auto simp: image_iff split: if_splits)
qed simp

lemma parts_of_module:
  assumes "zap_ok z" "clean_module m" "l \<in> named_levels z"
  shows "Contains (m @ ''='' @ Level_String z l) ''='' \<and>
     Split (CHR ''='') (m @ ''='' @ Level_String z l) = [m, Level_String z l]"
  using assms level_text_clean [OF assms(1,3)] by (auto simp: clean_module_def Contains_char Split_append Split_no_sep)

lemma spec_loop_modules:
  assumes "zap_ok z" "\<forall>(m, l)\<in>set es. clean_module m \<and> l \<in> named_levels z"
  shows "spec_loop z (map (\<lambda>(m, l). m @ ''='' @ Level_String z l) es @ rest) d ps = spec_loop z rest d (ps @ es)"
  using assms(2)
proof (induction es arbitrary: ps)
  case (Cons e es)
  obtain m l where e: "e = (m, l)" by fastforce
  with Cons.prems have "clean_module m" "l \<in> named_levels z" by auto
  with Cons e show ?case
    using parts_of_module [OF assms(1), of m l] ParseLevel_String [OF assms(1), of l] by simp
qed simp

lemma Split_modules:
  assumes "zap_ok z" "\<forall>(m, l)\<in>set es. clean_module m \<and> l \<in> named_levels z"
  shows "Split (CHR '':'') (modules_text z es @ rest) = map (\<lambda>(m, l). m @ ''='' @ Level_String z l) es @ Split (CHR '':'') rest"
  using assms(2)
proof (induction es)
  case (Cons e es)
  obtain m l where e: "e = (m, l)" by fastforce
  with Cons.prems have c: "clean_module m" "l \<in> named_levels z" by auto
  have "CHR '':'' \<notin> set (m @ ''='' @ Level_String z l)"
    using c level_text_clean [OF assms(1) c(2)] by (auto simp: clean_module_def)
  from Split_append [OF this] have "Split (CHR '':'') ((m @ ''='' @ Level_String z l) @ '':'' @ modules_text z es @ rest)
      = (m @ ''='' @ Level_String z l) # Split (CHR '':'') (modules_text z es @ rest)" by simp
  with Cons e show ?case by (simp add: modules_text_def)
qed (simp add: modules_text_def)

lemma fold_levels:
  "foldl (\<lambda>l (module, logLevel). levels_Set module logLevel l) l es = l ++ map_of (rev es)"
  by (induction es arbitrary: l) (auto simp: levels_Set_def map_add_assoc)

lemma map_of_rev: "distinct (map fst es) \<Longrightarrow> map_of (rev es) = map_of es"
  by (metis distinct_rev map_of_inject_set rev_map set_rev)

lemma map_of_without_default:
  assumes "distinct (map fst es)" "map_of es [] = Some d"
  shows "l([] \<mapsto> d) ++ map_of (filter (\<lambda>e. fst e \<noteq> []) es) = l ++ map_of es"
proof
  fix m
  have "map_of (filter (\<lambda>e. fst e \<noteq> []) es) m = (if m = [] then None else map_of es m)"
    by (induction es) auto
  then show "(l([] \<mapsto> d) ++ map_of (filter (\<lambda>e. fst e \<noteq> []) es)) m = (l ++ map_of es) m"
    using assms(2) by (auto simp: map_add_def split: option.splits)
qed

text \<open>
  C40: \<open>SetSpec\<close> reads what \<open>GetSpec\<close> writes. When a default level is set, setting the specification
  of some levels, in whatever order the modules were written, gives every module the level it had, and keeps the
  levels of modules that are not mentioned. When no default level is set, the text that \<open>GetSpec\<close> writes
  is refused and no level is changed.
\<close>

theorem log_spec_roundtrip:
  assumes "zap_ok z" "traverses entries l"
    and entries: "\<forall>(m, lv)\<in>set entries. clean_module m \<and> lv \<in> named_levels z"
  shows "case l [] of
       Some _ \<Rightarrow> SetSpec z (GetSpec z entries) l' = (Inr (), l' ++ l)
     | None \<Rightarrow> \<exists>e. SetSpec z (GetSpec z entries) l' = (Inl e, l')"
proof -
  let ?es = "filter (\<lambda>e. fst e \<noteq> []) entries"
  have es: "\<forall>(m, lv)\<in>set ?es. clean_module m \<and> lv \<in> named_levels z" using entries by auto
  have dist: "distinct (map fst entries)" "map_of entries = l"
    using assms(2) by (auto simp: traverses_def levels_All_def)
  have run: "spec_loop z (Split (CHR '':'') (modules_text z ?es @ rest)) d [] = spec_loop z (Split (CHR '':'') rest) d ?es" for rest d
    using spec_loop_modules [OF assms(1) es, of _ d "[]"] by (simp add: Split_modules [OF assms(1) es])
  show ?thesis
  proof (cases "l []")
    case None
    then have "[] \<notin> fst ` set entries" using dist(2) by (metis map_of_eq_None_iff)
    then have "foldl (\<lambda>d (m, l). if m = [] then Level_String z l else d) [] entries = []"
      by (induction entries) (auto simp: split_def)
    then have "GetSpec z entries = modules_text z ?es @ []" by (simp add: GetSpec_def GetSpec_fold)
    with None run [of "[]"] show ?thesis by (simp add: SetSpec_def ParseLevel_def)
  next
    case (Some d)
    then have d: "([], d) \<in> set entries" using dist(2) by (metis map_of_SomeD)
    have text_d: "GetSpec z entries = modules_text z ?es @ Level_String z d"
      using default_fold [OF dist(1) d] by (simp add: GetSpec_def GetSpec_fold)
    have lv: "d \<in> named_levels z" using d entries by auto
    then have clean: "CHR '':'' \<notin> set (Level_String z d)" "CHR ''='' \<notin> set (Level_String z d)"
      using level_text_clean [OF assms(1)] by auto
    have "SetSpec z (GetSpec z entries) l' = (Inr (), l'([] \<mapsto> d) ++ map_of (rev ?es))"
      using run [of "Level_String z d"] clean named_level_min [OF assms(1) lv] ParseLevel_String [OF assms(1) lv]
      by (simp add: SetSpec_def text_d Split_no_sep Contains_char fold_levels [unfolded levels_Set_def] levels_Set_def)
    moreover have "map_of (rev ?es) = map_of ?es" using dist(1) by (simp add: map_of_rev distinct_map_filter)
    ultimately show ?thesis
      using Some map_of_without_default [OF dist(1), of d l'] dist(2) by simp
  qed
qed

definition sample_zap :: zapcore where
  "sample_zap = \<lparr>DebugLevel = -1, InfoLevel = 0, WarnLevel = 1, ErrorLevel = 2, PanicLevel = 4, FatalLevel = 5\<rparr>"

theorem log_spec_roundtrip_witness:
  "SetSpec sample_zap (GetSpec sample_zap [(''rest'', 2), ([], -1)]) Map.empty = (Inr (), [''rest'' \<mapsto> 2, [] \<mapsto> -1])"
proof -
  have "traverses [(''rest'', 2), ([], -1)] [''rest'' \<mapsto> 2, [] \<mapsto> -1]"
    by (auto simp: traverses_def levels_All_def)
  from log_spec_roundtrip [OF _ this, of sample_zap Map.empty] show ?thesis
    by (simp add: sample_zap_def zap_ok_def clean_module_def named_levels_def)
qed

end
