(* ===== verification/Config.thy ===== *)
theory Config
  imports Rest Action "HOL-Library.AList" "HOL-Library.Multiset"
begin

text \<open>
  The configuration of the server: \<open>internal/pkg/cmdutil/cmdutil.go\<close> and the command line of
  \<open>cmd/vct/startcmd/start.go\<close>. The record \<open>cobra_Command\<close> stands for the command of the cobra library
  and the environment of the process; it says which flags were set and to what. Go leaves the order in
  which a map is traversed open: the fields of \<open>go_range\<close> are the orders in which the two maps of
  \<open>parseLogs\<close> are. A slice index out of range is an error, as a panic unwinds like one.
\<close>

record cobra_Command =
  flag_Changed :: "string \<Rightarrow> bool"
  flag_GetString :: "string \<Rightarrow> err + string"
  flag_GetStringArray :: "string \<Rightarrow> err + string list"
  os_LookupEnv :: "string \<Rightarrow> string option"

definition neither_set :: "string \<Rightarrow> string \<Rightarrow> err" where
  "neither_set flagName envKey = ErrorString (''Neither '' @ flagName @ '' (command line flag) nor '' @ envKey @
     '' (environment variable) have been set.'')"

definition GetUserSetVarFromString :: "cobra_Command \<Rightarrow> string \<Rightarrow> string \<Rightarrow> bool \<Rightarrow> err + string" where
  "GetUserSetVarFromString c flagName envKey isOptional =
     (if flag_Changed c flagName then
        (case flag_GetString c flagName of
           Inl e \<Rightarrow> Inl (ErrorString (flagName @ '' flag not found: '' @ Error e))
         | Inr value \<Rightarrow> if value = [] then Inl (ErrorString (flagName @ '' value is empty'')) else Inr value)
      else
        let value = (case os_LookupEnv c envKey of Some v \<Rightarrow> v | None \<Rightarrow> []); isSet = (os_LookupEnv c envKey \<noteq> None)
        in if isOptional \<or> isSet
           then (if \<not> isOptional \<and> value = [] then Inl (ErrorString (envKey @ '' value is empty'')) else Inr value)
           else Inl (neither_set flagName envKey))"

definition GetUserSetOptionalVarFromString :: "cobra_Command \<Rightarrow> string \<Rightarrow> string \<Rightarrow> string" where
  "GetUserSetOptionalVarFromString c flagName envKey =
     (case GetUserSetVarFromString c flagName envKey True of Inl _ \<Rightarrow> [] | Inr v \<Rightarrow> v)"

definition GetUserSetVarFromArrayString :: "cobra_Command \<Rightarrow> string \<Rightarrow> string \<Rightarrow> bool \<Rightarrow> err + string list" where
  "GetUserSetVarFromArrayString c flagName envKey isOptional =
     (if flag_Changed c flagName then
        (case flag_GetStringArray c flagName of
           Inl e \<Rightarrow> Inl (ErrorString (flagName @ '' flag not found: '' @ Error e))
         | Inr value \<Rightarrow> if value = [] then Inl (ErrorString (flagName @ '' value is empty'')) else Inr value)
      else
        let value = (case os_LookupEnv c envKey of Some v \<Rightarrow> v | None \<Rightarrow> []); isSet = (os_LookupEnv c envKey \<noteq> None)
        in if isOptional \<or> isSet
           then (if \<not> isOptional \<and> value = [] then Inl (ErrorString (envKey @ '' value is empty''))
                 else if value = [] then Inr [] else Inr (Split (CHR '','') value))
           else Inl (neither_set flagName envKey))"

definition GetUserSetOptionalVarFromArrayString :: "cobra_Command \<Rightarrow> string \<Rightarrow> string \<Rightarrow> string list" where
  "GetUserSetOptionalVarFromArrayString c flagName envKey =
     (case GetUserSetVarFromArrayString c flagName envKey True of Inl _ \<Rightarrow> [] | Inr v \<Rightarrow> v)"

section \<open>Flags\<close>

text \<open>Each flag with its environment variable.\<close>

definition envPrefix :: string where "envPrefix = ''VCT_''"

definition kmsTypeFlag :: "string \<times> string" where "kmsTypeFlag = (''kms-type'', envPrefix @ ''KMS_TYPE'')"
definition kmsEndpointFlag :: "string \<times> string" where "kmsEndpointFlag = (''kms-endpoint'', envPrefix @ ''KMS_ENDPOINT'')"
definition kmsRegionFlag :: "string \<times> string" where "kmsRegionFlag = (''kms-region'', envPrefix @ ''KMS_REGION'')"
definition logSignActiveKeyIDFlag :: "string \<times> string" where
  "logSignActiveKeyIDFlag = (''log-active-key-id'', envPrefix @ ''LOG_SIGN_ACTIVE_KEY_ID'')"
definition agentHostFlag :: "string \<times> string" where "agentHostFlag = (''api-host'', envPrefix @ ''API_HOST'')"
definition agentMetricsHostFlag :: "string \<times> string" where "agentMetricsHostFlag = (''metrics-host'', envPrefix @ ''METRICS_HOST'')"
definition logsFlag :: "string \<times> string" where "logsFlag = (''logs'', envPrefix @ ''LOGS'')"
definition datasourceNameFlag :: "string \<times> string" where "datasourceNameFlag = (''dsn'', envPrefix @ ''DSN'')"
definition timeoutFlag :: "string \<times> string" where "timeoutFlag = (''timeout'', envPrefix @ ''TIMEOUT'')"
definition syncTimeoutFlag :: "string \<times> string" where "syncTimeoutFlag = (''sync-timeout'', envPrefix @ ''SYNC_TIMEOUT'')"
definition databasePrefixFlag :: "string \<times> string" where "databasePrefixFlag = (''database-prefix'', envPrefix @ ''DATABASE_PREFIX'')"
definition baseURLFlag :: "string \<times> string" where "baseURLFlag = (''base-url'', envPrefix @ ''BASE_URL'')"
definition tlsSystemCertPoolFlag :: "string \<times> string" where
  "tlsSystemCertPoolFlag = (''tls-systemcertpool'', envPrefix @ ''TLS_SYSTEMCERTPOOL'')"
definition tlsCACertsFlag :: "string \<times> string" where "tlsCACertsFlag = (''tls-cacerts'', envPrefix @ ''TLS_CACERTS'')"
definition issuersFlag :: "string \<times> string" where "issuersFlag = (''issuers'', envPrefix @ ''ISSUERS'')"
definition tlsServeCertPathFlag :: "string \<times> string" where "tlsServeCertPathFlag = (''tls-serve-cert'', envPrefix @ ''TLS_SERVE_CERT'')"
definition tlsServeKeyPathFlag :: "string \<times> string" where "tlsServeKeyPathFlag = (''tls-serve-key'', envPrefix @ ''TLS_SERVE_KEY'')"
definition devModeFlag :: "string \<times> string" where "devModeFlag = (''dev-mode'', envPrefix @ ''DEV_MODE'')"
definition contextProviderFlag :: "string \<times> string" where
  "contextProviderFlag = (''context-provider-url'', envPrefix @ ''CONTEXT_PROVIDER_URL'')"
definition trillianDBConnFlag :: "string \<times> string" where "trillianDBConnFlag = (''trillian-db-conn'', envPrefix @ ''TRILLIAN_DB_CONN'')"
definition readTokenFlag :: "string \<times> string" where "readTokenFlag = (''api-read-token'', envPrefix @ ''API_READ_TOKEN'')"
definition writeTokenFlag :: "string \<times> string" where "writeTokenFlag = (''api-write-token'', envPrefix @ ''API_WRITE_TOKEN'')"

text \<open>The flags that are defined, with their default values.\<close>

definition createFlags :: "(string \<times> string) list" where
  "createFlags =
     [(fst agentHostFlag, '':5678''), (fst agentMetricsHostFlag, '':9099''), (fst logsFlag, []),
      (fst datasourceNameFlag, ''mem://test''), (fst databasePrefixFlag, []), (fst baseURLFlag, []),
      (fst timeoutFlag, ''0''), (fst syncTimeoutFlag, ''3''), (fst tlsSystemCertPoolFlag, ''false''),
      (fst tlsCACertsFlag, []), (fst tlsServeCertPathFlag, []), (fst tlsServeKeyPathFlag, []),
      (fst issuersFlag, []), (fst devModeFlag, []), (fst contextProviderFlag, []), (fst trillianDBConnFlag, []),
      (fst kmsTypeFlag, []), (fst kmsEndpointFlag, []), (fst logSignActiveKeyIDFlag, []),
      (fst readTokenFlag, []), (fst writeTokenFlag, []), (fst kmsRegionFlag, [])]"

definition optional :: "cobra_Command \<Rightarrow> string \<times> string \<Rightarrow> string" where
  "optional c f = GetUserSetOptionalVarFromString c (fst f) (snd f)"

section \<open>Logs\<close>

text \<open>A log as configured; its ID and its client are set when the server starts.\<close>

record log_config =
  lc_Alias :: string
  lc_Permission :: string
  lc_Endpoint :: string
  lc_Issuers :: "string list"

record go_range =
  range_issuers :: "string list \<Rightarrow> string list"
  range_logs :: "log_config list \<Rightarrow> log_config list"

definition embeddedLogServerHost :: string where "embeddedLogServerHost = ''0.0.0.0:8090''"
definition embeddedLogSignerHost :: string where "embeddedLogSignerHost = ''0.0.0.0:8099''"

definition index :: "'a list \<Rightarrow> nat \<Rightarrow> err + 'a" where
  "index xs i = (if i < length xs then Inr (xs ! i)
     else Inl (ErrorString (''panic: runtime error: index out of range ['' @ FormatNat i @ ''] with length '' @ FormatNat (length xs))))"

text \<open>The first loop of \<open>parseLogs\<close>. The set of issuers of an alias is kept in the order of insertion.\<close>

fun issuers_loop :: "string list \<Rightarrow> (string \<rightharpoonup> string list) \<Rightarrow> err + (string \<rightharpoonup> string list)" where
  "issuers_loop [] issuersSet = Inr issuersSet"
| "issuers_loop (issuerRaw # rest) issuersSet =
     (let parts = Split (CHR ''@'') issuerRaw
      in case index parts 0 of Inl e \<Rightarrow> Inl e | Inr a \<Rightarrow>
        (case index parts 1 of Inl e \<Rightarrow> Inl e | Inr i \<Rightarrow>
           let alias = TrimSpace a; issuer = TrimSpace i;
               known = (case issuersSet alias of Some is \<Rightarrow> is | None \<Rightarrow> [])
           in issuers_loop rest (issuersSet(alias \<mapsto> (if issuer \<in> set known then known else known @ [issuer])))))"

text \<open>Alias, permission, endpoint, and whether the embedded server is needed.\<close>

definition parse_log :: "string \<Rightarrow> err + string \<times> string \<times> string \<times> bool" where
  "parse_log rawLog =
     (if Contains rawLog ''@'' then
        let parts = Split (CHR ''@'') rawLog; apParts = Split (CHR '':'') (parts ! 0)
        in case index apParts 0 of Inl e \<Rightarrow> Inl e | Inr alias \<Rightarrow>
          (case index apParts 1 of Inl e \<Rightarrow> Inl e | Inr permission \<Rightarrow>
            (case index parts 1 of Inl e \<Rightarrow> Inl e | Inr endpoint \<Rightarrow> Inr (alias, permission, endpoint, False)))
      else
        let parts = Split (CHR '':'') rawLog
        in case index parts 0 of Inl e \<Rightarrow> Inl e | Inr alias \<Rightarrow>
          (case index parts 1 of Inl e \<Rightarrow> Inl e | Inr permission \<Rightarrow>
             Inr (alias, permission, embeddedLogServerHost, True)))"

fun logs_loop :: "go_range \<Rightarrow> (string \<rightharpoonup> string list) \<Rightarrow> string list \<Rightarrow> (string \<times> log_config) list \<Rightarrow> bool \<Rightarrow>
    err + (string \<times> log_config) list \<times> bool" where
  "logs_loop R issuersSet [] logsSet starTrillian = Inr (logsSet, starTrillian)"
| "logs_loop R issuersSet (rawLog # rest) logsSet starTrillian =
     (case parse_log rawLog of
        Inl e \<Rightarrow> Inl e
      | Inr (alias, permission, endpoint, embedded) \<Rightarrow>
          let a = TrimSpace alias;
              logEntity = \<lparr>lc_Alias = a, lc_Permission = TrimSpace permission, lc_Endpoint = TrimSpace endpoint,
                lc_Issuers = (case issuersSet a of Some is \<Rightarrow> range_issuers R is | None \<Rightarrow> [])\<rparr>
          in logs_loop R issuersSet rest (AList.update a logEntity logsSet) (starTrillian \<or> embedded))"

definition parseLogs :: "go_range \<Rightarrow> string \<Rightarrow> string list \<Rightarrow> err + log_config list \<times> bool" where
  "parseLogs R logsRaw issuersRaw =
     (case issuers_loop issuersRaw Map.empty of
        Inl e \<Rightarrow> Inl e
      | Inr issuersSet \<Rightarrow>
          (case logs_loop R issuersSet (Split (CHR '','') logsRaw) [] False of
             Inl e \<Rightarrow> Inl e
           | Inr (logsSet, starTrillian) \<Rightarrow> Inr (range_logs R (map snd logsSet), starTrillian)))"

section \<open>Parameters\<close>

record kmsParameters =
  kmsType :: string
  kmsEndpoint :: string
  kmsRegion :: string
  logSignActiveKeyID :: string

definition kmsLocal :: string where "kmsLocal = ''local''"
definition kmsWeb :: string where "kmsWeb = ''web''"
definition kmsAWS :: string where "kmsAWS = ''aws''"

definition supportedKmsType :: "string \<Rightarrow> bool" where
  "supportedKmsType t \<longleftrightarrow> \<not> (t \<noteq> kmsLocal \<and> t \<noteq> kmsWeb \<and> t \<noteq> kmsAWS)"

definition getKmsParameters :: "cobra_Command \<Rightarrow> err + kmsParameters" where
  "getKmsParameters c =
     (case GetUserSetVarFromString c (fst kmsTypeFlag) (snd kmsTypeFlag) False of
        Inl e \<Rightarrow> Inl e
      | Inr t \<Rightarrow>
          if \<not> supportedKmsType t then Inl (ErrorString (''unsupported kms type: '' @ t))
          else Inr \<lparr>kmsType = t, kmsEndpoint = optional c kmsEndpointFlag, kmsRegion = optional c kmsRegionFlag,
                 logSignActiveKeyID = optional c logSignActiveKeyIDFlag\<rparr>)"

definition BuildKMSURL :: "string \<Rightarrow> string \<Rightarrow> string" where
  "BuildKMSURL base uri = (if HasPrefix uri ''/'' then base @ uri else uri)"

record tlsParameters =
  systemCertPool :: bool
  caCerts :: "string list"
  serveCertPath :: string
  serveKeyPath :: string

text \<open>\<open>strconv.NumError\<close>.\<close>

definition NumError :: "lib \<Rightarrow> string \<Rightarrow> string \<Rightarrow> num_error \<Rightarrow> err" where
  "NumError L fn num e = WrapError (''strconv.'' @ fn @ '': parsing '' @ Quote (print_table L) num @ '': '' @
     (case e of ErrSyntax \<Rightarrow> ''invalid syntax'' | ErrRange \<Rightarrow> ''value out of range''))
     (ErrorString (case e of ErrSyntax \<Rightarrow> ''invalid syntax'' | ErrRange \<Rightarrow> ''value out of range''))"

definition getTLS :: "lib \<Rightarrow> cobra_Command \<Rightarrow> err + tlsParameters" where
  "getTLS L c =
     (let pool = optional c tlsSystemCertPoolFlag; certs = optional c tlsCACertsFlag
      in case (if pool \<noteq> [] then ParseBool pool else Inr False) of
           Inl e \<Rightarrow> Inl (wrapf ''parse cert pool'' (NumError L ''ParseBool'' pool e))
         | Inr b \<Rightarrow> Inr \<lparr>systemCertPool = b, caCerts = (if certs \<noteq> [] then Split (CHR '','') certs else []),
              serveCertPath = optional c tlsServeCertPathFlag, serveKeyPath = optional c tlsServeKeyPathFlag\<rparr>)"

definition getDBParams :: "string \<Rightarrow> err + string \<times> string" where
  "getDBParams dbURL =
     (case SplitN2 (CHR '':'') dbURL of
        [driver, rest] \<Rightarrow> Inr (driver, TrimPrefix rest ''//'')
      | _ \<Rightarrow> Inl (ErrorString (''invalid dbURL '' @ dbURL)))"

record agentParameters =
  ap_logs :: "log_config list"
  ap_host :: string
  ap_metricsHost :: string
  ap_baseURL :: string
  datasourceName :: string
  ap_timeout :: uint64
  ap_syncTimeout :: uint64
  databasePrefix :: string
  contextProviderURLs :: "string list"
  tlsParams :: tlsParameters
  devMode :: bool
  kmsParams :: kmsParameters
  readToken :: string
  writeToken :: string

text \<open>The embedded Trillian servers that are started, with the connection string of their database.\<close>

record embedded =
  em_PGConnStr :: string
  em_StorageSystem :: string

definition createStartCMD :: "lib \<Rightarrow> go_range \<Rightarrow> cobra_Command \<Rightarrow> err + agentParameters \<times> embedded option" where
  "createStartCMD L R c =
     (let host = optional c agentHostFlag; metricsHost = optional c agentMetricsHostFlag;
          dsn = optional c datasourceNameFlag; prefix = optional c databasePrefixFlag
      in case GetUserSetVarFromString c (fst baseURLFlag) (snd baseURLFlag) False of Inl e \<Rightarrow> Inl e | Inr url \<Rightarrow>
         let timeoutStr = optional c timeoutFlag; syncTimeoutStr = optional c syncTimeoutFlag;
             issuersStr = optional c issuersFlag; devModeStr = optional c devModeFlag;
             urls = optional c contextProviderFlag; trillianDBConnStr = optional c trillianDBConnFlag
         in case getKmsParameters c of Inl e \<Rightarrow> Inl e | Inr kp \<Rightarrow>
         let issuers = (if issuersStr \<noteq> [] then Split (CHR '','') issuersStr else []);
             timeoutStr = (if timeoutStr = [] then ''0'' else timeoutStr);
             syncTimeoutStr = (if syncTimeoutStr = [] then ''3'' else syncTimeoutStr)
         in case ParseUint timeoutStr of
              Inl e \<Rightarrow> Inl (wrapf ''timeout is not a number(positive)'' (NumError L ''ParseUint'' timeoutStr e)) | Inr timeout \<Rightarrow>
         (case ParseUint syncTimeoutStr of
              Inl e \<Rightarrow> Inl (wrapf ''sync timeout is not a number(positive)'' (NumError L ''ParseUint'' syncTimeoutStr e)) | Inr syncTimeout \<Rightarrow>
         (case getTLS L c of Inl e \<Rightarrow> Inl (wrapf ''get TLS'' e) | Inr tls \<Rightarrow>
         (case GetUserSetVarFromString c (fst logsFlag) (snd logsFlag) False of
              Inl e \<Rightarrow> Inl (wrapf (''get variable ('' @ fst logsFlag @ '' or '' @ snd logsFlag @ '')'') e) | Inr logsVal \<Rightarrow>
         (case (if devModeStr \<noteq> [] then ParseBool devModeStr else Inr False) of
              Inl e \<Rightarrow> Inl (wrapf ''dev mode is not a bool'' (NumError L ''ParseBool'' devModeStr e)) | Inr dev \<Rightarrow>
         (case parseLogs R logsVal issuers of Inl e \<Rightarrow> Inl e | Inr (ls, starTrillian) \<Rightarrow>
            Inr (\<lparr>ap_logs = ls, ap_host = host, ap_metricsHost = metricsHost, ap_baseURL = url,
                  datasourceName = (if dsn = [] then ''mem://test'' else dsn), ap_timeout = timeout, ap_syncTimeout = syncTimeout,
                  databasePrefix = prefix, contextProviderURLs = (if urls \<noteq> [] then Split (CHR '','') urls else []),
                  tlsParams = tls, devMode = dev, kmsParams = kp,
                  readToken = optional c readTokenFlag, writeToken = optional c writeTokenFlag\<rparr>,
                 if starTrillian then Some \<lparr>em_PGConnStr = trillianDBConnStr,
                   em_StorageSystem = (if trillianDBConnStr \<noteq> [] then ''postgres'' else ''mem'')\<rparr> else None)))))))"

section \<open>Reading back a configuration of logs\<close>

text \<open>An alias, a permission or an issuer as it can be written in the configuration, and an endpoint.\<close>

definition field_ok :: "string \<Rightarrow> bool" where
  "field_ok s \<longleftrightarrow> CHR '','' \<notin> set s \<and> CHR '':'' \<notin> set s \<and> CHR ''@'' \<notin> set s \<and> TrimSpace s = s"

definition endpoint_ok :: "string \<Rightarrow> bool" where
  "endpoint_ok s \<longleftrightarrow> CHR '','' \<notin> set s \<and> CHR ''@'' \<notin> set s \<and> TrimSpace s = s"

text \<open>The documented format of a log and of an issuer.\<close>

fun log_text :: "string \<times> string \<times> string option \<Rightarrow> string" where
  "log_text (alias, permission, None) = alias @ '':'' @ permission"
| "log_text (alias, permission, Some endpoint) = alias @ '':'' @ permission @ ''@'' @ endpoint"

definition issuer_text :: "string \<times> string \<Rightarrow> string" where
  "issuer_text ai = fst ai @ ''@'' @ snd ai"

definition log_ok_text :: "string \<times> string \<times> string option \<Rightarrow> bool" where
  "log_ok_text l \<longleftrightarrow> (case l of (alias, permission, e) \<Rightarrow> field_ok alias \<and> field_ok permission \<and>
     (case e of None \<Rightarrow> True | Some endpoint \<Rightarrow> endpoint_ok endpoint))"

definition endpoint_of :: "string option \<Rightarrow> string" where
  "endpoint_of e = (case e of None \<Rightarrow> embeddedLogServerHost | Some endpoint \<Rightarrow> endpoint)"

definition range_ok :: "go_range \<Rightarrow> bool" where
  "range_ok R \<longleftrightarrow> (\<forall>xs. mset (range_issuers R xs) = mset xs) \<and> (\<forall>xs. mset (range_logs R xs) = mset xs)"

lemma Split_fields:
  "sep \<notin> set a \<Longrightarrow> sep \<notin> set b \<Longrightarrow> Split sep (a @ sep # b) = [a, b]"
  by (simp add: Split_append Split_no_sep)

lemma parse_log_text:
  "log_ok_text (a, p, e) \<Longrightarrow> parse_log (log_text (a, p, e)) = Inr (a, p, endpoint_of e, e = None)"
  by (cases e)
    (simp_all add: log_ok_text_def field_ok_def endpoint_ok_def endpoint_of_def parse_log_def Contains_char Let_def index_def
      Split_fields Split_fields [of "CHR ''@''" "a @ CHR '':'' # p", simplified])

lemma trim_left_none:
  assumes "\<forall>w\<in>set ws. w = [] \<or> hd w \<noteq> c"
  shows "trim_left ws (c # cs) = c # cs"
proof -
  have "\<not> prefix w (c # cs)" if "w \<in> set ws" "w \<noteq> []" for w
    using assms that by (cases w) auto
  then have "find (\<lambda>w. w \<noteq> [] \<and> prefix w (c # cs)) ws = None" by (auto simp: find_None_iff)
  then show ?thesis by simp
qed

definition graphic :: "char \<Rightarrow> bool" where
  "graphic c \<longleftrightarrow> 48 \<le> (of_char c :: nat) \<and> of_char c < (128 :: nat)"

lemma space_runes_ends:
  "\<forall>w\<in>set space_runes. \<not> graphic (hd w)" "\<forall>w\<in>set (map rev space_runes). \<not> graphic (hd w)"
  by (simp_all add: space_runes_def graphic_def upt_rec)

lemma TrimSpace_graphic:
  assumes "s = [] \<or> graphic (hd s) \<and> graphic (last s)"
  shows "TrimSpace s = s"
proof (cases s)
  case Nil
  then show ?thesis by (simp add: TrimSpace_def)
next
  case (Cons c cs)
  have "trim_left space_runes s = s"
    unfolding Cons using assms space_runes_ends(1) Cons by (intro trim_left_none) auto
  moreover have "trim_left (map rev space_runes) (last s # rev (butlast s)) = last s # rev (butlast s)"
    using assms space_runes_ends(2) Cons by (intro trim_left_none) auto
  moreover have "rev s = last s # rev (butlast s)" using Cons by (simp flip: rev_append)
  ultimately show ?thesis unfolding TrimSpace_def by (metis rev_rev_ident)
qed

lemma log_text_no_comma: "log_ok_text l \<Longrightarrow> CHR '','' \<notin> set (log_text l)"
  by (cases l rule: log_text.cases) (simp_all add: log_ok_text_def field_ok_def endpoint_ok_def)

lemma embedded_trim: "TrimSpace embeddedLogServerHost = embeddedLogServerHost"
  by (rule TrimSpace_graphic) (simp add: embeddedLogServerHost_def graphic_def)

text \<open>The sets of issuers that the first loop collects.\<close>

lemma issuers_loop_text:
  assumes "\<forall>(a, i)\<in>set is. field_ok a \<and> endpoint_ok i"
    and "\<forall>a xs. m a = Some xs \<longrightarrow> distinct xs"
  shows "\<exists>m'. issuers_loop (map issuer_text is) m = Inr m' \<and> (\<forall>a xs. m' a = Some xs \<longrightarrow> distinct xs) \<and>
     (\<forall>a. set (case m' a of Some xs \<Rightarrow> xs | None \<Rightarrow> []) = set (case m a of Some xs \<Rightarrow> xs | None \<Rightarrow> []) \<union> {i. (a, i) \<in> set is})"
  using assms
proof (induction "is" arbitrary: m)
  case (Cons ai "is")
  obtain a i where ai: "ai = (a, i)" by fastforce
  define xs where "xs = (case m a of Some xs \<Rightarrow> xs | None \<Rightarrow> [])"
  define m1 where "m1 = m(a \<mapsto> (if i \<in> set xs then xs else xs @ [i]))"
  have ok: "field_ok a" "endpoint_ok i" using Cons.prems(1) ai by auto
  then have "Split (CHR ''@'') (issuer_text ai) = [a, i]"
    by (simp add: ai issuer_text_def field_ok_def endpoint_ok_def Split_fields)
  then have step: "issuers_loop (map issuer_text (ai # is)) m = issuers_loop (map issuer_text is) m1"
    using ok unfolding m1_def xs_def by (auto simp: index_def field_ok_def endpoint_ok_def Let_def)
  have "\<forall>b ys. m1 b = Some ys \<longrightarrow> distinct ys"
    using Cons.prems(2) by (auto simp: m1_def xs_def split: option.splits)
  with Cons.IH [of m1] Cons.prems(1) obtain m' where m': "issuers_loop (map issuer_text is) m1 = Inr m'"
    "\<forall>b ys. m' b = Some ys \<longrightarrow> distinct ys"
    "\<forall>b. set (case m' b of Some xs \<Rightarrow> xs | None \<Rightarrow> []) = set (case m1 b of Some xs \<Rightarrow> xs | None \<Rightarrow> []) \<union> {j. (b, j) \<in> set is}"
    by auto
  have "set (case m1 b of Some xs \<Rightarrow> xs | None \<Rightarrow> []) \<union> {j. (b, j) \<in> set is}
      = set (case m b of Some xs \<Rightarrow> xs | None \<Rightarrow> []) \<union> {j. (b, j) \<in> set (ai # is)}" for b
    by (auto simp: m1_def xs_def ai split: if_splits)
  with step m' show ?case by auto
qed simp

definition log_of :: "go_range \<Rightarrow> (string \<rightharpoonup> string list) \<Rightarrow> string \<times> string \<times> string option \<Rightarrow> log_config" where
  "log_of R m l = (case l of (alias, permission, e) \<Rightarrow>
     \<lparr>lc_Alias = alias, lc_Permission = permission, lc_Endpoint = endpoint_of e,
      lc_Issuers = (case m alias of Some is \<Rightarrow> range_issuers R is | None \<Rightarrow> [])\<rparr>)"

lemma logs_loop_text:
  assumes "\<forall>l\<in>set ls. log_ok_text l" "distinct (map fst ls)" "fst ` set ls \<inter> fst ` set acc = {}"
  shows "logs_loop R m (map log_text ls) acc b
    = Inr (acc @ map (\<lambda>l. (fst l, log_of R m l)) ls, b \<or> (\<exists>l\<in>set ls. snd (snd l) = None))"
  using assms
proof (induction ls arbitrary: acc b)
  case (Cons l ls)
  obtain a p e where l: "l = (a, p, e)" by (metis prod_cases3)
  then have ok: "log_ok_text (a, p, e)" using Cons.prems(1) by simp
  then have trim: "TrimSpace a = a" "TrimSpace p = p" "TrimSpace (endpoint_of e) = endpoint_of e"
    by (auto simp: log_ok_text_def field_ok_def endpoint_ok_def endpoint_of_def embedded_trim split: option.splits)
  have "a \<notin> fst ` set acc" using Cons.prems(3) l by auto
  then have "AList.update a (log_of R m l) acc = acc @ [(a, log_of R m l)]"
    by (induction acc) auto
  with parse_log_text [OF ok] trim l
  have "logs_loop R m (map log_text (l # ls)) acc b = logs_loop R m (map log_text ls) (acc @ [(a, log_of R m l)]) (b \<or> e = None)"
    by (simp add: Let_def log_of_def)
  with Cons.IH [of "acc @ [(a, log_of R m l)]" "b \<or> e = None"] Cons.prems l show ?case by auto
qed simp

text \<open>
  C16: A configuration of logs and issuers that is written in the documented format is read back: there
  is one log for each alias, with its permission, its endpoint (that of the embedded server when none is
  given) and exactly the issuers that are configured for its alias, each once. The embedded server is
  started exactly when some log has no endpoint. This does not depend on the order in which Go
  traverses maps.
\<close>

theorem parseLogs_reads_config:
  assumes "range_ok R" and ls: "ls \<noteq> []" "\<forall>l\<in>set ls. log_ok_text l" "distinct (map fst ls)"
    and "is": "\<forall>(a, i)\<in>set is. field_ok a \<and> endpoint_ok i"
  shows "\<exists>logs. parseLogs R (join (CHR '','') (map log_text ls)) (map issuer_text is)
       = Inr (logs, \<exists>l\<in>set ls. snd (snd l) = None) \<and>
     mset (map (\<lambda>c. (lc_Alias c, lc_Permission c, lc_Endpoint c)) logs) = mset (map (\<lambda>(a, p, e). (a, p, endpoint_of e)) ls) \<and>
     (\<forall>c\<in>set logs. distinct (lc_Issuers c) \<and> set (lc_Issuers c) = {i. (lc_Alias c, i) \<in> set is})"
proof -
  obtain m where m: "issuers_loop (map issuer_text is) Map.empty = Inr m" "\<forall>a xs. m a = Some xs \<longrightarrow> distinct xs"
    "\<forall>a. set (case m a of Some xs \<Rightarrow> xs | None \<Rightarrow> []) = {i. (a, i) \<in> set is}"
    using issuers_loop_text [OF "is", of Map.empty] by auto
  have "\<forall>x\<in>set (map log_text ls). CHR '','' \<notin> set x"
    using ls(2) log_text_no_comma by auto
  then have "Split (CHR '','') (join (CHR '','') (map log_text ls)) = map log_text ls"
    using ls(1) by (intro Split_join) auto
  then have run: "parseLogs R (join (CHR '','') (map log_text ls)) (map issuer_text is)
      = Inr (range_logs R (map (log_of R m) ls), \<exists>l\<in>set ls. snd (snd l) = None)"
    using logs_loop_text [OF ls(2,3), of "[]" R m False] m(1) by (simp add: parseLogs_def comp_def)
  have perm: "mset (range_logs R (map (log_of R m) ls)) = mset (map (log_of R m) ls)"
    using assms(1) by (simp add: range_ok_def)
  let ?key = "\<lambda>c. (lc_Alias c, lc_Permission c, lc_Endpoint c)"
  have "mset (map ?key (range_logs R (map (log_of R m) ls))) = mset (map ?key (map (log_of R m) ls))"
    using perm by (metis mset_map)
  also have "map ?key (map (log_of R m) ls) = map (\<lambda>(a, p, e). (a, p, endpoint_of e)) ls"
    by (auto simp: log_of_def)
  finally have "mset (map ?key (range_logs R (map (log_of R m) ls))) = mset (map (\<lambda>(a, p, e). (a, p, endpoint_of e)) ls)" .
  moreover have "distinct (lc_Issuers (log_of R m l)) \<and> set (lc_Issuers (log_of R m l)) = {i. (lc_Alias (log_of R m l), i) \<in> set is}" for l
  proof -
    have "mset (range_issuers R xs) = mset xs" for xs using assms(1) by (simp add: range_ok_def)
    then have "distinct (range_issuers R xs) = distinct xs" "set (range_issuers R xs) = set xs" for xs
      by (metis mset_eq_imp_distinct_iff, metis mset_eq_setD)
    with m(2,3) show ?thesis by (auto simp: log_of_def split: option.splits prod.splits)
  qed
  moreover have "set (range_logs R (map (log_of R m) ls)) = log_of R m ` set ls"
    using mset_eq_setD [OF perm] by simp
  ultimately show ?thesis
    using run by (intro exI [of _ "range_logs R (map (log_of R m) ls)"]) (simp del: mset_map)
qed

theorem parseLogs_reads_config_witness:
  "\<exists>logs. parseLogs \<lparr>range_issuers = rev, range_logs = rev\<rparr> ''maple2021:rw@server.com,maple2020:r'' [''maple2021@did:web:a'']
     = Inr (logs, True) \<and>
   mset (map (\<lambda>c. (lc_Alias c, lc_Permission c, lc_Endpoint c)) logs)
     = mset [(''maple2021'', ''rw'', ''server.com''), (''maple2020'', ''r'', ''0.0.0.0:8090'')]"
proof -
  have "range_ok \<lparr>range_issuers = rev, range_logs = rev\<rparr>" by (simp add: range_ok_def)
  moreover have "log_ok_text (''maple2021'', ''rw'', Some ''server.com'')" "log_ok_text (''maple2020'', ''r'', None)"
    "field_ok ''maple2021''" "endpoint_ok ''did:web:a''"
    by (simp_all add: log_ok_text_def field_ok_def endpoint_ok_def TrimSpace_graphic graphic_def)
  ultimately show ?thesis
    using parseLogs_reads_config [of "\<lparr>range_issuers = rev, range_logs = rev\<rparr>"
        "[(''maple2021'', ''rw'', Some ''server.com''), (''maple2020'', ''r'', None)]" "[(''maple2021'', ''did:web:a'')]"]
    by (auto simp: issuer_text_def endpoint_of_def embeddedLogServerHost_def)
qed

section \<open>Defaults\<close>

text \<open>
  A flag counts only when it is set on the command line, so that the default addresses of the two hosts
  are never used: without a flag and a variable they are empty.
\<close>

lemma optional_unset: "\<not> flag_Changed c (fst f) \<Longrightarrow> os_LookupEnv c (snd f) = None \<Longrightarrow> optional c f = []"
  by (simp add: optional_def GetUserSetOptionalVarFromString_def GetUserSetVarFromString_def Let_def)

lemma createStartCMD_hosts:
  "createStartCMD L R c = Inr (p, e) \<Longrightarrow> ap_host p = optional c agentHostFlag \<and> ap_metricsHost p = optional c agentMetricsHostFlag"
  by (auto simp: createStartCMD_def Let_def split: sum.splits)

lemma default_host_unused:
  assumes "createStartCMD L R c = Inr (p, e)" "\<not> flag_Changed c (fst agentHostFlag)" "os_LookupEnv c (snd agentHostFlag) = None"
  shows "ap_host p = [] \<and> map_of createFlags (fst agentHostFlag) = Some '':5678''"
  using createStartCMD_hosts [OF assms(1)] optional_unset [OF assms(2,3)] by (simp add: createFlags_def)

section \<open>Malformed configurations\<close>

text \<open>An entry without a colon makes the server panic instead of being reported.\<close>

lemma parse_log_panics:
  assumes "CHR ''@'' \<notin> set raw" "CHR '':'' \<notin> set raw"
  shows "parse_log raw = Inl (ErrorString ''panic: runtime error: index out of range [1] with length 1'')"
proof -
  have "index [raw] 1 = Inl (ErrorString ''panic: runtime error: index out of range [1] with length 1'')"
    by (simp add: index_def) code_simp
  with assms show ?thesis by (simp add: parse_log_def Contains_char Split_no_sep index_def)
qed

end
