(* ===== verification/TlsUtil.thy ===== *)
theory TlsUtil
  imports Errors
begin

text \<open>
  \<open>internal/pkg/tlsutil\<close>: the pool of certificates that the server trusts. A certificate has the address
  of its object, by which \<open>removeDuplicates\<close> compares, and its DER encoding, by which \<open>Equal\<close> does. A pool
  of \<open>crypto/x509\<close> is the list of its certificates; \<open>AddCert\<close> leaves out one that it holds. The file
  system and the decoders of PEM and of certificates are fields of \<open>tlslib\<close>. The operations run one
  after the other.
\<close>

record Certificate =
  cert_addr :: nat
  RawSubject :: bytes
  Raw :: bytes

record tlslib =
  x509_SystemCertPool :: "err + Certificate list"
  path_Clean :: "string \<Rightarrow> string"
  ReadFile :: "string \<Rightarrow> err + bytes"
  pem_Decode :: "bytes \<Rightarrow> bytes option"
  ParseCertificate :: "bytes \<Rightarrow> err + Certificate"

definition AddCert :: "Certificate list \<Rightarrow> Certificate \<Rightarrow> Certificate list" where
  "AddCert pool c = (if Raw c \<in> Raw ` set pool then pool else pool @ [c])"

record CertPool =
  cp_certPool :: "Certificate list"
  cp_certs :: "Certificate list"
  certsByName :: "bytes \<Rightarrow> nat list"
  dirty :: bool
  cp_systemCertPool :: bool

definition loadSystemCertPool :: "tlslib \<Rightarrow> bool \<Rightarrow> err + Certificate list" where
  "loadSystemCertPool T useSystemCertPool = (if \<not> useSystemCertPool then Inr [] else x509_SystemCertPool T)"

definition NewCertPool :: "tlslib \<Rightarrow> bool \<Rightarrow> err + CertPool" where
  "NewCertPool T useSystemCertPool =
     (case loadSystemCertPool T useSystemCertPool of
        Inl e \<Rightarrow> Inl e
      | Inr c \<Rightarrow> Inr \<lparr>cp_certPool = c, cp_certs = [], certsByName = (\<lambda>_. []), dirty = False,
                    cp_systemCertPool = useSystemCertPool\<rparr>)"

definition swapCertPool :: "tlslib \<Rightarrow> CertPool \<Rightarrow> err + CertPool" where
  "swapCertPool T c =
     (case loadSystemCertPool T (cp_systemCertPool c) of
        Inl e \<Rightarrow> Inl e
      | Inr newCertPool \<Rightarrow> Inr (c\<lparr>cp_certPool := foldl AddCert newCertPool (cp_certs c)\<rparr>))"

definition cp_Get :: "tlslib \<Rightarrow> CertPool \<Rightarrow> (err + Certificate list) \<times> CertPool" where
  "cp_Get T c =
     (if dirty c then
        (case swapCertPool T (c\<lparr>dirty := False\<rparr>) of
           Inl e \<Rightarrow> (Inl e, c\<lparr>dirty := False\<rparr>)
         | Inr c' \<Rightarrow> (Inr (cp_certPool c'), c'))
      else (Inr (cp_certPool c), c))"

fun removeDuplicates :: "Certificate list \<Rightarrow> nat set \<Rightarrow> Certificate list" where
  "removeDuplicates [] encountered = []"
| "removeDuplicates (c # cs) encountered =
     (if cert_addr c \<notin> encountered then c # removeDuplicates cs (insert (cert_addr c) encountered)
      else removeDuplicates cs encountered)"

text \<open>A nil certificate is \<open>None\<close>.\<close>

definition filterCerts :: "CertPool \<Rightarrow> Certificate option list \<Rightarrow> Certificate list" where
  "filterCerts c certs = removeDuplicates (List.map_filter (\<lambda>cert. case cert of
      None \<Rightarrow> None
    | Some x \<Rightarrow> if \<exists>p\<in>set (certsByName c (RawSubject x)). Raw (cp_certs c ! p) = Raw x then None else Some x) certs) {}"

definition add_one :: "CertPool \<Rightarrow> Certificate \<Rightarrow> CertPool" where
  "add_one c newCert = c\<lparr>certsByName := (certsByName c)(RawSubject newCert := certsByName c (RawSubject newCert) @ [length (cp_certs c)]),
     cp_certs := cp_certs c @ [newCert]\<rparr>"

definition cp_Add :: "Certificate option list \<Rightarrow> CertPool \<Rightarrow> CertPool" where
  "cp_Add certs c =
     (if certs = [] then c
      else let certsToBeAdded = filterCerts c certs
           in if certsToBeAdded \<noteq> [] then (foldl add_one c certsToBeAdded)\<lparr>dirty := True\<rparr> else c)"

fun load_certs :: "tlslib \<Rightarrow> string list \<Rightarrow> CertPool \<Rightarrow> err + CertPool" where
  "load_certs T [] c = Inr c"
| "load_certs T (v # vs) c =
     (case ReadFile T (path_Clean T v) of
        Inl e \<Rightarrow> Inl (wrapf ''failed to read cert'' e)
      | Inr bytes \<Rightarrow> (case pem_Decode T bytes of
          None \<Rightarrow> Inl (ErrorString ''failed to decode pem'')
        | Some block \<Rightarrow> (case ParseCertificate T block of
            Inl e \<Rightarrow> Inl (wrapf ''failed to parse cert'' e)
          | Inr cert \<Rightarrow> load_certs T vs (cp_Add [Some cert] c))))"

definition GetCertPool :: "tlslib \<Rightarrow> bool \<Rightarrow> string list \<Rightarrow> err + Certificate list" where
  "GetCertPool T useSystemCertPool tlsCACerts =
     (case NewCertPool T useSystemCertPool of
        Inl e \<Rightarrow> Inl (wrapf ''failed to create new cert pool'' e)
      | Inr certPool \<Rightarrow> (case load_certs T tlsCACerts certPool of
          Inl e \<Rightarrow> Inl e
        | Inr certPool' \<Rightarrow> fst (cp_Get T certPool')))"

section \<open>The index and the queue agree\<close>

text \<open>
  The index finds exactly the certificates with a subject, and what has been added to the pool since it
  was read is announced by \<open>dirty\<close>.
\<close>

definition cert_index_ok :: "CertPool \<Rightarrow> bool" where
  "cert_index_ok c \<longleftrightarrow> (\<forall>n p. p \<in> set (certsByName c n) \<longleftrightarrow> p < length (cp_certs c) \<and> RawSubject (cp_certs c ! p) = n)"

text \<open>A subject is part of the encoding of its certificate.\<close>

definition subjects_ok :: "Certificate set \<Rightarrow> bool" where
  "subjects_ok C \<longleftrightarrow> (\<forall>a\<in>C. \<forall>b\<in>C. Raw a = Raw b \<longrightarrow> RawSubject a = RawSubject b)"

definition pool_ok :: "Certificate list \<Rightarrow> CertPool \<Rightarrow> bool" where
  "pool_ok system c \<longleftrightarrow> cert_index_ok c \<and> (\<not> dirty c \<longrightarrow> Raw ` set (cp_certPool c) = Raw ` set system \<union> Raw ` set (cp_certs c))"

lemma AddCert_fold: "Raw ` set (foldl AddCert pool cs) = Raw ` set pool \<union> Raw ` set cs"
  by (induction cs arbitrary: pool) (auto simp: AddCert_def)

lemma add_one_index: "cert_index_ok c \<Longrightarrow> cert_index_ok (add_one c x)"
  by (auto simp: cert_index_ok_def add_one_def nth_append less_Suc_eq)

lemma add_one_fold:
  "cert_index_ok c \<Longrightarrow> cert_index_ok (foldl add_one c xs) \<and> cp_certs (foldl add_one c xs) = cp_certs c @ xs \<and>
     cp_certPool (foldl add_one c xs) = cp_certPool c \<and> cp_systemCertPool (foldl add_one c xs) = cp_systemCertPool c"
proof (induction xs arbitrary: c)
  case (Cons x xs)
  then show ?case using Cons.IH [OF add_one_index [OF Cons.prems]] by (simp add: add_one_def)
qed simp

lemma index_finds:
  assumes "cert_index_ok c" "subjects_ok (insert x (set (cp_certs c)))"
  shows "(\<exists>p\<in>set (certsByName c (RawSubject x)). Raw (cp_certs c ! p) = Raw x) \<longleftrightarrow> Raw x \<in> Raw ` set (cp_certs c)"
proof
  assume "Raw x \<in> Raw ` set (cp_certs c)"
  then obtain p where p: "p < length (cp_certs c)" "Raw (cp_certs c ! p) = Raw x" by (auto simp: in_set_conv_nth)
  then have "RawSubject (cp_certs c ! p) = RawSubject x" using assms(2) by (auto simp: subjects_ok_def)
  with p assms(1) show "\<exists>p\<in>set (certsByName c (RawSubject x)). Raw (cp_certs c ! p) = Raw x"
    by (auto simp: cert_index_ok_def)
next
  assume "\<exists>p\<in>set (certsByName c (RawSubject x)). Raw (cp_certs c ! p) = Raw x"
  with assms(1) show "Raw x \<in> Raw ` set (cp_certs c)"
    by (auto simp: cert_index_ok_def intro!: image_eqI [where f = Raw, OF sym])
qed

lemma Add_one_cert:
  assumes "pool_ok sys c" "subjects_ok (insert x (set (cp_certs c)))"
  shows "pool_ok sys (cp_Add [Some x] c)" "set (cp_certs (cp_Add [Some x] c)) \<subseteq> insert x (set (cp_certs c))"
    "Raw ` set (cp_certs (cp_Add [Some x] c)) = insert (Raw x) (Raw ` set (cp_certs c))"
    "cp_systemCertPool (cp_Add [Some x] c) = cp_systemCertPool c"
proof -
  have ix: "cert_index_ok c" using assms(1) by (simp add: pool_ok_def)
  have f: "filterCerts c [Some x] = (if Raw x \<in> Raw ` set (cp_certs c) then [] else [x])"
    using index_finds [OF ix assms(2)] by (simp add: filterCerts_def map_filter_simps)
  show "pool_ok sys (cp_Add [Some x] c)" "set (cp_certs (cp_Add [Some x] c)) \<subseteq> insert x (set (cp_certs c))"
    "Raw ` set (cp_certs (cp_Add [Some x] c)) = insert (Raw x) (Raw ` set (cp_certs c))"
    "cp_systemCertPool (cp_Add [Some x] c) = cp_systemCertPool c"
    using assms(1) add_one_index [OF ix, of x]
    by (auto simp: cp_Add_def f pool_ok_def cert_index_ok_def add_one_def)
qed

section \<open>What the server trusts\<close>

definition read_cert :: "tlslib \<Rightarrow> string \<Rightarrow> Certificate option" where
  "read_cert T v = (case ReadFile T (path_Clean T v) of
      Inl _ \<Rightarrow> None
    | Inr bytes \<Rightarrow> (case pem_Decode T bytes of
        None \<Rightarrow> None
      | Some block \<Rightarrow> (case ParseCertificate T block of Inl _ \<Rightarrow> None | Inr cert \<Rightarrow> Some cert)))"

definition parsed_certs :: "tlslib \<Rightarrow> Certificate set" where
  "parsed_certs T = {x. \<exists>b. ParseCertificate T b = Inr x}"

lemma subjects_ok_mono: "subjects_ok C \<Longrightarrow> D \<subseteq> C \<Longrightarrow> subjects_ok D"
  unfolding subjects_ok_def by blast

lemma load_certs_Cons:
  "load_certs T (v # vs) c = Inr c' \<Longrightarrow>
     \<exists>x. read_cert T v = Some x \<and> x \<in> parsed_certs T \<and> load_certs T vs (cp_Add [Some x] c) = Inr c'"
  by (auto simp: read_cert_def parsed_certs_def split: sum.splits option.splits)

lemma load_certs_ok:
  assumes "load_certs T vs c = Inr c'" "pool_ok system c" "set (cp_certs c) \<subseteq> parsed_certs T" "subjects_ok (parsed_certs T)"
  shows "pool_ok system c' \<and> cp_systemCertPool c' = cp_systemCertPool c \<and> (\<forall>v\<in>set vs. read_cert T v \<noteq> None) \<and>
    Raw ` set (cp_certs c') = Raw ` set (cp_certs c) \<union> {Raw x | x v. v \<in> set vs \<and> read_cert T v = Some x}"
  using assms(1-3)
proof (induction vs arbitrary: c)
  case (Cons v vs)
  obtain x where x: "read_cert T v = Some x" "x \<in> parsed_certs T" and l: "load_certs T vs (cp_Add [Some x] c) = Inr c'"
    using load_certs_Cons [OF Cons.prems(1)] by blast
  have "subjects_ok (insert x (set (cp_certs c)))"
    by (rule subjects_ok_mono [OF assms(4)]) (use x Cons.prems(3) in auto)
  note add = Add_one_cert [OF Cons.prems(2) this]
  have "set (cp_certs (cp_Add [Some x] c)) \<subseteq> parsed_certs T" using add(2) x(2) Cons.prems(3) by blast
  from Cons.IH [OF l add(1) this] add(3,4) x show ?case by auto
qed auto

text \<open>
  The pool that the server gets holds the system's certificates, if these are asked for, and those of the
  configured files, and no others; every file was read and parsed.
\<close>

theorem GetCertPool_trusts:
  assumes "GetCertPool T useSystem files = Inr pool" "subjects_ok (parsed_certs T)"
  obtains system where "loadSystemCertPool T useSystem = Inr system" "\<forall>v\<in>set files. read_cert T v \<noteq> None"
    "Raw ` set pool = Raw ` set system \<union> {Raw x | x v. v \<in> set files \<and> read_cert T v = Some x}"
proof -
  obtain c system where new: "NewCertPool T useSystem = Inr c" "loadSystemCertPool T useSystem = Inr system"
    using assms(1) by (auto simp: GetCertPool_def NewCertPool_def split: sum.splits)
  then have c: "c = \<lparr>cp_certPool = system, cp_certs = [], certsByName = \<lambda>_. [], dirty = False, cp_systemCertPool = useSystem\<rparr>"
    by (simp add: NewCertPool_def)
  obtain c' where l: "load_certs T files c = Inr c'" and g: "fst (cp_Get T c') = Inr pool"
    using assms(1) new(1) by (auto simp: GetCertPool_def split: sum.splits)
  have "pool_ok system c" by (simp add: c pool_ok_def cert_index_ok_def)
  from load_certs_ok [OF l this _ assms(2)] have ok: "pool_ok system c'" "cp_systemCertPool c' = useSystem"
    "\<forall>v\<in>set files. read_cert T v \<noteq> None" "Raw ` set (cp_certs c') = {Raw x | x v. v \<in> set files \<and> read_cert T v = Some x}"
    by (simp_all add: c)
  have "Raw ` set pool = Raw ` set system \<union> Raw ` set (cp_certs c')"
    using g ok(1,2) new(2) AddCert_fold [of system "cp_certs c'"]
    by (cases "dirty c'") (simp_all add: cp_Get_def swapCertPool_def pool_ok_def)
  then show thesis using that [OF new(2) ok(3)] ok(4) by simp
qed

end
