(* ===== verification/Agent.thy ===== *)
theory Agent
  imports Config TlsUtil
begin

text \<open>
  The start of the server and its authorization, \<open>cmd/vct/startcmd/start.go\<close>. The world \<open>'w\<close> is everything
  outside the process: databases, key managers, the log service, the clock and other instances of the
  server. What the start calls of other packages are the fields of \<open>configlib\<close> and \<open>agentlib\<close>; stores,
  providers, connections and sessions are handles. An HTTP client is the list of certificates that it
  trusts. A key or a value that is synchronized between instances is obtained by \<open>getOrInit\<close>, which may
  wait forever: \<open>None\<close> means that a call does not return.
\<close>

section \<open>Configuration values\<close>

text \<open>
  The store of configuration values, the clock, and the part of the log service that creates trees.
  \<open>RetryNotify_tree\<close> is \<open>backoff.RetryNotify\<close> with a constant delay of a second and at most \<open>timeout\<close>
  retries, on an operation that yields a tree.
\<close>

record 'w configlib =
  cl_print :: "nat \<Rightarrow> bool"
  ErrDataNotFound :: err
  store_Get :: "nat \<Rightarrow> string \<Rightarrow> ('w, bytes) action"
  store_Put :: "nat \<Rightarrow> string \<Rightarrow> bytes \<Rightarrow> ('w, unit) action"
  Sleep :: "int64 \<Rightarrow> 'w \<Rightarrow> 'w"
  Marshal_tree :: "Tree \<Rightarrow> err + bytes"
  Unmarshal_tree :: "bytes \<Rightarrow> err + Tree option"
  Marshal_string :: "string \<Rightarrow> err + bytes"
  Unmarshal_string :: "bytes \<Rightarrow> err + string"
  RetryNotify_tree :: "uint64 \<Rightarrow> ('w, Tree) action \<Rightarrow> ('w, Tree) action"
  rpc_CreateTree :: "nat \<Rightarrow> Tree \<Rightarrow> ('w, Tree) action"
  rpc_InitLog :: "nat \<Rightarrow> int64 \<Rightarrow> ('w, unit) action"

definition Second :: int64 where "Second = 1000000000"

definition config_error :: "'w configlib \<Rightarrow> string \<Rightarrow> string \<Rightarrow> err \<Rightarrow> err" where
  "config_error C what key e = wrapf (what @ '' config value for '' @ Quote (cl_print C) key) e"

text \<open>
  A value that is stored is a JSON text and so not empty; \<open>reflect.DeepEqual\<close> is equality then. \<open>unmarshal\<close>
  is \<open>json.Unmarshal\<close> at the type of the value.
\<close>

partial_function (option) getOrInit ::
    "'w configlib \<Rightarrow> nat \<Rightarrow> string \<Rightarrow> (bytes \<Rightarrow> err + 'v) \<Rightarrow> ('i \<Rightarrow> err + bytes) \<Rightarrow> ('w, 'i) action \<Rightarrow> uint64 \<Rightarrow> ('w, 'v) proc" where
  "getOrInit C cfg key unmarshal marshal initFn timeout w =
     (case store_Get C cfg key w of
        (Inl e, w1) \<Rightarrow>
          if \<not> errors_Is e (ErrDataNotFound C) then Some (Inl (config_error C ''get'' key e), w1)
          else (case initFn w1 of
              (Inl e, w2) \<Rightarrow> Some (Inl (config_error C ''init'' key e), w2)
            | (Inr val, w2) \<Rightarrow> (case marshal val of
                Inl e \<Rightarrow> Some (Inl (config_error C ''marshal'' key e), w2)
              | Inr src \<Rightarrow> (case store_Put C cfg key src w2 of
                  (Inl e, w3) \<Rightarrow> Some (Inl (config_error C ''marshal'' key e), w3)
                | (Inr _, w3) \<Rightarrow> getOrInit C cfg key unmarshal marshal initFn timeout w3)))
      | (Inr src, w1) \<Rightarrow>
          (case store_Get C cfg key (Sleep C (Second * timeout) w1) of
             (Inl e, w3) \<Rightarrow>
               if errors_Is e (ErrDataNotFound C) then getOrInit C cfg key unmarshal marshal initFn timeout w3
               else Some (Inl (config_error C ''get'' key e), w3)
           | (Inr src2, w3) \<Rightarrow>
               if src = src2 then Some (unmarshal src, w3)
               else getOrInit C cfg key unmarshal marshal initFn timeout w3))"

definition treeLogKey :: string where "treeLogKey = ''tree-log''"
definition kidKey :: string where "kidKey = ''kid''"
definition webKeyStoreKey :: string where "webKeyStoreKey = ''web-key-store''"

text \<open>An hour is \<open>3600 * Second\<close>; the fields that are not set have Go's zero values.\<close>

definition newTree :: Tree where
  "newTree = \<lparr>TreeId = 0, TreeState = TreeState_ACTIVE, TreeType = TreeType_LOG, DisplayName = [], Description = [],
     StorageSettings = None, MaxRootDuration = Some (3600 * Second), CreateTime = None, UpdateTime = None,
     Deleted = False, DeleteTime = None\<rparr>"

definition initTree :: "'w configlib \<Rightarrow> nat \<Rightarrow> uint64 \<Rightarrow> ('w, Tree) action" where
  "initTree C conn timeout =
     bnd (wrapping ''create tree'' (RetryNotify_tree C timeout (rpc_CreateTree C conn newTree)))
       (\<lambda>createdTree. bnd (rpc_InitLog C conn (TreeId createdTree)) (\<lambda>_. ret createdTree))"

definition createTreeAndInit :: "'w configlib \<Rightarrow> nat \<Rightarrow> nat \<Rightarrow> string \<Rightarrow> uint64 \<Rightarrow> uint64 \<Rightarrow> ('w, Tree option) proc" where
  "createTreeAndInit C conn cfg alias timeout syncTimeout =
     wrapped ''create and init tree''
       (getOrInit C cfg (treeLogKey @ ''-'' @ alias) (Unmarshal_tree C) (Marshal_tree C) (initTree C conn timeout) syncTimeout)"

section \<open>Providers\<close>

record 'w keyManager =
  km_base :: KeyManager
  km_Create :: "string \<Rightarrow> ('w, string) action"
  km_HealthCheck :: "('w, unit) action"

record 'w provider =
  prov_OpenStore :: "string \<Rightarrow> ('w, nat) action"
  prov_SetStoreConfig :: "string \<Rightarrow> string list \<Rightarrow> ('w, unit) action"
  prov_Close :: "('w, unit) action"

datatype handler = RestHandler endpoint | ContextHandler string nat

record 'w router =
  rt_cmd :: "'w Cmd"
  rt_routes :: "(string \<times> string \<times> handler) list"
  rt_auth :: "(string \<times> string) option"
  rt_cors :: "string list"

record 'w agentlib =
  ag_config :: "'w configlib"
  ag_lib :: lib
  ag_tls :: tlslib
  couchdb_NewProvider :: "string \<Rightarrow> string \<Rightarrow> ('w, 'w provider) action"
  mongodb_NewProvider :: "string \<Rightarrow> string \<Rightarrow> ('w, 'w provider) action"
  postgresql_NewProvider :: "string \<Rightarrow> string \<Rightarrow> ('w, 'w provider) action"
  mem_NewProvider :: "'w \<Rightarrow> 'w provider \<times> 'w"
  RetryNotify_provider :: "uint64 \<Rightarrow> ('w, 'w provider) action \<Rightarrow> ('w, 'w provider) action"
  NewAriesProviderWrapper :: "'w provider \<Rightarrow> ('w, nat) action"
  localkms_New :: "string \<Rightarrow> nat \<Rightarrow> ('w, 'w keyManager) action"
  tinkcrypto_New :: "('w, Crypto) action"
  webkms_New :: "string \<Rightarrow> Certificate list \<Rightarrow> 'w keyManager"
  webcrypto_New :: "string \<Rightarrow> Certificate list \<Rightarrow> Crypto"
  CreateKeyStore :: "Certificate list \<Rightarrow> string \<Rightarrow> ('w, string) action"
  NewSession :: "string \<Rightarrow> string \<Rightarrow> ('w, nat) action"
  awssvc_New :: "nat \<Rightarrow> string \<Rightarrow> 'w keyManager \<times> Crypto"
  grpc_Dial :: "string \<Rightarrow> ('w, nat) action"
  conns_Close :: "nat set \<Rightarrow> 'w \<Rightarrow> 'w"
  NewTrillianLogClient :: "nat \<Rightarrow> 'w TrillianLogClient"
  NewContextStore :: "'w provider \<Rightarrow> ('w, nat) action"
  NewRemoteProviderStore :: "'w provider \<Rightarrow> ('w, nat) action"
  NewDocumentLoader :: "nat \<times> nat \<Rightarrow> Certificate list \<Rightarrow> string list \<Rightarrow> ('w, DocumentLoader) action"
  vdr_New :: "Certificate list \<Rightarrow> bool \<Rightarrow> Registry"
  range_ldStores :: "(string \<times> nat \<times> nat) list \<Rightarrow> (string \<times> nat \<times> nat) list"
  ldrest_handlers :: "nat \<times> nat \<Rightarrow> (string \<times> string) list"
  go :: "('w, unit) action \<Rightarrow> 'w \<Rightarrow> 'w"
  Fatal :: "'w \<Rightarrow> 'w"
  http_ListenAndServe :: "string \<Rightarrow> 'w router \<Rightarrow> ('w, unit) action"
  http_ListenAndServeTLS :: "string \<Rightarrow> string \<Rightarrow> string \<Rightarrow> 'w router \<Rightarrow> ('w, unit) action"

definition supportedStorageProviders :: "'w agentlib \<Rightarrow> (string \<times> (string \<Rightarrow> string \<Rightarrow> ('w, 'w provider) action)) list" where
  "supportedStorageProviders A =
     [(''couchdb'', couchdb_NewProvider A),
      (''mongodb'', \<lambda>dsn. mongodb_NewProvider A (''mongodb://'' @ dsn)),
      (''postgres'', \<lambda>dsn. postgresql_NewProvider A (''postgres://'' @ dsn)),
      (''mem'', \<lambda>_ _ w. case mem_NewProvider A w of (p, w') \<Rightarrow> (Inr p, w'))]"

text \<open>The result is read after the call of \<open>RetryNotify\<close> that is written next to it.\<close>

definition createStoreProvider :: "'w agentlib \<Rightarrow> string \<Rightarrow> string \<Rightarrow> uint64 \<Rightarrow> ('w, 'w provider) action" where
  "createStoreProvider A dbURL dbPrefix timeout =
     bnd (lift (getDBParams dbURL)) (\<lambda>(driver, dsn).
       case map_of (supportedStorageProviders A) driver of
         None \<Rightarrow> throw (ErrorString (''unsupported storage driver: '' @ driver))
       | Some providerFunc \<Rightarrow> RetryNotify_provider A timeout (providerFunc dsn dbPrefix))"

definition customizedStorageProvider :: "string \<Rightarrow> 'w provider \<Rightarrow> 'w provider" where
  "customizedStorageProvider alias p = p\<lparr>prov_OpenStore := \<lambda>name. prov_OpenStore p (alias @ name),
     prov_SetStoreConfig := \<lambda>name. prov_SetStoreConfig p (alias @ name)\<rparr>"

definition createLDStoreProvider :: "'w agentlib \<Rightarrow> 'w provider \<Rightarrow> ('w, nat \<times> nat) action" where
  "createLDStoreProvider A p =
     bnd (wrapping ''create JSON-LD context store'' (NewContextStore A p)) (\<lambda>contextStore.
     bnd (wrapping ''create remote provider store'' (NewRemoteProviderStore A p)) (\<lambda>remoteProviderStore.
       ret (contextStore, remoteProviderStore)))"

definition createJSONLDDocumentLoader :: "'w agentlib \<Rightarrow> nat \<times> nat \<Rightarrow> Certificate list \<Rightarrow> string list \<Rightarrow> ('w, DocumentLoader) action" where
  "createJSONLDDocumentLoader A ldStore httpClient providerURLs =
     wrapping ''new document loader'' (NewDocumentLoader A ldStore httpClient providerURLs)"

section \<open>Keys\<close>

definition defaultMasterKeyURI :: string where "defaultMasterKeyURI = ''local-lock://default/master/key/''"

definition createLocalKMS :: "'w agentlib \<Rightarrow> 'w provider \<Rightarrow> string \<Rightarrow> ('w, 'w keyManager \<times> Crypto) action" where
  "createLocalKMS A store masterKeyURI =
     bnd (wrapping ''create Aries provider wrapper'' (NewAriesProviderWrapper A store)) (\<lambda>kmsStore.
     bnd (wrapping ''create kms'' (localkms_New A masterKeyURI kmsStore)) (\<lambda>km.
     bnd (wrapping ''create crypto'' (tinkcrypto_New A)) (\<lambda>cr. ret (km, cr))))"

definition createKMSAndCrypto ::
    "'w agentlib \<Rightarrow> agentParameters \<Rightarrow> Certificate list \<Rightarrow> 'w provider \<Rightarrow> nat \<Rightarrow> ('w, 'w keyManager \<times> Crypto) proc" where
  "createKMSAndCrypto A parameters httpClient store cfg =
     (let kp = kmsParams parameters; C = ag_config A
      in if kmsType kp = kmsLocal then call (createLocalKMS A store defaultMasterKeyURI)
         else if kmsType kp = kmsWeb then
           (if Contains (kmsEndpoint kp) ''keystores''
            then call (ret (webkms_New A (kmsEndpoint kp) httpClient, webcrypto_New A (kmsEndpoint kp) httpClient))
            else seq (wrapped ''get or init'' (getOrInit C cfg webKeyStoreKey (Unmarshal_string C) (Marshal_string C)
                       (CreateKeyStore A httpClient (kmsEndpoint kp)) (ap_syncTimeout parameters)))
              (\<lambda>keystoreURL. let url = BuildKMSURL (kmsEndpoint kp) keystoreURL
                in call (ret (webkms_New A url httpClient, webcrypto_New A url httpClient))))
         else if kmsType kp = kmsAWS then
           call (bnd (NewSession A (kmsEndpoint kp) (kmsRegion kp)) (\<lambda>s. ret (awssvc_New A s (logSignActiveKeyID kp))))
         else call (throw (ErrorString (''unsupported kms type: '' @ kmsType kp))))"

definition createKID :: "'w agentlib \<Rightarrow> 'w keyManager \<Rightarrow> nat \<Rightarrow> uint64 \<Rightarrow> ('w, string) proc" where
  "createKID A km cfg syncTimeout =
     (let C = ag_config A
      in getOrInit C cfg kidKey (Unmarshal_string C) (Marshal_string C)
           (km_Create km (ECDSAP256IEEEP1363 (kms (ag_lib A)))) syncTimeout)"

section \<open>Authorization\<close>

definition healthCheckEndpoint :: string where "healthCheckEndpoint = ''/healthcheck''"
definition addVCEndpoint :: string where "addVCEndpoint = ''/add-vc''"
definition webFingerEndpoint :: string where "webFingerEndpoint = ''/.well-known/webfinger''"

text \<open>The part of a request that is checked, and what is written to the client when it is refused.\<close>

record auth_request =
  RequestURI :: string
  hdr_Authorization :: string

definition ValidateAuthorizationBearerToken :: "auth_request \<Rightarrow> string \<Rightarrow> string \<Rightarrow> (int \<times> string) option" where
  "ValidateAuthorizationBearerToken r rToken wToken =
     (if RequestURI r = healthCheckEndpoint \<or> Contains (RequestURI r) webFingerEndpoint then None
      else if Contains (RequestURI r) addVCEndpoint \<and> wToken = [] then None
      else let token = (if Contains (RequestURI r) addVCEndpoint then wToken else rToken)
        in if token \<noteq> [] \<and> hdr_Authorization r \<noteq> ''Bearer '' @ token
           then Some (401, ''Unauthorised.'' @ [CHR 0x0A]) else None)"

definition authorizationMiddleware ::
    "string \<Rightarrow> string \<Rightarrow> (auth_request \<Rightarrow> 'w \<Rightarrow> (int \<times> string) \<times> 'w) \<Rightarrow> auth_request \<Rightarrow> 'w \<Rightarrow> (int \<times> string) \<times> 'w" where
  "authorizationMiddleware rToken wToken next_handler r w =
     (case ValidateAuthorizationBearerToken r rToken wToken of
        None \<Rightarrow> next_handler r w
      | Some response \<Rightarrow> (response, w))"

section \<open>The agent\<close>

definition started_log :: "'w agentlib \<Rightarrow> log_config \<Rightarrow> nat \<Rightarrow> Tree \<Rightarrow> 'w Log" where
  "started_log A l conn t = \<lparr>ID = TreeId t, Alias = lc_Alias l, Permission = lc_Permission l, Endpoint = lc_Endpoint l,
     Issuers = lc_Issuers l, Client = NewTrillianLogClient A conn\<rparr>"

text \<open>The loop over the logs: one connection for each endpoint, one tree for each alias.\<close>

fun start_logs :: "'w agentlib \<Rightarrow> agentParameters \<Rightarrow> nat \<Rightarrow> log_config list \<Rightarrow> (string \<rightharpoonup> nat) \<Rightarrow> 'w Log list \<Rightarrow>
    ('w, 'w Log list \<times> (string \<rightharpoonup> nat)) proc" where
  "start_logs A parameters cfg [] conns done_logs = call (ret (done_logs, conns))"
| "start_logs A parameters cfg (l # ls) conns done_logs =
     seq (case conns (lc_Endpoint l) of
            Some conn \<Rightarrow> call (ret conn)
          | None \<Rightarrow> call (wrapping ''grpc dial'' (grpc_Dial A (lc_Endpoint l))))
       (\<lambda>conn. seq (wrapped ''create tree'' (createTreeAndInit (ag_config A) conn cfg (lc_Alias l) (ap_timeout parameters) (ap_syncTimeout parameters)))
       (\<lambda>tree. case tree of
          None \<Rightarrow> call (throw (ErrorString ''panic: runtime error: invalid memory address or nil pointer dereference''))
        | Some t \<Rightarrow> start_logs A parameters cfg ls (conns(lc_Endpoint l \<mapsto> conn))
            (done_logs @ [started_log A l conn t])))"

type_synonym ld_stores = "(string \<times> nat \<times> nat) list"

definition start_loader :: "'w agentlib \<Rightarrow> agentParameters \<Rightarrow> Certificate list \<Rightarrow> 'w provider \<Rightarrow> string \<Rightarrow>
    (string \<rightharpoonup> DocumentLoader) \<times> ld_stores \<Rightarrow> ('w, (string \<rightharpoonup> DocumentLoader) \<times> ld_stores) action" where
  "start_loader A parameters httpClient store alias acc =
     (case acc of (ldrs, ldStores) \<Rightarrow>
       bnd (wrapping ''create ld store provider''
              (createLDStoreProvider A (customizedStorageProvider (ReplaceAll1 alias (CHR ''-'') (CHR ''_'')) store))) (\<lambda>ldStore.
       bnd (wrapping ''create document loader'' (createJSONLDDocumentLoader A ldStore httpClient (contextProviderURLs parameters))) (\<lambda>loader.
         ret (ldrs(alias \<mapsto> loader), AList.update alias ldStore ldStores))))"

definition agent_routes :: "(string \<times> string \<times> handler) list" where
  "agent_routes = [(p, m, RestHandler e). (p, m, e) \<leftarrow> GetRESTHandlers, p \<noteq> MetricsPath]"

definition metrics_routes :: "(string \<times> string \<times> handler) list" where
  "metrics_routes = [(p, m, RestHandler e). (p, m, e) \<leftarrow> GetRESTHandlers, p = MetricsPath]"

definition context_routes :: "'w agentlib \<Rightarrow> ld_stores \<Rightarrow> (string \<times> string \<times> handler) list" where
  "context_routes A ldStores =
     [(Replace1 BasePath AliasPath (''/'' @ alias) @ p, m, ContextHandler p (fst ldStore)).
        (alias, ldStore) \<leftarrow> range_ldStores A ldStores, (p, m) \<leftarrow> ldrest_handlers A ldStore]"

definition ListenAndServe :: "'w agentlib \<Rightarrow> string \<Rightarrow> 'w router \<Rightarrow> string \<Rightarrow> string \<Rightarrow> ('w, unit) action" where
  "ListenAndServe A host router certFile keyFile =
     (if certFile \<noteq> [] \<and> keyFile \<noteq> [] then http_ListenAndServeTLS A host certFile keyFile router
      else http_ListenAndServe A host router)"

definition startMetrics :: "'w agentlib \<Rightarrow> agentParameters \<Rightarrow> 'w router \<Rightarrow> ('w, unit) action" where
  "startMetrics A parameters route w =
     (case ListenAndServe A (ap_metricsHost parameters) route [] [] w of
        (Inl e, w') \<Rightarrow> (Inr (), Fatal A w')
      | (Inr _, w') \<Rightarrow> (Inr (), w'))"

text \<open>The last part of \<open>startAgent\<close>: the commands, the routers and the server.\<close>

definition serve_agent :: "'w agentlib \<Rightarrow> agentParameters \<Rightarrow> 'w Cmd \<Rightarrow> ld_stores \<Rightarrow> ('w, unit) action" where
  "serve_agent A parameters cmd ldStores w =
     (let router = \<lparr>rt_cmd = cmd, rt_routes = agent_routes @ context_routes A ldStores,
            rt_auth = (if readToken parameters \<noteq> [] \<or> writeToken parameters \<noteq> []
                       then Some (readToken parameters, writeToken parameters) else None),
            rt_cors = [''GET'', ''POST'']\<rparr>;
          metricsRouter = \<lparr>rt_cmd = cmd, rt_routes = metrics_routes, rt_auth = None, rt_cors = []\<rparr>
      in ListenAndServe A (ap_host parameters) router (serveCertPath (tlsParams parameters)) (serveKeyPath (tlsParams parameters))
           (go A (startMetrics A parameters metricsRouter) w))"

definition agent_keyID :: "'w agentlib \<Rightarrow> agentParameters \<Rightarrow> 'w keyManager \<Rightarrow> nat \<Rightarrow> ('w, string) proc" where
  "agent_keyID A parameters km cfg =
     (if logSignActiveKeyID (kmsParams parameters) = []
      then wrapped ''create kid'' (createKID A km cfg (ap_syncTimeout parameters))
      else call (ret (logSignActiveKeyID (kmsParams parameters))))"

definition run_logs :: "'w agentlib \<Rightarrow> agentParameters \<Rightarrow> 'w provider \<Rightarrow> Certificate list \<Rightarrow> 'w keyManager \<Rightarrow> Crypto \<Rightarrow> string \<Rightarrow>
    'w Log list \<Rightarrow> ('w, unit) action" where
  "run_logs A parameters store httpClient km cr keyID ls =
     bnd (loop (start_loader A parameters httpClient store) (map Alias ls) (Map.empty, [])) (\<lambda>(ldrs, ldStores).
     bnd (wrapping ''create command instance'' (lift (New (ag_lib A)
            \<lparr>cfg_KMS = km_base km, cfg_Crypto = cr, cfg_VDR = vdr_New A httpClient (devMode parameters), cfg_Logs = ls,
             cfg_DocumentLoaders = ldrs, cfg_KeyID = keyID, cfg_BaseURL = ap_baseURL parameters\<rparr>)))
       (\<lambda>cmd. serve_agent A parameters cmd ldStores))"

definition startAgent :: "'w agentlib \<Rightarrow> agentParameters \<Rightarrow> ('w, unit) proc" where
  "startAgent A parameters =
     seq (call (wrapping ''create store provider''
            (createStoreProvider A (datasourceName parameters) (databasePrefix parameters) (ap_timeout parameters)))) (\<lambda>store.
     deferring (\<lambda>w. snd (prov_Close store w)) (
     seq (call (wrapping ''open store'' (prov_OpenStore store ''config''))) (\<lambda>configStore.
     seq (call (wrapping ''get cert pool'' (lift (GetCertPool (ag_tls A) (systemCertPool (tlsParams parameters)) (caCerts (tlsParams parameters)))))) (\<lambda>rootCAs.
     seq (wrapped ''create kms and crypto'' (createKMSAndCrypto A parameters rootCAs store configStore)) (\<lambda>(km, cr).
     seq (agent_keyID A parameters km configStore) (\<lambda>keyID.
     seq (start_logs A parameters configStore (ap_logs parameters) Map.empty []) (\<lambda>(ls, conns).
     deferring (conns_Close A (ran conns)) (call (run_logs A parameters store rootCAs km cr keyID ls)))))))))"

end
