(* ===== verification/AgentProps.thy ===== *)
theory AgentProps
  imports Agent
begin

text \<open>
  Properties of the start of the server: which requests need which token, that the values which the
  instances of the server share are created once, and what the server serves.
\<close>

section \<open>Authorization by endpoint\<close>

text \<open>The request target of an endpoint: its path with the alias filled in, and the query.\<close>

definition request_target :: "string \<Rightarrow> string \<Rightarrow> string \<Rightarrow> string" where
  "request_target path alias q =
     Replace1 path AliasPath (''/'' @ alias) @ (if q = [] then [] else ''?'' @ q)"

text \<open>The token that the configuration means for an endpoint; none means that everybody may call it.\<close>

definition intended_token :: "string \<Rightarrow> string \<Rightarrow> endpoint \<Rightarrow> string" where
  "intended_token rToken wToken e =
     (case e of E_AddVC \<Rightarrow> wToken | E_Webfinger \<Rightarrow> [] | E_HealthCheck \<Rightarrow> [] | _ \<Rightarrow> rToken)"

lemma Contains_skip: "c \<notin> set s \<Longrightarrow> Contains (s @ t) (c # w) \<longleftrightarrow> Contains t (c # w)"
  by (induction s) auto

lemma prefix_stop: "c \<notin> set w \<Longrightarrow> prefix w (s @ c # t) \<longleftrightarrow> prefix w s"
  by (induction s arbitrary: w) (auto simp: prefix_Cons)

lemma prefix_at: "c \<notin> set u \<Longrightarrow> c \<notin> set s \<Longrightarrow> prefix (u @ c # v) (s @ c # t) \<longleftrightarrow> u = s \<and> prefix v t"
proof (induction u arbitrary: s)
  case Nil
  then show ?case by (cases s) auto
next
  case (Cons a u)
  then show ?case by (cases s) auto
qed

text \<open>Where a marker of \<open>start.go\<close> can occur in the target of a request below an alias.\<close>

lemma alias_target_markers:
  assumes "CHR ''/'' \<notin> set alias" "CHR ''/'' \<notin> set name"
  shows "Contains (''/'' @ alias @ ''/v1/'' @ name @ rest) addVCEndpoint \<longleftrightarrow>
      prefix ''add-vc'' alias \<or> prefix ''add-vc'' (name @ rest) \<or> Contains rest addVCEndpoint"
    and "Contains (''/'' @ alias @ ''/v1/'' @ name @ rest) webFingerEndpoint \<longleftrightarrow>
      prefix ''.well-known/webfinger'' (name @ rest) \<or> Contains rest webFingerEndpoint"
  using assms prefix_stop [of "CHR ''/''" "''add-vc''" "alias"] prefix_at [of "CHR ''/''" "''.well-known''" "alias" "''webfinger''"]
  by (auto simp: addVCEndpoint_def webFingerEndpoint_def Contains_skip)

definition target_token :: "string \<Rightarrow> string \<Rightarrow> string \<Rightarrow> string" where
  "target_token rToken wToken uri =
     (if uri = healthCheckEndpoint \<or> Contains uri webFingerEndpoint then []
      else if Contains uri addVCEndpoint then wToken else rToken)"

lemma Validate_target_token:
  "ValidateAuthorizationBearerToken r rToken wToken =
     (let token = target_token rToken wToken (RequestURI r)
      in if token = [] \<or> hdr_Authorization r = ''Bearer '' @ token then None else Some (401, ''Unauthorised.'' @ [CHR 0x0A]))"
  by (auto simp: ValidateAuthorizationBearerToken_def target_token_def Let_def)

lemma alias_target_token:
  assumes "CHR ''/'' \<notin> set alias" "\<not> prefix ''add-vc'' alias" "CHR ''/'' \<notin> set name" "\<not> prefix ''.'' name" "name \<noteq> []"
    "\<not> Contains rest addVCEndpoint" "\<not> Contains rest webFingerEndpoint"
  shows "target_token rToken wToken (''/'' @ alias @ ''/v1/'' @ name @ rest) = (if prefix ''add-vc'' (name @ rest) then wToken else rToken)"
proof -
  have "''/'' @ alias @ ''/v1/'' @ name @ rest \<noteq> healthCheckEndpoint"
  proof
    assume "''/'' @ alias @ ''/v1/'' @ name @ rest = healthCheckEndpoint"
    from arg_cong [OF this, of "\<lambda>s. CHR ''/'' \<in> set (tl s)"] show False by (simp add: healthCheckEndpoint_def)
  qed
  moreover have "\<not> prefix ''.well-known/webfinger'' (name @ rest)" using assms(4,5) by (cases name) auto
  ultimately show ?thesis
    using assms alias_target_markers [OF assms(1,3), of rest] by (simp add: target_token_def)
qed

lemma Contains_query:
  "Contains (if q = [] then [] else ''?'' @ q) addVCEndpoint \<longleftrightarrow> Contains q addVCEndpoint"
  "Contains (if q = [] then [] else ''?'' @ q) webFingerEndpoint \<longleftrightarrow> Contains q webFingerEndpoint"
  by (auto simp: addVCEndpoint_def webFingerEndpoint_def)

lemmas path_defs = AddVCPath_def GetSTHPath_def GetSTHConsistencyPath_def GetProofByHashPath_def GetEntriesPath_def
  GetIssuersPath_def GetEntryAndProofPath_def WebfingerPath_def HealthCheckPath_def MetricsPath_def BasePath_def AliasPath_def

lemma agent_routes_eq:
  "agent_routes = [(''/{alias}/v1/'' @ ''add-vc'', ''POST'', RestHandler E_AddVC), (''/{alias}/v1/'' @ ''get-sth'', ''GET'', RestHandler E_GetSTH),
     (''/{alias}/v1/'' @ ''get-sth-consistency'', ''GET'', RestHandler E_GetSTHConsistency),
     (''/{alias}/v1/'' @ ''get-proof-by-hash'', ''GET'', RestHandler E_GetProofByHash),
     (''/{alias}/v1/'' @ ''get-entries'', ''GET'', RestHandler E_GetEntries), (''/{alias}/v1/'' @ ''get-issuers'', ''GET'', RestHandler E_GetIssuers),
     (webFingerEndpoint, ''GET'', RestHandler E_Webfinger), (''/{alias}/v1/'' @ ''get-entry-and-proof'', ''GET'', RestHandler E_GetEntryAndProof),
     (healthCheckEndpoint, ''GET'', RestHandler E_HealthCheck)]"
  by (simp add: agent_routes_def GetRESTHandlers_def path_defs webFingerEndpoint_def healthCheckEndpoint_def)

definition alias_route :: "string \<Rightarrow> endpoint \<Rightarrow> bool" where
  "alias_route name e \<longleftrightarrow> CHR ''/'' \<notin> set name \<and> \<not> prefix ''.'' name \<and> name \<noteq> [] \<and>
     (\<forall>rest. prefix ''add-vc'' (name @ rest) \<longleftrightarrow> e = E_AddVC) \<and> e \<noteq> E_Webfinger \<and> e \<noteq> E_HealthCheck"

lemma alias_routes:
  "alias_route ''add-vc'' E_AddVC" "alias_route ''get-sth'' E_GetSTH" "alias_route ''get-sth-consistency'' E_GetSTHConsistency"
  "alias_route ''get-proof-by-hash'' E_GetProofByHash" "alias_route ''get-entries'' E_GetEntries"
  "alias_route ''get-issuers'' E_GetIssuers" "alias_route ''get-entry-and-proof'' E_GetEntryAndProof"
  by (simp_all add: alias_route_def)

lemma agent_routes_cases:
  assumes "(path, m, RestHandler e) \<in> set agent_routes"
  shows "(\<exists>name. path = ''/{alias}/v1/'' @ name \<and> alias_route name e) \<or>
     path = webFingerEndpoint \<and> e = E_Webfinger \<or> path = healthCheckEndpoint \<and> e = E_HealthCheck"
  using assms alias_routes unfolding agent_routes_eq list.set insert_iff empty_iff prod.inject handler.inject by blast

lemma alias_target: "Replace1 (''/{alias}/v1/'' @ name) AliasPath (''/'' @ alias) = ''/'' @ alias @ ''/v1/'' @ name"
  by (simp add: AliasPath_def)

lemma webfinger_target: "Contains (request_target webFingerEndpoint alias q) webFingerEndpoint"
  by (simp add: request_target_def webFingerEndpoint_def AliasPath_def)

lemma healthcheck_target: "request_target healthCheckEndpoint alias [] = healthCheckEndpoint"
  by (simp add: request_target_def healthCheckEndpoint_def AliasPath_def)

lemma target_token_intended:
  assumes "(path, m, RestHandler e) \<in> set agent_routes" "CHR ''/'' \<notin> set alias" "\<not> prefix ''add-vc'' alias"
    "\<not> Contains q addVCEndpoint" "\<not> Contains q webFingerEndpoint" "e = E_HealthCheck \<Longrightarrow> q = []"
  shows "target_token rToken wToken (request_target path alias q) = intended_token rToken wToken e"
  using agent_routes_cases [OF assms(1)]
proof (elim disjE exE conjE)
  fix name
  assume path: "path = ''/{alias}/v1/'' @ name" and "alias_route name e"
  then have name: "CHR ''/'' \<notin> set name" "\<not> prefix ''.'' name" "name \<noteq> []"
    "\<forall>rest. prefix ''add-vc'' (name @ rest) \<longleftrightarrow> e = E_AddVC" "e \<noteq> E_Webfinger" "e \<noteq> E_HealthCheck"
    by (simp_all add: alias_route_def)
  define rest where "rest = (if q = [] then [] else ''?'' @ q)"
  have "request_target path alias q = ''/'' @ alias @ ''/v1/'' @ name @ rest"
    using alias_target [of name "alias"] by (simp add: request_target_def path rest_def)
  moreover have "\<not> Contains rest addVCEndpoint" "\<not> Contains rest webFingerEndpoint"
    using Contains_query [of q] assms(4,5) unfolding rest_def by blast+
  ultimately have "target_token rToken wToken (request_target path alias q) = (if e = E_AddVC then wToken else rToken)"
    using alias_target_token [OF assms(2,3) name(1,2,3)] name(4) by metis
  with name(5,6) show ?thesis by (simp add: intended_token_def split: endpoint.split)
next
  assume "path = webFingerEndpoint" "e = E_Webfinger"
  then show ?thesis by (simp add: target_token_def webfinger_target intended_token_def)
next
  assume "path = healthCheckEndpoint" "e = E_HealthCheck"
  then show ?thesis using assms(6) by (simp add: target_token_def healthcheck_target intended_token_def)
qed



text \<open>
  Without the conditions on the query there is no protection: a query that ends in the path of webfinger
  opens every endpoint without a token.
\<close>

theorem authorization_bypass:
  "authorizationMiddleware rToken wToken next_handler
     \<lparr>RequestURI = request_target path alias (q @ webFingerEndpoint), hdr_Authorization = hdr\<rparr> w =
   next_handler \<lparr>RequestURI = request_target path alias (q @ webFingerEndpoint), hdr_Authorization = hdr\<rparr> w"
proof -
  have "request_target path alias (q @ webFingerEndpoint) = (Replace1 path AliasPath (''/'' @ alias) @ ''?'' @ q) @ webFingerEndpoint @ []"
    by (simp add: request_target_def webFingerEndpoint_def)
  then have "Contains (request_target path alias (q @ webFingerEndpoint)) webFingerEndpoint" unfolding Contains_iff by blast
  then show ?thesis by (simp add: authorizationMiddleware_def ValidateAuthorizationBearerToken_def)
qed

section \<open>Shared values\<close>

text \<open>
  The documented behaviour of a key-value store to which nobody else writes meanwhile: \<open>content\<close> is what it
  holds. Reading and sleeping change nothing, a missing key is announced by \<open>ErrDataNotFound\<close>.
\<close>

definition quiet_store :: "'w configlib \<Rightarrow> nat \<Rightarrow> ('w \<Rightarrow> string \<Rightarrow> bytes option) \<Rightarrow> bool" where
  "quiet_store C cfg content \<longleftrightarrow>
     (\<forall>k w. fst (store_Get C cfg k w) = (case content w k of None \<Rightarrow> Inl (ErrDataNotFound C) | Some b \<Rightarrow> Inr b) \<and>
        content (snd (store_Get C cfg k w)) = content w) \<and>
     (\<forall>k b w. fst (store_Put C cfg k b w) = Inr () \<and> content (snd (store_Put C cfg k b w)) = (content w)(k \<mapsto> b)) \<and>
     (\<forall>d w. content (Sleep C d w) = content w)"

lemma quiet_Get:
  assumes "quiet_store C cfg content"
  obtains w' where "store_Get C cfg k w = (case content w k of None \<Rightarrow> Inl (ErrDataNotFound C) | Some b \<Rightarrow> Inr b, w')" "content w' = content w"
  using assms by (metis (lifting) prod.collapse quiet_store_def)

lemma quiet_Put:
  assumes "quiet_store C cfg content"
  obtains w' where "store_Put C cfg k b w = (Inr (), w')" "content w' = (content w)(k \<mapsto> b)"
  using assms by (metis (lifting) prod.collapse quiet_store_def)

lemma getOrInit_present:
  assumes "quiet_store C cfg content" "content w key = Some src"
  obtains w' where "getOrInit C cfg key unmarshal marshal initFn timeout w = Some (unmarshal src, w')" "content w' = content w"
proof -
  obtain w1 where w1: "store_Get C cfg key w = (Inr src, w1)" "content w1 = content w"
    using quiet_Get [OF assms(1), of key w] assms(2) by auto
  obtain w2 where "store_Get C cfg key (Sleep C (Second * timeout) w1) = (Inr src, w2)" "content w2 = content w"
    using quiet_Get [OF assms(1), of key "Sleep C (Second * timeout) w1"] assms w1(2) unfolding quiet_store_def by auto
  then show thesis using w1 by (intro that [of w2]) (simp_all add: getOrInit.simps)
qed

lemma getOrInit_absent:
  assumes "quiet_store C cfg content" "content w key = None" "\<And>w. content (snd (initFn w)) = content w"
  obtains e w' w1 r where "getOrInit C cfg key unmarshal marshal initFn timeout w = Some (Inl e, w')" "content w' = content w"
      "content w1 = content w" "fst (initFn w1) = r" "\<forall>val. r = Inr val \<longrightarrow> isl (marshal val)"
  | w1 val w2 src w' where "content w1 = content w" "initFn w1 = (Inr val, w2)" "marshal val = Inr src"
      "getOrInit C cfg key unmarshal marshal initFn timeout w = Some (unmarshal src, w')" "content w' = (content w)(key \<mapsto> src)"
proof -
  obtain w1 where w1: "store_Get C cfg key w = (Inl (ErrDataNotFound C), w1)" "content w1 = content w"
    using quiet_Get [OF assms(1), of key w] assms(2) by auto
  obtain r w2 where i: "initFn w1 = (r, w2)" "content w2 = content w" using assms(3) [of w1] w1(2) by (cases "initFn w1") auto
  show thesis
  proof (cases r)
    case (Inl e)
    then show thesis using w1 i by (intro that(1) [of "config_error C ''init'' key e" w2 w1 r]) (simp_all add: getOrInit.simps)
  next
    case val: (Inr val)
    show thesis
    proof (cases "marshal val")
      case (Inl e)
      then show thesis using w1 i val by (intro that(1) [of "config_error C ''marshal'' key e" w2 w1 r]) (simp_all add: getOrInit.simps)
    next
      case (Inr src)
      obtain w3 where p: "store_Put C cfg key src w2 = (Inr (), w3)" "content w3 = (content w)(key \<mapsto> src)"
        using quiet_Put [OF assms(1)] i(2) by metis
      have "content w3 key = Some src" by (simp add: p(2))
      then obtain w' where "getOrInit C cfg key unmarshal marshal initFn timeout w3 = Some (unmarshal src, w')" "content w' = content w3"
        by (rule getOrInit_present [OF assms(1)])
      moreover have "getOrInit C cfg key unmarshal marshal initFn timeout w = getOrInit C cfg key unmarshal marshal initFn timeout w3"
        using w1 i val Inr p by (simp add: getOrInit.simps [of C cfg key unmarshal marshal initFn timeout w])
      ultimately show thesis using w1 i val Inr p by (intro that(2) [of w1 val w2 src w']) simp_all
    qed
  qed
qed

text \<open>
  From the state \<open>w\<close> of the configuration on, \<open>createTreeAndInit\<close> returns the tree and changes nothing, on any
  connection and with any log service.
\<close>

definition returns_tree :: "'w configlib \<Rightarrow> nat \<Rightarrow> ('w \<Rightarrow> string \<Rightarrow> bytes option) \<Rightarrow> string \<Rightarrow> Tree option \<Rightarrow> 'w \<Rightarrow> bool" where
  "returns_tree C cfg content alias tree w \<longleftrightarrow>
     (\<forall>create retry init conn timeout sync w2. content w2 = content w \<longrightarrow>
        (\<exists>w3. createTreeAndInit (C\<lparr>rpc_CreateTree := create, RetryNotify_tree := retry, rpc_InitLog := init\<rparr>) conn cfg alias timeout sync w2 =
            Some (Inr tree, w3) \<and> content w3 = content w2))"

lemma createTree_present:
  assumes store: "quiet_store C cfg content" and present: "content w (treeLogKey @ ''-'' @ alias) = Some src"
    and tree: "Unmarshal_tree C src = Inr tree"
  shows "returns_tree C cfg content alias tree w"
  unfolding returns_tree_def
proof (intro allI impI)
  fix create retry init conn timeout sync w2
  let ?C = "C\<lparr>rpc_CreateTree := create, RetryNotify_tree := retry, rpc_InitLog := init\<rparr>"
  let ?key = "treeLogKey @ ''-'' @ alias"
  assume "content w2 = content w"
  then have present': "content w2 ?key = Some src" using present by simp
  have "quiet_store ?C cfg content" using store by (simp add: quiet_store_def cong: option.case_cong)
  from this present' obtain w3 where "getOrInit ?C cfg ?key (Unmarshal_tree C) (Marshal_tree C) (initTree ?C conn timeout) sync w2 =
      Some (Unmarshal_tree C src, w3)" "content w3 = content w2"
    by (rule getOrInit_present)
  then show "\<exists>w3. createTreeAndInit ?C conn cfg alias timeout sync w2 = Some (Inr tree, w3) \<and> content w3 = content w2"
    using tree by (simp add: createTreeAndInit_def wrapped_def)
qed


definition sample_configlib :: "(string \<rightharpoonup> bytes) configlib" where
  "sample_configlib =
     (let tree = newTree\<lparr>TreeId := 7\<rparr>; text = ''7''
      in \<lparr>cl_print = \<lambda>_. True, ErrDataNotFound = ErrorString ''data not found'',
        store_Get = \<lambda>_ k w. (case w k of None \<Rightarrow> Inl (ErrorString ''data not found'') | Some b \<Rightarrow> Inr b, w),
        store_Put = \<lambda>_ k b w. (Inr (), w(k \<mapsto> b)), Sleep = \<lambda>_ w. w,
        Marshal_tree = \<lambda>t. if t = tree then Inr text else Inl (ErrorString ''other''),
        Unmarshal_tree = \<lambda>b. if b = text then Inr (Some tree) else Inl (ErrorString ''other''),
        Marshal_string = Inr, Unmarshal_string = Inr, RetryNotify_tree = \<lambda>_ m. m,
        rpc_CreateTree = \<lambda>_ t w. (Inr (t\<lparr>TreeId := 7\<rparr>), w), rpc_InitLog = \<lambda>_ _ w. (Inr (), w)\<rparr>)"


text \<open>
  Two instances that start at the same time may end up with different values: when one of them runs
  completely while the other still creates its value, the first keeps a value that the second then replaces.
\<close>

lemma getOrInit_race:
  defines "instance_A \<equiv> getOrInit sample_configlib 2 kidKey Inr Inr (\<lambda>w. (Inr ''A'', w)) 3"
  shows "instance_A Map.empty = Some (Inr ''A'', [kidKey \<mapsto> ''A''])"
    "getOrInit sample_configlib 2 kidKey Inr Inr (\<lambda>w. (Inr ''B'', snd (the (instance_A w)))) 3 Map.empty =
       Some (Inr ''B'', [kidKey \<mapsto> ''B''])"
proof -
  have set: "getOrInit sample_configlib 2 kidKey Inr Inr initFn 3 [kidKey \<mapsto> v] = Some (Inr v, [kidKey \<mapsto> v])" for initFn v
    by (simp add: getOrInit.simps sample_configlib_def Let_def)
  have unset: "getOrInit sample_configlib 2 kidKey Inr Inr initFn 3 Map.empty =
      (case initFn Map.empty of
         (Inl e, w) \<Rightarrow> Some (Inl (config_error sample_configlib ''init'' kidKey e), w)
       | (Inr v, w) \<Rightarrow> getOrInit sample_configlib 2 kidKey Inr Inr initFn 3 (w(kidKey \<mapsto> v)))" for initFn
    by (subst getOrInit.simps) (auto simp: sample_configlib_def Let_def split: prod.split sum.split)
  show A: "instance_A Map.empty = Some (Inr ''A'', [kidKey \<mapsto> ''A''])" by (simp add: instance_A_def unset set)
  show "getOrInit sample_configlib 2 kidKey Inr Inr (\<lambda>w. (Inr ''B'', snd (the (instance_A w)))) 3 Map.empty =
      Some (Inr ''B'', [kidKey \<mapsto> ''B''])"
    by (simp add: unset A set)
qed

section \<open>What is served\<close>

text \<open>Metrics are only served by the router of the metrics host, everything else only by the other one.\<close>

lemma metrics_apart:
  "(p, m, RestHandler e) \<in> set agent_routes \<longleftrightarrow> (p, m, e) \<in> set GetRESTHandlers \<and> p \<noteq> MetricsPath"
  "(p, m, RestHandler e) \<in> set metrics_routes \<longleftrightarrow> (p, m, e) \<in> set GetRESTHandlers \<and> p = MetricsPath"
  by (auto simp: agent_routes_def metrics_routes_def)

text \<open>The stores of the JSON-LD contexts of two logs may be the same.\<close>

lemma context_stores_collide:
  "customizedStorageProvider (ReplaceAll1 ''maple-2021'' (CHR ''-'') (CHR ''_'')) p =
   customizedStorageProvider (ReplaceAll1 ''maple_2021'' (CHR ''-'') (CHR ''_'')) p"
  by (simp add: ReplaceAll1_def)

definition log_view :: "'w Log \<Rightarrow> log_config" where
  "log_view l = \<lparr>lc_Alias = Alias l, lc_Permission = Permission l, lc_Endpoint = Endpoint l, lc_Issuers = Issuers l\<rparr>"

text \<open>
  When the start of the logs succeeds, the logs are those of the configuration, in order, each with a client on
  the one connection to its endpoint.
\<close>

theorem start_logs_configured:
  "start_logs A P cfg ls conns acc w = Some (Inr (started, conns'), w') \<Longrightarrow>
     conns \<subseteq>\<^sub>m conns' \<and> (\<exists>new. started = acc @ new \<and> map log_view new = ls \<and>
       (\<forall>l\<in>set new. \<exists>conn. conns' (Endpoint l) = Some conn \<and> Client l = NewTrillianLogClient A conn))"
proof (induction ls arbitrary: conns acc w)
  case Nil
  then show ?case by (auto simp: call_def ret_def)
next
  case (Cons l ls)
  from Cons.prems obtain conn w1 tree w2 where
    conn: "(case conns (lc_Endpoint l) of Some conn \<Rightarrow> call (ret conn)
        | None \<Rightarrow> call (wrapping ''grpc dial'' (grpc_Dial A (lc_Endpoint l)))) w = Some (Inr conn, w1)"
    and tree: "(case tree of None \<Rightarrow> call (throw (ErrorString ''panic: runtime error: invalid memory address or nil pointer dereference''))
        | Some t \<Rightarrow> start_logs A P cfg ls (conns(lc_Endpoint l \<mapsto> conn)) (acc @ [started_log A l conn t])) w2 = Some (Inr (started, conns'), w')"
    unfolding start_logs.simps seq_Some started_log_def by blast
  from tree obtain t where rest: "start_logs A P cfg ls (conns(lc_Endpoint l \<mapsto> conn)) (acc @ [started_log A l conn t]) w2 = Some (Inr (started, conns'), w')"
    by (cases tree) (auto simp: call_def throw_def)
  have "conns \<subseteq>\<^sub>m conns(lc_Endpoint l \<mapsto> conn)"
    using conn by (auto simp: map_le_def call_def ret_def split: option.splits)
  moreover note Cons.IH [OF rest]
  ultimately show ?case
    by (auto simp: log_view_def started_log_def map_le_def dom_def split: if_splits)
qed

end
