(* ===== verification/Server.thy ===== *)
theory Server
  imports Trillian Action Quoting
begin

text \<open>
  The Trillian servers: \<open>cmd/internal/serverutil\<close>, the start commands of the log server and of the log signer, and
  the storage providers of \<open>pkg/storage/postgres/provider.go\<close> and \<open>pkg/storage/memory/provider.go\<close>. Trillian, etcd, gRPC,
  \<open>database/sql\<close> and the network are the fields of \<open>serverlib\<close>, on a world \<open>'w\<close>; servers, clients, listeners and
  providers are handles. \<open>logger.Fatal\<close> ends the process. No allowed tree types means that all are.
\<close>

record registry =
  reg_AdminStorage :: nat
  reg_LogStorage :: nat
  reg_QuotaManager :: nat
  reg_ElectionFactory :: "nat option"

record 'w server_Main =
  RPCEndpoint :: string
  HTTPEndpoint :: string
  TLSCertFile :: string
  TLSKeyFile :: string
  DBClose :: "'w \<Rightarrow> 'w"
  Registry :: registry
  StatsPrefix :: string
  QuotaDryRun :: bool
  RegisterServerFn :: "nat \<Rightarrow> ('w, unit) action"
  IsHealthy :: "(int64 \<Rightarrow> ('w, unit) action) option"
  HealthyDeadline :: int64
  AllowedTreeTypes :: "TreeType list"
  TreeGCEnabled :: bool
  TreeDeleteThreshold :: int64
  TreeDeleteMinInterval :: int64
  ExtraOptions :: "nat list"

record operation_info =
  oi_Registry :: registry
  oi_BatchSize :: int
  oi_NumWorkers :: int
  oi_RunInterval :: int64
  oi_PreElectionPause :: int64
  oi_MasterHoldInterval :: int64
  oi_MasterHoldJitter :: int64

record 'w serverlib =
  sv_print :: "nat \<Rightarrow> bool"
  sv_go :: "('w, unit) action \<Rightarrow> 'w \<Rightarrow> 'w"
  sv_Sleep :: "int64 \<Rightarrow> 'w \<Rightarrow> 'w"
  interceptors :: "string \<Rightarrow> registry \<Rightarrow> bool \<Rightarrow> nat"
  NewServerTLSFromFile :: "string \<Rightarrow> string \<Rightarrow> ('w, nat) action"
  grpc_NewServer :: "nat list \<Rightarrow> 'w \<Rightarrow> nat \<times> 'w"
  RegisterTrillianAdminServer :: "nat \<Rightarrow> registry \<Rightarrow> TreeType list \<Rightarrow> 'w \<Rightarrow> 'w"
  reflection_Register :: "nat \<Rightarrow> 'w \<Rightarrow> 'w"
  GracefulStop :: "nat \<Rightarrow> 'w \<Rightarrow> 'w"
  http_Handle :: "string \<Rightarrow> ('w \<Rightarrow> (int \<times> string) \<times> 'w) \<Rightarrow> 'w \<Rightarrow> 'w"
  promhttp_Handler :: "'w \<Rightarrow> (int \<times> string) \<times> 'w"
  sv_ListenAndServe :: "string \<Rightarrow> ('w, unit) action"
  sv_ListenAndServeTLS :: "string \<Rightarrow> string \<Rightarrow> string \<Rightarrow> ('w, unit) action"
  net_Listen :: "string \<Rightarrow> ('w, nat) action"
  AwaitSignal_stop :: "nat \<Rightarrow> ('w, unit) action"
  DeletedTreeGC_Run :: "nat \<Rightarrow> int64 \<Rightarrow> int64 \<Rightarrow> ('w, unit) action"
  srv_Serve :: "nat \<Rightarrow> nat \<Rightarrow> ('w, unit) action"
  client_Grant :: "nat \<Rightarrow> int64 \<Rightarrow> ('w, nat) action"
  client_KeepAlive :: "nat \<Rightarrow> nat \<Rightarrow> 'w \<Rightarrow> 'w"
  client_Revoke :: "nat \<Rightarrow> nat \<Rightarrow> 'w \<Rightarrow> 'w"
  endpoints_NewManager :: "nat \<Rightarrow> string \<Rightarrow> ('w, nat) action"
  AddEndpoint :: "nat \<Rightarrow> string \<Rightarrow> string \<Rightarrow> 'w \<Rightarrow> 'w"
  DeleteEndpoint :: "nat \<Rightarrow> string \<Rightarrow> 'w \<Rightarrow> 'w"
  sql_Open :: "string \<Rightarrow> string \<Rightarrow> ('w, nat) action"
  sql_Exec :: "nat \<Rightarrow> string \<Rightarrow> ('w, unit) action"
  sql_Close :: "nat \<Rightarrow> 'w \<Rightarrow> 'w"
  schema_SQL :: string
  ParseFlagFile :: "string \<Rightarrow> ('w, unit) action"
  SetStartSpan :: "'w \<Rightarrow> 'w"
  EnableRPCServerTracing :: "string \<Rightarrow> int \<Rightarrow> ('w, nat list) action"
  storage_NewProvider :: "string \<Rightarrow> ('w, nat) action"
  sp_Close :: "nat \<Rightarrow> 'w \<Rightarrow> 'w"
  sp_AdminStorage :: "nat \<Rightarrow> nat"
  sp_LogStorage :: "nat \<Rightarrow> nat"
  as_CheckDatabaseAccessible :: "nat \<Rightarrow> int64 \<Rightarrow> ('w, unit) action"
  etcd_Servers :: "'w \<Rightarrow> string"
  clientv3_New :: "string list \<Rightarrow> int64 \<Rightarrow> ('w, nat) action"
  client_Close :: "nat \<Rightarrow> 'w \<Rightarrow> 'w"
  quota_NewManager :: "string \<Rightarrow> ('w, nat) action"
  etcd_QuotaManagerName :: string
  logServer_IsHealthy :: "registry \<Rightarrow> ('w, unit) action"
  RegisterTrillianLogServer :: "nat \<Rightarrow> registry \<Rightarrow> 'w \<Rightarrow> 'w"
  RegisterQuotaServer :: "nat \<Rightarrow> nat option \<Rightarrow> 'w \<Rightarrow> 'w"
  NoopFactory :: nat
  etcdelect_NewFactory :: "string \<Rightarrow> nat \<Rightarrow> string \<Rightarrow> nat"
  os_Hostname :: "'w \<Rightarrow> string"
  os_Getpid :: "'w \<Rightarrow> nat"
  AwaitSignal_cancel :: "('w, unit) action"
  ctx_cancel :: "'w \<Rightarrow> 'w"
  set_QuotaIncreaseFactor :: "64 word \<Rightarrow> 'w \<Rightarrow> 'w"
  OperationLoop :: "operation_info \<Rightarrow> int64 \<Rightarrow> ('w, unit) action"

definition seconds :: "int64 \<Rightarrow> int64" where "seconds n = n * 1000000000"
definition hours :: "int64 \<Rightarrow> int64" where "hours n = n * 3600000000000"

definition DefaultTreeDeleteThreshold :: int64 where "DefaultTreeDeleteThreshold = 7 * 24 * hours 1"
definition DefaultTreeDeleteMinInterval :: int64 where "DefaultTreeDeleteMinInterval = hours 4"

section \<open>Server utilities\<close>

definition or_fatal :: "('w, 'a) action \<Rightarrow> ('w, 'a) proc" where
  "or_fatal m w = (case m w of (Inl _, _) \<Rightarrow> None | (Inr a, w') \<Rightarrow> Some (Inr a, w'))"

definition healthz :: "'w server_Main \<Rightarrow> 'w \<Rightarrow> (int \<times> string) \<times> 'w" where
  "healthz m w =
     (case IsHealthy m of
        None \<Rightarrow> ((200, ''ok''), w)
      | Some check \<Rightarrow> (case check (HealthyDeadline m) w of
          (Inl e, w') \<Rightarrow> ((503, Error e), w')
        | (Inr _, w') \<Rightarrow> ((200, ''ok''), w')))"

definition newGRPCServer :: "'w serverlib \<Rightarrow> 'w server_Main \<Rightarrow> ('w, nat) action" where
  "newGRPCServer S m =
     (let serverOpts = interceptors S (StatsPrefix m) (Registry m) (QuotaDryRun m) # ExtraOptions m
      in bnd (if TLSCertFile m \<noteq> [] \<or> TLSKeyFile m \<noteq> []
              then bnd (NewServerTLSFromFile S (TLSCertFile m) (TLSKeyFile m)) (\<lambda>serverCreds. ret (serverOpts @ [serverCreds]))
              else ret serverOpts)
         (\<lambda>opts w. case grpc_NewServer S opts w of (s, w') \<Rightarrow> (Inr s, w')))"

definition http_server :: "'w serverlib \<Rightarrow> 'w server_Main \<Rightarrow> ('w, unit) action" where
  "http_server S m = bnd (attempt (if TLSCertFile m \<noteq> [] \<or> TLSKeyFile m \<noteq> []
      then sv_ListenAndServeTLS S (HTTPEndpoint m) (TLSCertFile m) (TLSKeyFile m) else sv_ListenAndServe S (HTTPEndpoint m)))
    (\<lambda>_. ret ())"

definition run_http :: "'w serverlib \<Rightarrow> 'w server_Main \<Rightarrow> 'w \<Rightarrow> 'w" where
  "run_http S m w =
     (if HTTPEndpoint m \<noteq> []
      then sv_go S (http_server S m) (http_Handle S ''/healthz'' (healthz m) (http_Handle S ''/metrics'' (promhttp_Handler S) w))
      else w)"

definition run_gc :: "'w serverlib \<Rightarrow> 'w server_Main \<Rightarrow> 'w \<Rightarrow> 'w" where
  "run_gc S m w =
     (if TreeGCEnabled m
      then sv_go S (DeletedTreeGC_Run S (reg_AdminStorage (Registry m)) (TreeDeleteThreshold m) (TreeDeleteMinInterval m)) w else w)"

definition Run :: "'w serverlib \<Rightarrow> 'w server_Main \<Rightarrow> ('w, unit) proc" where
  "Run S m0 =
     (let m = (if HealthyDeadline m0 = 0 then m0\<lparr>HealthyDeadline := seconds 5\<rparr> else m0)
      in seq (or_fatal (newGRPCServer S m)) (\<lambda>srv.
         deferring (GracefulStop S srv) (deferring (DBClose m) (call (
           bnd (RegisterServerFn m srv) (\<lambda>_.
           bnd (modify (\<lambda>w. run_http S m (reflection_Register S srv (RegisterTrillianAdminServer S srv (Registry m) (AllowedTreeTypes m) w)))) (\<lambda>_.
           bnd (net_Listen S (RPCEndpoint m)) (\<lambda>lis.
           bnd (modify (\<lambda>w. run_gc S m (sv_go S (AwaitSignal_stop S srv) w))) (\<lambda>_.
           bnd (attempt (srv_Serve S srv lis)) (\<lambda>_.
           modify (sv_Sleep S (seconds 5)))))))))))) "

text \<open>The function that \<open>AnnounceSelf\<close> returns is the second component of the result.\<close>

definition AnnounceSelf :: "'w serverlib \<Rightarrow> nat option \<Rightarrow> string \<Rightarrow> string \<Rightarrow> ('w, 'w \<Rightarrow> 'w) proc" where
  "AnnounceSelf S client etcdService endpoint =
     (case client of
        None \<Rightarrow> call (ret (\<lambda>w. w))
      | Some c \<Rightarrow>
          seq (or_fatal (client_Grant S c 30)) (\<lambda>lease.
          seq (call (modify (client_KeepAlive S c lease))) (\<lambda>_.
          seq (or_fatal (endpoints_NewManager S c etcdService)) (\<lambda>em.
          let fullEndpoint = etcdService @ ''/'' @ endpoint
          in seq (call (modify (AddEndpoint S em fullEndpoint endpoint))) (\<lambda>_.
             call (ret (\<lambda>w. client_Revoke S c lease (DeleteEndpoint S em fullEndpoint w))))))))"

definition ImportPostgres :: "'w serverlib \<Rightarrow> string \<Rightarrow> string \<Rightarrow> string \<Rightarrow> ('w, unit) action" where
  "ImportPostgres S query connStr storageSystem w =
     (case sql_Open S storageSystem connStr w of
        (Inl e, w1) \<Rightarrow> (Inl (wrapf (''error opening '' @ storageSystem) e), w1)
      | (Inr db, w1) \<Rightarrow> (case sql_Exec S db query w1 of
          (Inl e, w2) \<Rightarrow>
            (if Contains (Error e) ''already exists'' \<or> Contains (Error e) ''duplicate key value violates unique constraint''
             then Inr () else Inl e, sql_Close S db w2)
        | (Inr _, w2) \<Rightarrow> (Inr (), sql_Close S db w2)))"

section \<open>Log server\<close>

record log_server_CMD =
  ls_RPCEndpoint :: string
  ls_HTTPEndpoint :: string
  ls_HealthzTimeout :: int64
  ls_TLSCertFile :: string
  ls_TLSKeyFile :: string
  ETCDService :: string
  ls_ETCDHTTPService :: string
  ls_QuotaSystem :: string
  ls_QuotaDryRun :: bool
  ls_StorageSystem :: string
  ls_TreeGCEnabled :: bool
  ls_TreeDeleteThreshold :: int64
  ls_TreeDeleteMinRunInterval :: int64
  Tracing :: bool
  TracingProjectID :: string
  TracingPercent :: int
  ls_ConfigFile :: string
  ls_PGConnStr :: string

text \<open>The steps that both commands share.\<close>

definition load_config_file :: "'w serverlib \<Rightarrow> string \<Rightarrow> ('w, unit) action" where
  "load_config_file S file =
     (if file \<noteq> [] then wrapping (''failed to load flags from config file '' @ Quote (sv_print S) file) (ParseFlagFile S file) else ret ())"

definition load_schema :: "'w serverlib \<Rightarrow> string \<Rightarrow> string \<Rightarrow> ('w, unit) action" where
  "load_schema S storageSystem connStr =
     (if storageSystem = ''postgres''
      then wrapping (''failed to load '' @ storageSystem @ '' schema'') (ImportPostgres S (schema_SQL S) connStr storageSystem) else ret ())"

definition with_provider :: "'w serverlib \<Rightarrow> string \<Rightarrow> (nat \<Rightarrow> ('w, 'a) proc) \<Rightarrow> ('w, 'a) proc" where
  "with_provider S storageSystem k =
     seq (call (wrapping ''failed to get storage provider'' (storage_NewProvider S storageSystem))) (\<lambda>sp. deferring (sp_Close S sp) (k sp))"

definition with_etcd :: "'w serverlib \<Rightarrow> (nat option \<Rightarrow> ('w, 'a) proc) \<Rightarrow> ('w, 'a) proc" where
  "with_etcd S k w =
     (let servers = etcd_Servers S w
      in if servers \<noteq> []
         then seq (call (wrapping (''failed to connect to etcd at '' @ servers) (clientv3_New S (Split (CHR '','') servers) (seconds 5))))
                (\<lambda>c. deferring (client_Close S c) (k (Some c))) w
         else k None w)"

definition with_announcement :: "'w serverlib \<Rightarrow> nat option \<Rightarrow> string \<Rightarrow> string \<Rightarrow> ('w, 'a) proc \<Rightarrow> ('w, 'a) proc" where
  "with_announcement S client service endpoint k =
     seq (AnnounceSelf S client service endpoint) (\<lambda>unannounce. deferring unannounce k)"

definition log_server_Main :: "'w serverlib \<Rightarrow> log_server_CMD \<Rightarrow> nat list \<Rightarrow> nat \<Rightarrow> nat option \<Rightarrow> nat \<Rightarrow> 'w server_Main" where
  "log_server_Main S s options sp client qm =
     (let registry = \<lparr>reg_AdminStorage = sp_AdminStorage S sp, reg_LogStorage = sp_LogStorage S sp, reg_QuotaManager = qm,
        reg_ElectionFactory = None\<rparr>
      in \<lparr>RPCEndpoint = ls_RPCEndpoint s, HTTPEndpoint = ls_HTTPEndpoint s, TLSCertFile = ls_TLSCertFile s, TLSKeyFile = ls_TLSKeyFile s,
        DBClose = sp_Close S sp, Registry = registry, StatsPrefix = ''log'', QuotaDryRun = ls_QuotaDryRun s,
        RegisterServerFn = (\<lambda>grpc. bnd (logServer_IsHealthy S registry) (\<lambda>_.
          modify (\<lambda>w. let w1 = RegisterTrillianLogServer S grpc registry w
            in if ls_QuotaSystem s = etcd_QuotaManagerName S then RegisterQuotaServer S grpc client w1 else w1))),
        IsHealthy = Some (as_CheckDatabaseAccessible S (sp_AdminStorage S sp)), HealthyDeadline = ls_HealthzTimeout s,
        AllowedTreeTypes = [TreeType_LOG, TreeType_PREORDERED_LOG], TreeGCEnabled = ls_TreeGCEnabled s,
        TreeDeleteThreshold = ls_TreeDeleteThreshold s, TreeDeleteMinInterval = ls_TreeDeleteMinRunInterval s, ExtraOptions = options\<rparr>)"

definition log_server_Start :: "'w serverlib \<Rightarrow> log_server_CMD \<Rightarrow> ('w, unit) proc" where
  "log_server_Start S s =
     seq (call (load_config_file S (ls_ConfigFile s))) (\<lambda>_.
     seq (call (modify (SetStartSpan S))) (\<lambda>_.
     seq (call (if Tracing s
            then wrapping ''failed to initialize stackdriver / opencensus tracing'' (EnableRPCServerTracing S (TracingProjectID s) (TracingPercent s))
            else ret [])) (\<lambda>options.
     seq (call (load_schema S (ls_StorageSystem s) (ls_PGConnStr s))) (\<lambda>_.
     with_provider S (ls_StorageSystem s) (\<lambda>sp.
     with_etcd S (\<lambda>client.
     with_announcement S client (ETCDService s) (ls_RPCEndpoint s) (
     (if ls_HTTPEndpoint s \<noteq> [] then with_announcement S client (ls_ETCDHTTPService s) (ls_HTTPEndpoint s) else (\<lambda>k. k)) (
     seq (call (wrapping ''error creating quota manager'' (quota_NewManager S (ls_QuotaSystem s)))) (\<lambda>qm.
     wrapped ''server exited with error'' (Run S (log_server_Main S s options sp client qm)))))))))))"

section \<open>Log signer\<close>

text \<open>\<open>QuotaIncreaseFactor\<close> is a \<open>float64\<close> and only passed on: its bits.\<close>

record log_signer_CMD =
  lg_RPCEndpoint :: string
  lg_HTTPEndpoint :: string
  lg_HealthzTimeout :: int64
  lg_TLSCertFile :: string
  lg_TLSKeyFile :: string
  SequencerIntervalFlag :: int64
  lg_ETCDHTTPService :: string
  lg_QuotaSystem :: string
  BatchSizeFlag :: int
  lg_StorageSystem :: string
  NumSeqFlag :: int
  SequencerGuardWindowFlag :: int64
  LockDir :: string
  ForceMaster :: bool
  PREElectionPause :: int64
  QuotaIncreaseFactor :: "64 word"
  lg_ConfigFile :: string
  lg_PGConnStr :: string
  MasterHoldInterval :: int64
  MasterHoldJitter :: int64

definition election_factory :: "'w serverlib \<Rightarrow> log_signer_CMD \<Rightarrow> nat option \<Rightarrow> ('w, nat) action" where
  "election_factory S s client w =
     (let instanceID = os_Hostname S w @ ''.'' @ FormatNat (os_Getpid S w)
      in (if ForceMaster s then Inr (NoopFactory S)
          else (case client of
              Some c \<Rightarrow> Inr (etcdelect_NewFactory S instanceID c (LockDir s))
            | None \<Rightarrow> Inl (ErrorString ''either --force_master or --etcd_servers must be supplied'')), w))"

definition signer_registry :: "'w serverlib \<Rightarrow> nat \<Rightarrow> nat \<Rightarrow> nat \<Rightarrow> registry" where
  "signer_registry S sp electionFactory qm = \<lparr>reg_AdminStorage = sp_AdminStorage S sp, reg_LogStorage = sp_LogStorage S sp,
     reg_QuotaManager = qm, reg_ElectionFactory = Some electionFactory\<rparr>"

definition signer_info :: "log_signer_CMD \<Rightarrow> registry \<Rightarrow> operation_info" where
  "signer_info s registry = \<lparr>oi_Registry = registry, oi_BatchSize = BatchSizeFlag s, oi_NumWorkers = NumSeqFlag s,
     oi_RunInterval = SequencerIntervalFlag s, oi_PreElectionPause = PREElectionPause s,
     oi_MasterHoldInterval = MasterHoldInterval s, oi_MasterHoldJitter = MasterHoldJitter s\<rparr>"

definition log_signer_Main :: "'w serverlib \<Rightarrow> log_signer_CMD \<Rightarrow> nat \<Rightarrow> registry \<Rightarrow> 'w server_Main" where
  "log_signer_Main S s sp registry =
     \<lparr>RPCEndpoint = lg_RPCEndpoint s, HTTPEndpoint = lg_HTTPEndpoint s, TLSCertFile = lg_TLSCertFile s, TLSKeyFile = lg_TLSKeyFile s,
      DBClose = sp_Close S sp, Registry = registry, StatsPrefix = ''logsigner'', QuotaDryRun = False,
      RegisterServerFn = (\<lambda>_. ret ()), IsHealthy = Some (as_CheckDatabaseAccessible S (sp_AdminStorage S sp)),
      HealthyDeadline = lg_HealthzTimeout s, AllowedTreeTypes = [], TreeGCEnabled = False, TreeDeleteThreshold = 0,
      TreeDeleteMinInterval = 0, ExtraOptions = []\<rparr>"

definition log_signer_Start :: "'w serverlib \<Rightarrow> log_signer_CMD \<Rightarrow> ('w, unit) proc" where
  "log_signer_Start S s =
     seq (call (load_config_file S (lg_ConfigFile s))) (\<lambda>_.
     seq (call (load_schema S (lg_StorageSystem s) (lg_PGConnStr s))) (\<lambda>_.
     with_provider S (lg_StorageSystem s) (\<lambda>sp.
     with_etcd S (\<lambda>client.
     deferring (ctx_cancel S) (
     seq (call (modify (sv_go S (AwaitSignal_cancel S)))) (\<lambda>_.
     seq (call (election_factory S s client)) (\<lambda>electionFactory.
     seq (call (wrapping ''error creating quota manager'' (quota_NewManager S (lg_QuotaSystem s)))) (\<lambda>qm.
     let registry = signer_registry S sp electionFactory qm
     in (if lg_HTTPEndpoint s \<noteq> [] then with_announcement S client (lg_ETCDHTTPService s) (lg_HTTPEndpoint s) else (\<lambda>k. k)) (
     seq (call (modify (\<lambda>w. sv_go S (OperationLoop S (signer_info s registry) (SequencerGuardWindowFlag s))
            (set_QuotaIncreaseFactor S (QuotaIncreaseFactor s) w)))) (\<lambda>_.
     wrapped ''server exited with error'' (Run S (log_signer_Main S s sp registry))))))))))))"

section \<open>Storage providers\<close>

text \<open>
  The package variables of \<open>pkg/storage/postgres/provider.go\<close>; the provider is its database handle. \<open>pgOnce\<close> says
  whether the function of \<open>sync.Once\<close> has run.
\<close>

record pg_globals =
  pg_ConnStr :: string
  pgOnce :: bool
  pgOnceErr :: "err option"
  pgStorageInstance :: "nat option"

definition OpenDB :: "'w serverlib \<Rightarrow> string \<Rightarrow> ('w, nat) action" where
  "OpenDB S connStr = sql_Open S ''postgres'' connStr"

definition pg_init :: "'w serverlib \<Rightarrow> pg_globals \<times> 'w \<Rightarrow> pg_globals \<times> 'w" where
  "pg_init S gw =
     (case gw of (g, w) \<Rightarrow>
       if pgOnce g then (g, w)
       else (case OpenDB S (pg_ConnStr g) w of
           (Inl e, w') \<Rightarrow> (g\<lparr>pgOnce := True, pgOnceErr := Some e\<rparr>, w')
         | (Inr db, w') \<Rightarrow> (g\<lparr>pgOnce := True, pgOnceErr := None, pgStorageInstance := Some db\<rparr>, w')))"

definition NewPGProvider :: "'w serverlib \<Rightarrow> (pg_globals \<times> 'w, nat option) action" where
  "NewPGProvider S gw =
     (let gw' = pg_init S gw
      in (case pgOnceErr (fst gw') of Some e \<Rightarrow> Inl e | None \<Rightarrow> Inr (pgStorageInstance (fst gw')), gw'))"

definition pg_Close :: "'w serverlib \<Rightarrow> nat \<Rightarrow> pg_globals \<times> 'w \<Rightarrow> pg_globals \<times> 'w" where
  "pg_Close S db gw = (fst gw, sql_Close S db (snd gw))"

text \<open>The memory provider: the instance is created by the first call.\<close>

definition NewMemoryStorageProvider :: "('w \<Rightarrow> nat \<times> 'w) \<Rightarrow> (nat option \<times> 'w, nat) action" where
  "NewMemoryStorageProvider NewTreeStorage gw =
     (case gw of
        (Some p, w) \<Rightarrow> (Inr p, (Some p, w))
      | (None, w) \<Rightarrow> (case NewTreeStorage w of (p, w') \<Rightarrow> (Inr p, (Some p, w'))))"

section \<open>Properties\<close>

lemma log_server_Main_config: "log_server_Main S (s\<lparr>ls_ConfigFile := f\<rparr>) = log_server_Main S s"
  by (simp add: fun_eq_iff log_server_Main_def Let_def cong: if_cong)

text \<open>
  The flags of a configuration file are read into the flag variables, but the start command has copied all of
  them before: starting with a file is starting without it, in the world after reading the file.
\<close>

theorem config_file_ignored:
  assumes "ParseFlagFile S file w = (Inr (), w')" "file \<noteq> []"
  shows "log_server_Start S (s\<lparr>ls_ConfigFile := file\<rparr>) w = log_server_Start S (s\<lparr>ls_ConfigFile := []\<rparr>) w'"
  using assms
  by (simp add: log_server_Start_def load_config_file_def seq_def call_def wrapping_def ret_def log_server_Main_config
      cong: if_cong)

text \<open>The database is closed before the server waits for its pending calls.\<close>

theorem Run_closes_database_first:
  assumes "Run S m w = Some (r, w')"
  shows "\<exists>srv w1. w' = GracefulStop S srv (DBClose m w1)"
  using assms
  by (auto simp: Run_def Let_def seq_def or_fatal_def deferring_def split: option.splits sum.splits prod.splits if_splits)

text \<open>Whatever happens after a provider is open, it is closed in the end, unless the process exits.\<close>

lemma with_provider_closes:
  assumes "with_provider S n k w = Some (r, w')"
  shows "(\<exists>e. storage_NewProvider S n w = (Inl e, w') \<and> r = Inl (wrapf ''failed to get storage provider'' e)) \<or>
    (\<exists>sp w1 w2. storage_NewProvider S n w = (Inr sp, w1) \<and> k sp w1 = Some (r, w2) \<and> w' = sp_Close S sp w2)"
  using assms by (auto simp: with_provider_def seq_def call_def wrapping_def deferring_def split: sum.splits prod.splits)

text \<open>The signer does not start without a way to elect a master, and closes its provider then.\<close>

theorem signer_needs_election:
  assumes "\<not> ForceMaster s" "lg_ConfigFile s = []" "load_schema S (lg_StorageSystem s) (lg_PGConnStr s) w = (Inr (), w1)"
    "storage_NewProvider S (lg_StorageSystem s) w1 = (Inr sp, w2)" "etcd_Servers S w2 = []"
  shows "log_signer_Start S s w =
    Some (Inl (ErrorString ''either --force_master or --etcd_servers must be supplied''),
      sp_Close S sp (ctx_cancel S (sv_go S (AwaitSignal_cancel S) w2)))"
  using assms
  by (simp add: log_signer_Start_def load_config_file_def seq_def call_def ret_def with_provider_def wrapping_def with_etcd_def
      deferring_def election_factory_def modify_def)

text \<open>
  There is one PostgreSQL provider in a process, or one error: a connection that cannot be opened at first is never
  tried again, and whoever closes the provider closes it for all.
\<close>

theorem pg_provider_once:
  assumes "NewPGProvider S gw = (r, gw')"
  shows "NewPGProvider S (fst gw', w2) = (r, (fst gw', w2))"
  using assms by (auto simp: NewPGProvider_def pg_init_def Let_def split: prod.splits sum.splits if_splits cong: option.case_cong)

lemma pg_provider_shared:
  assumes "NewPGProvider S gw = (Inr (Some db), gw')"
  shows "NewPGProvider S (pg_Close S db gw') = (Inr (Some db), (fst gw', sql_Close S db (snd gw')))"
  using pg_provider_once [OF assms, of "sql_Close S db (snd gw')"] by (simp add: pg_Close_def)

lemma memory_provider_once:
  "NewMemoryStorageProvider N gw = (Inr p, gw') \<Longrightarrow> NewMemoryStorageProvider N (fst gw', w2) = (Inr p, (fst gw', w2))"
  by (auto simp: NewMemoryStorageProvider_def split: prod.splits option.splits)

text \<open>The connection for the schema is closed on every path, and a schema that exists is no error.\<close>

lemma ImportPostgres_closes:
  assumes "sql_Open S sys conn w = (Inr db, w1)"
  shows "\<exists>w2. snd (ImportPostgres S query conn sys w) = sql_Close S db w2"
    "fst (sql_Exec S db query w1) = Inl e \<Longrightarrow> Contains (Error e) ''already exists'' \<Longrightarrow> fst (ImportPostgres S query conn sys w) = Inr ()"
  using assms by (auto simp: ImportPostgres_def split: prod.splits sum.splits)

end
