(* ===== verification/Spec2Isabelle.thy ===== *)
theory Spec2Isabelle
  imports Client Storage Logging AgentProps Server
begin

text \<open>
  Verification of \<open>vct\<close>, a server that keeps verifiable credentials in transparency logs. A client posts
  a credential; the server checks it, queues it in a Trillian log and returns a signed timestamp, the
  receipt. Anyone can read entries, proofs and signed tree heads. The logs are kept by Trillian
  servers, which can run inside the same process on the PostgreSQL storage of this repository.

  \<^bold>\<open>The parts of the program and their theories\<close>

  \<^item> Language and standard library. \<open>Prelude\<close> (strings, strconv, bytes, 64-bit words), \<open>Utf8\<close>, \<open>Sha256\<close>,
    \<open>UrlQuery\<close> (url.Values), \<open>Encoding\<close> (base64, encoding/json of the types used) and \<open>Quoting\<close>
    (\<open>%q\<close> and JSON string literals) model what the sources use of them. Go's \<open>int64\<close> and \<open>uint64\<close> are
    both \<^typ>\<open>64 word\<close>, compared by \<open><s\<close> or \<open><\<close>; strings and byte slices are byte lists.
  \<^item> \<open>internal/pkg/jsoncanonicalizer\<close>, \<open>pkg/canonicalizer\<close>: \<open>Canonicalizer\<close> has the parser state \<open>pst\<close> and one
    function for each closure of \<open>Transform\<close>; \<open>CanonicalForm\<close> has its correctness.
  \<^item> \<open>pkg/controller/errors\<close>: \<open>Errors\<close>. The datatype \<open>err\<close> is every error of the program.
  \<^item> \<open>pkg/controller/command\<close>: \<open>Models\<close> (models.go), \<open>Trillian\<close> (the messages and the client of the log
    service), \<open>Command\<close> (command.go, one definition for each handler) and \<open>CommandProps\<close>.
  \<^item> \<open>pkg/controller/rest/operation.go\<close>: \<open>Rest\<close>. \<open>pkg/client/vct/client.go\<close>: \<open>Client\<close>.
  \<^item> \<open>pkg/storage/postgres\<close>: \<open>Tables\<close> (schema/storage.sql and the statements as functions on a
    \<open>database\<close>), \<open>Session\<close> (database/sql: transactions, savepoints, failures of the driver),
    \<open>AdminStorage\<close> (admin_storage.go), \<open>TreeStorage\<close> (tree_storage.go), \<open>LogStorage\<close> (log_storage.go and
    queue.go), with the properties in \<open>LogQueue\<close>, \<open>LogProps\<close>, \<open>LogRange\<close> and \<open>Storage\<close>. \<open>Action\<close> has the
    combinators in which all of these are written.
  \<^item> \<open>internal/pkg/log/logger.go\<close>: \<open>Logging\<close>, the levels of the modules and their textual specification.
  \<^item> \<open>internal/pkg/cmdutil\<close> and the command line of \<open>cmd/vct/startcmd/start.go\<close>: \<open>Config\<close>.
  \<^item> \<open>internal/pkg/tlsutil\<close>: \<open>TlsUtil\<close>, the pool of trusted certificates.
  \<^item> The start of the server in \<open>cmd/vct/startcmd/start.go\<close>: \<open>Agent\<close>, with one definition for each function and
    \<open>startAgent\<close> composed of them over a world of databases, key managers and services, and \<open>AgentProps\<close>.
  \<^item> \<open>cmd/internal/serverutil\<close>, \<open>cmd/log_server/startcmd\<close>, \<open>cmd/log_signer/startcmd\<close> and the storage providers of
    \<open>pkg/storage/postgres\<close> and \<open>pkg/storage/memory\<close>: \<open>Server\<close>.

  \<^bold>\<open>How they interact\<close>

  The REST client builds a request that a handler of \<open>Rest\<close> parses, marshals and hands to a command; the
  command calls the log service through the record \<open>TrillianLogClient\<close> and the answer goes back the same way.
  \<open>Client\<close> composes these layers: what the client sends is what the command receives, and the receipt that
  the command signs is what the client verifies. The log service is Trillian and not part of the
  repository; it is any client record, on a state of any type. Trillian in turn calls the storage, whose
  operations are actions on a session.

  \<^bold>\<open>What the theorems show\<close>

  \<^item> Canonicalization: \<open>Transform\<close> returns on every input, computes the canonical form of a JSON text, is
    idempotent, and does not depend on the order of members; repeated keys are refused.
  \<^item> Commands: permissions and issuers are checked before the log service is called, and only the client of
    the log that is named is called; ranges are cut to 1000 entries and no more is returned than asked for;
    the tree head and the timestamp that are signed are those of the answer; a receipt verifies; documents
    that agree up to their proof have one identity.
  \<^item> REST and client: aliases and numbers reach the commands unchanged, with the exceptions that are stated;
    counters count the successes; tokens are sent where they are configured.
  \<^item> Storage: any sequence of operations under any failures keeps the constraints of the schema
    (\<open>storage_step\<close>, by rule induction); transactions are atomic; queueing refines an abstract log
    (\<open>log_spec\<close>, \<open>abs_log\<close>, \<open>spec_queue\<close>); dequeueing takes the oldest leaves and drains the queue; subtrees
    and signed roots are read back; deletion is undone or complete; ranges of leaves have no gaps; prepared
    statements are transparent. The locale \<open>guarantee\<close> is the contract of an action that respects a preorder on
    sessions; it is interpreted for \<open>confined\<close> (the committed database is not touched) and for every invariant.
  \<^item> Logging: a specification that is written is read back.
  \<^item> Start: the configuration of logs is read as it is documented; the pool holds exactly the certificates that are
    configured; a tree is created once and found again; every configured log is started on the connection to
    its endpoint; a request reaches its handler exactly with the token of its endpoint. The conditions under which this holds are
    needed: \<open>authorization_bypass\<close>, \<open>getOrInit_race\<close> and \<open>context_stores_collide\<close> show what happens otherwise.
  \<^item> Trillian servers: providers are closed on every path, a signer needs an election, there is one provider in a process;
    \<open>config_file_ignored\<close> and \<open>Run_closes_database_first\<close> show two effects of the order of the calls.

  \<^bold>\<open>Fuel and bounds\<close>

  The mutually recursive parser of \<open>Canonicalizer\<close> takes fuel. \<open>Transform\<close> starts it with twice the length of
  the input plus five, and it is proved that this is enough for every input.
  \<open>getOrInit\<close> is a partial function, as it may wait forever; it is proved to return on a store without other writers.

  \<^bold>\<open>Parameters\<close>

  Code outside the repository is an argument: \<open>lib\<close> (aries, json, url.Parse), \<open>adminlib\<close>, \<open>cachelib\<close> and
  \<open>loglib\<close> (Trillian's storage helpers, its subtree cache and codecs), \<open>strconv_float\<close> (conversion of
  floating-point numbers), \<open>sort.Sort\<close>,
  \<open>cobra_Command\<close> (flags and environment), \<open>go_range\<close> (orders of map traversal), \<open>tlslib\<close>, \<open>configlib\<close>, \<open>agentlib\<close>
  and \<open>serverlib\<close> (certificates, stores, key managers, gRPC, etcd, HTTP server). Where a theorem relies on documented behaviour of it, this is a
  predicate among its premises, such as \<open>sort_ok\<close> or \<open>root_codec_ok\<close>.

  \<^bold>\<open>Not modelled\<close>

  \<^item> Latency histograms and the registration of metrics: they have no effect on the behaviour.
  \<^item> The mutexes of the administration storage, the statement cache and the logger: operations run one after the other.
  \<^item> \<open>pkg/controller/rest/models.go\<close>: declarations for the generated API documentation, without code.
  \<^item> \<open>main.go\<close> of the three commands: they register providers and flags and call the start commands.
  \<^item> The options of \<open>webVDR\<close>, the counters of the AWS metrics, and concurrency inside a process: a \<open>go\<close> statement hands an
    action to the scheduler, which is a parameter.
  \<^item> \<open>ldcontext\<close>, \<open>internal/pkg/log/fields.go\<close> and \<open>common.go\<close>, \<open>testutil\<close>, \<open>testdb\<close> and the test steps: embedded
    files, constructors of log fields and code that only tests use.
\<close>

end
